(* ===== verification/Nexa_Prelude.thy ===== *)
theory Nexa_Prelude
  imports
    Complex_Main
    "HOL-Library.AList"
    "HOL-Library.Char_ord"
    "HOL-Library.List_Lexorder"
    "HOL-Library.Product_Lexorder"
begin

section \<open>Shared vocabulary of the Nexa development\<close>

text \<open>
  Shared vocabulary of the development.  Python results that may fail are values of a sum type
  (\<open>Inl\<close> the raised error), Python dictionaries are association lists whose insertion
  order is the dictionary's (\<open>AList.update\<close> overwrites in place or appends, exactly as
  \<^verbatim>\<open>d[k] = v\<close> does), and a stateful component is a partial step function.  The lemma collections
  \<open>res_simps\<close> and \<open>dict_simps\<close> carry the routine rewriting of every component.
\<close>

named_theorems res_simps
named_theorems dict_simps

subsection \<open>Fallible results\<close>

type_synonym ('e, 'a) result = "'e + 'a"

definition res_bind :: "('e, 'a) result \<Rightarrow> ('a \<Rightarrow> ('e, 'b) result) \<Rightarrow> ('e, 'b) result" where
  "res_bind m f = (case m of Inl e \<Rightarrow> Inl e | Inr x \<Rightarrow> f x)"

text \<open>\<open>first_error f xs\<close> is a validation loop: the first error the body reports, if any.\<close>

fun first_error :: "('a \<Rightarrow> 'e option) \<Rightarrow> 'a list \<Rightarrow> 'e option" where
  "first_error f [] = None"
| "first_error f (x # xs) = (case f x of Some e \<Rightarrow> Some e | None \<Rightarrow> first_error f xs)"

text \<open>\<open>fold_result f s xs\<close> is a loop over \<open>xs\<close> that updates a state and may raise.\<close>

fun fold_result :: "('s \<Rightarrow> 'a \<Rightarrow> ('e, 's) result) \<Rightarrow> 's \<Rightarrow> 'a list \<Rightarrow> ('e, 's) result" where
  "fold_result f s [] = Inr s"
| "fold_result f s (x # xs) = (case f s x of Inl e \<Rightarrow> Inl e | Inr s' \<Rightarrow> fold_result f s' xs)"

subsection \<open>Dictionaries\<close>

type_synonym ('k, 'v) dict = "('k \<times> 'v) list"

definition dict_of :: "('k \<times> 'v) list \<Rightarrow> ('k, 'v) dict" where
  "dict_of ps = foldl (\<lambda>d p. AList.update (fst p) (snd p) d) [] ps"

abbreviation dict_keys :: "('k, 'v) dict \<Rightarrow> 'k list" where
  "dict_keys d \<equiv> map fst d"

abbreviation dict_values :: "('k, 'v) dict \<Rightarrow> 'v list" where
  "dict_values d \<equiv> map snd d"

text \<open>\<open>dict_the d k\<close> is \<^verbatim>\<open>d[k]\<close> where the key is known to be present.\<close>

definition dict_the :: "('k, 'v) dict \<Rightarrow> 'k \<Rightarrow> 'v" where
  "dict_the d k = the (map_of d k)"

text \<open>\<open>max_default d xs\<close> is \<^verbatim>\<open>max(xs, default=d)\<close>.\<close>

definition max_default :: "'a::linorder \<Rightarrow> 'a list \<Rightarrow> 'a" where
  "max_default d xs = (case xs of [] \<Rightarrow> d | y # ys \<Rightarrow> fold max ys y)"

subsection \<open>Lemmas on results\<close>

lemma res_bind_simps [simp]:
  "res_bind (Inl e) f = Inl e"
  "res_bind (Inr x) f = f x"
  by (simp_all add: res_bind_def)

lemma res_bind_Inr_iff [res_simps]:
  "res_bind m f = Inr y \<longleftrightarrow> (\<exists>x. m = Inr x \<and> f x = Inr y)"
  by (cases m) simp_all

lemma res_bind_Inl_iff [res_simps]:
  "res_bind m f = Inl e \<longleftrightarrow> m = Inl e \<or> (\<exists>x. m = Inr x \<and> f x = Inl e)"
  by (cases m) simp_all

lemma if_raise_Inr [res_simps]:
  "(if b then Inl e else k) = Inr y \<longleftrightarrow> \<not> b \<and> k = Inr y"
  by simp

lemma first_error_None [res_simps]:
  "first_error f xs = None \<longleftrightarrow> (\<forall>x \<in> set xs. f x = None)"
  by (induction xs) (auto split: option.splits)

lemma first_error_SomeD:
  "first_error f xs = Some e \<Longrightarrow> \<exists>x \<in> set xs. f x = Some e"
  by (induction xs) (auto split: option.splits)

lemma fold_result_append [simp]:
  "fold_result f s (xs @ ys) = res_bind (fold_result f s xs) (\<lambda>s'. fold_result f s' ys)"
  by (induction xs arbitrary: s) (auto split: sum.splits)

lemma fold_result_total:
  "(\<And>s x. x \<in> set xs \<Longrightarrow> \<exists>s'. f s x = Inr s') \<Longrightarrow> \<exists>s'. fold_result f s xs = Inr s'"
proof (induction xs arbitrary: s)
  case (Cons x xs)
  obtain t where "f s x = Inr t" using Cons.prems [of x s] by auto
  moreover have "\<exists>s'. fold_result f t xs = Inr s'" by (rule Cons.IH) (use Cons.prems in simp)
  ultimately show ?case by simp
qed simp

text \<open>Invariants of a raising loop: a step that keeps \<open>P\<close> makes the whole loop keep it.\<close>

lemma fold_result_invariant:
  assumes "fold_result f s xs = Inr s'" "P s"
    and "\<And>s x s'. x \<in> set xs \<Longrightarrow> P s \<Longrightarrow> f s x = Inr s' \<Longrightarrow> P s'"
  shows "P s'"
  using assms
proof (induction xs arbitrary: s)
  case (Cons x xs)
  from Cons.prems(1) obtain t where t: "f s x = Inr t" "fold_result f t xs = Inr s'"
    by (auto split: sum.splits)
  have "P t" by (rule Cons.prems(3) [OF _ Cons.prems(2) t(1)]) simp
  then show ?case
    using Cons.IH [OF t(2)] Cons.prems(3) by (meson list.set_intros(2))
qed simp

subsection \<open>Lemmas on dictionaries\<close>

lemma map_of_update [dict_simps, simp]:
  "map_of (AList.update k v d) = (map_of d)(k \<mapsto> v)"
  by (rule update_conv')

lemma keys_update [dict_simps]:
  "dict_keys (AList.update k v d) = (if k \<in> fst ` set d then dict_keys d else dict_keys d @ [k])"
  by (simp add: update_keys)

lemma fst_image_update [dict_simps, simp]:
  "fst ` set (AList.update k v d) = insert k (fst ` set d)"
  by (simp add: dom_update)

lemma dict_of_Nil [simp]: "dict_of [] = []"
  by (simp add: dict_of_def)

lemma dict_of_snoc [simp]:
  "dict_of (ps @ [p]) = AList.update (fst p) (snd p) (dict_of ps)"
  by (simp add: dict_of_def)

lemma set_keys_dict_of [simp]: "set (dict_keys (dict_of ps)) = fst ` set ps"
  by (induction ps rule: rev_induct) (auto simp: keys_update)

lemma fst_image_dict_of [simp]: "fst ` set (dict_of ps) = fst ` set ps"
  using set_keys_dict_of [of ps] by simp

lemma distinct_dict_of [simp]: "distinct (dict_keys (dict_of ps))"
  by (induction ps rule: rev_induct) (auto simp: keys_update)

lemma update_fresh: "k \<notin> fst ` set d \<Longrightarrow> AList.update k v d = d @ [(k, v)]"
  by (induction d) auto

lemma dict_of_distinct: "distinct (dict_keys ps) \<Longrightarrow> dict_of ps = ps"
  by (induction ps rule: rev_induct) (auto simp: update_fresh)

lemma length_dict_of_le: "length (dict_of ps) \<le> length ps"
proof -
  have "length (dict_of ps) = card (fst ` set ps)"
    using distinct_card [OF distinct_dict_of [of ps]] by simp
  also have "\<dots> \<le> card (set ps)" by (rule card_image_le) simp
  also have "\<dots> \<le> length ps" by (rule card_length)
  finally show ?thesis .
qed

lemma length_dict_of_iff:
  "length (dict_of ps) = length ps \<longleftrightarrow> distinct (dict_keys ps)"
proof
  assume len: "length (dict_of ps) = length ps"
  have "length (dict_of ps) = card (set (dict_keys ps))"
    using distinct_card [OF distinct_dict_of [of ps]] by simp
  with len have "card (set (dict_keys ps)) = length (dict_keys ps)" by simp
  then show "distinct (dict_keys ps)" by (rule card_distinct)
next
  assume "distinct (dict_keys ps)"
  then show "length (dict_of ps) = length ps" by (simp add: dict_of_distinct)
qed

lemma set_update_subset: "set (AList.update k v d) \<subseteq> insert (k, v) (set d)"
  by (induction d) auto

lemma set_dict_of_subset: "set (dict_of ps) \<subseteq> set ps"
  by (induction ps rule: rev_induct) (use set_update_subset in fastforce)+

lemma map_of_dict_of: "map_of (dict_of ps) k = map_of (rev ps) k"
  by (induction ps rule: rev_induct) auto

lemma dict_the_update [simp]:
  "dict_the (AList.update k v d) k' = (if k' = k then v else dict_the d k')"
  by (simp add: dict_the_def)

lemma dict_the_in: "k \<in> set (dict_keys d) \<Longrightarrow> (k, dict_the d k) \<in> set d"
  by (auto simp: dict_the_def map_of_eq_None_iff [symmetric] image_iff intro: map_of_SomeD
      dest!: weak_map_of_SomeI)

lemma dict_the_mem: "(k, v) \<in> set d \<Longrightarrow> distinct (dict_keys d) \<Longrightarrow> dict_the d k = v"
  by (simp add: dict_the_def)

lemma dict_the_map_snd:
  "k \<in> set (dict_keys d) \<Longrightarrow> dict_the (map (\<lambda>(k, v). (k, f k v)) d) k = f k (dict_the d k)"
  by (induction d) (auto simp: dict_the_def split: if_splits)

lemma keys_map_snd [simp]: "dict_keys (map (\<lambda>(k, v). (k, f k v)) d) = dict_keys d"
  by (induction d) auto

lemma dict_eq_map:
  assumes "distinct (dict_keys d)"
  shows "d = map (\<lambda>k. (k, dict_the d k)) (dict_keys d)"
proof -
  have "map (\<lambda>k. (k, dict_the d k)) (dict_keys d) = map (\<lambda>p. (fst p, dict_the d (fst p))) d" by simp
  also have "\<dots> = map id d"
    using assms by (intro map_cong) (auto simp: dict_the_def)
  finally show ?thesis by simp
qed

lemma dict_eqI:
  assumes "dict_keys d = dict_keys d'" "distinct (dict_keys d)"
    and "\<And>k. k \<in> fst ` set d \<Longrightarrow> dict_the d k = dict_the d' k"
  shows "d = d'"
proof -
  have "d = map (\<lambda>k. (k, dict_the d k)) (dict_keys d)" by (rule dict_eq_map [OF assms(2)])
  also have "\<dots> = map (\<lambda>k. (k, dict_the d' k)) (dict_keys d)"
    by (intro map_cong refl) (simp add: assms(3))
  also have "\<dots> = map (\<lambda>k. (k, dict_the d' k)) (dict_keys d')" using assms(1) by simp
  also have "\<dots> = d'" by (rule dict_eq_map [symmetric]) (use assms in simp)
  finally show ?thesis .
qed

lemma dict_the_keyed:
  "x \<in> set xs \<Longrightarrow> distinct (map f xs) \<Longrightarrow> dict_the (map (\<lambda>x. (f x, g x)) xs) (f x) = g x"
  unfolding dict_the_def by (subst map_of_is_SomeI [where y = "g x"]) (auto simp: comp_def)

lemma dict_the_const:
  "k \<in> f ` set xs \<Longrightarrow> dict_the (map (\<lambda>x. (f x, c)) xs) k = c"
  by (induction xs) (auto simp: dict_the_def)

lemma dict_the_sort_keys:
  "k \<in> set ks \<Longrightarrow> dict_the (map (\<lambda>k. (k, f k)) ks) k = f k"
  by (induction ks) (auto simp: dict_the_def)

lemma max_default_Max: "max_default d xs = (if xs = [] then d else Max (set xs))"
  by (cases xs) (simp_all add: max_default_def Max.set_eq_fold [symmetric] del: fold_simps set_simps)

text \<open>Summing per key over all keys counts every element once.\<close>

lemma sum_list_partition:
  fixes g :: "'a \<Rightarrow> int"
  assumes "distinct ks" "\<And>x. x \<in> set xs \<Longrightarrow> f x \<in> set ks"
  shows "sum_list (map (\<lambda>k. sum_list (map g (filter (\<lambda>x. f x = k) xs))) ks) = sum_list (map g xs)"
  using assms(2)
proof (induction xs)
  case (Cons x xs)
  have "sum_list (map (\<lambda>k. sum_list (map g (filter (\<lambda>y. f y = k) (x # xs)))) ks) =
      sum_list (map (\<lambda>k. (if k = f x then g x else 0) + sum_list (map g (filter (\<lambda>y. f y = k) xs))) ks)"
    by (intro arg_cong [where f = sum_list] map_cong refl) auto
  also have "\<dots> = sum_list (map (\<lambda>k. if k = f x then g x else 0) ks) + sum_list (map g xs)"
    using Cons by (simp add: sum_list_addf)
  also have "sum_list (map (\<lambda>k. if k = f x then g x else 0) ks) = g x"
    using assms(1) Cons.prems [of x]
    by (simp add: sum_list_distinct_conv_sum_set sum.delta')
  finally show ?case by simp
qed (simp add: sum_list_0)

lemma max_default_in: "max_default d xs = d \<or> max_default d xs \<in> set xs"
  by (cases "xs = []") (simp_all add: max_default_Max)

lemma max_default_ge: "b \<le> d \<Longrightarrow> (\<And>x. x \<in> set xs \<Longrightarrow> b \<le> x) \<Longrightarrow> b \<le> max_default d xs"
  using max_default_in [of d xs] by auto

lemma max_default_le: "d \<le> b \<Longrightarrow> (\<And>x. x \<in> set xs \<Longrightarrow> x \<le> b) \<Longrightarrow> max_default d xs \<le> b"
  using max_default_in [of d xs] by auto

subsection \<open>Step functions, runs and invariants\<close>

text \<open>A run executes operations in order and stops at the first refusal.\<close>

fun run_steps :: "('s \<Rightarrow> 'op \<Rightarrow> 's option) \<Rightarrow> 's \<Rightarrow> 'op list \<Rightarrow> 's option" where
  "run_steps step s [] = Some s"
| "run_steps step s (a # as) = (case step s a of None \<Rightarrow> None | Some t \<Rightarrow> run_steps step t as)"

lemma run_steps_append:
  "run_steps step s (as @ bs) = Option.bind (run_steps step s as) (\<lambda>t. run_steps step t bs)"
  by (induction as arbitrary: s) (auto split: option.splits)

text \<open>
  The interface of a stateful component: a step that may refuse, a predicate every accepted step
  keeps, and a two-state relation every accepted step satisfies.  Each component interprets it on
  its own operations; the client lemmas lift both to whole runs.
\<close>

locale stepped =
  fixes step :: "'s \<Rightarrow> 'op \<Rightarrow> 's option"
    and invariant :: "'s \<Rightarrow> bool"
  assumes step_inv: "invariant s \<Longrightarrow> step s a = Some t \<Longrightarrow> invariant t"
begin

lemma run_inv: "invariant s \<Longrightarrow> run_steps step s as = Some t \<Longrightarrow> invariant t"
  by (induction as arbitrary: s) (auto split: option.splits dest: step_inv)

end

locale stepped_rel = stepped step invariant
  for step :: "'s \<Rightarrow> 'op \<Rightarrow> 's option" and invariant :: "'s \<Rightarrow> bool" +
  fixes rel :: "'s \<Rightarrow> 's \<Rightarrow> bool"
  assumes rel_refl: "rel s s"
    and rel_trans: "rel s t \<Longrightarrow> rel t u \<Longrightarrow> rel s u"
    and step_rel: "invariant s \<Longrightarrow> step s a = Some t \<Longrightarrow> rel s t"
begin

lemma run_rel: "invariant s \<Longrightarrow> run_steps step s as = Some t \<Longrightarrow> rel s t"
proof (induction as arbitrary: s)
  case (Cons a as)
  then obtain u where u: "step s a = Some u" "run_steps step u as = Some t"
    by (auto split: option.splits)
  with Cons show ?case
    using step_inv step_rel rel_trans by blast
qed (simp add: rel_refl)

end

end
