(* ===== verification/Decimal50.thy ===== *)
theory Decimal50
  imports Nexa_Prelude "HOL-Library.Log_Nat"
begin

section \<open>Decimal arithmetic at precision 50\<close>

text \<open>
  The scheduler and the ledger compute with Python's \<^verbatim>\<open>decimal.Decimal\<close> under a local
  context of fifty significant digits and \<^verbatim>\<open>ROUND_HALF_EVEN\<close>.  A finite \<^verbatim>\<open>Decimal\<close> is
  its rational value; every operation returns the exact result rounded to fifty digits.  The
  locale \<open>decimal_context\<close> states what the clients rely on (rounding is monotone, keeps zero, and
  is the identity on values that are already representable), and is interpreted on
  \<open>rnd50\<close>.  Exponent overflow at ten to the power of 999999 is outside the modelled range.
\<close>

datatype decimal = Finite rat | NonFinite

definition is_finite :: "decimal \<Rightarrow> bool" where
  "is_finite d = (case d of Finite _ \<Rightarrow> True | NonFinite \<Rightarrow> False)"

definition dec_val :: "decimal \<Rightarrow> rat" where
  "dec_val d = (case d of Finite q \<Rightarrow> q | NonFinite \<Rightarrow> 0)"

definition decimal_precision :: nat where
  "decimal_precision = 50"

text \<open>The adjusted exponent: the power of ten of the leading digit of a positive value.\<close>

definition adjusted :: "rat \<Rightarrow> int" where
  "adjusted q =
     (if 1 \<le> q then int (floorlog 10 (nat \<lfloor>q\<rfloor>)) - 1
      else - int (floorlog 10 (nat (\<lceil>1 / q\<rceil> - 1))))"

definition round_half_even :: "rat \<Rightarrow> int" where
  "round_half_even x =
     (let f = \<lfloor>x\<rfloor>; r = x - of_int f in
      if r < 1 / 2 then f else if 1 / 2 < r then f + 1 else if even f then f else f + 1)"

definition dec_round :: "nat \<Rightarrow> rat \<Rightarrow> rat" where
  "dec_round p q =
     (if q = 0 then 0
      else let e = adjusted \<bar>q\<bar> - int p + 1
           in of_int (round_half_even (q / 10 powi e)) * 10 powi e)"

definition rnd50 :: "rat \<Rightarrow> rat" where
  "rnd50 = dec_round decimal_precision"

definition dec_add :: "rat \<Rightarrow> rat \<Rightarrow> rat" where
  "dec_add a b = rnd50 (a + b)"

definition dec_sub :: "rat \<Rightarrow> rat \<Rightarrow> rat" where
  "dec_sub a b = rnd50 (a - b)"

definition dec_mul :: "rat \<Rightarrow> rat \<Rightarrow> rat" where
  "dec_mul a b = rnd50 (a * b)"

definition dec_div :: "rat \<Rightarrow> rat \<Rightarrow> rat" where
  "dec_div a b = rnd50 (a / b)"

text \<open>Values a context of precision \<open>p\<close> represents exactly.\<close>

definition representable :: "nat \<Rightarrow> rat \<Rightarrow> bool" where
  "representable p q \<longleftrightarrow> (\<exists>m e. q = of_int m * 10 powi e \<and> \<bar>m\<bar> \<le> 10 ^ p)"

lemma decimal_simps [simp]:
  "dec_val (Finite q) = q" "dec_val NonFinite = 0" "is_finite (Finite q)" "\<not> is_finite NonFinite"
  by (simp_all add: dec_val_def is_finite_def)

subsection \<open>Rounding to the nearest integer\<close>

lemma round_half_even_bounds:
  "of_int (round_half_even x) - x \<le> 1 / 2" "x - of_int (round_half_even x) \<le> 1 / 2"
proof -
  define f where "f = \<lfloor>x\<rfloor>"
  have "of_int f \<le> x" "x < of_int f + 1" unfolding f_def by linarith+
  then show "of_int (round_half_even x) - x \<le> 1 / 2" "x - of_int (round_half_even x) \<le> 1 / 2"
    unfolding round_half_even_def Let_def f_def [symmetric] by (simp_all add: not_less)
qed

lemma round_half_even_of_int [simp]: "round_half_even (of_int n) = n"
  by (simp add: round_half_even_def)

lemma round_half_even_mono: "x \<le> y \<Longrightarrow> round_half_even x \<le> round_half_even y"
proof -
  assume le: "x \<le> y"
  then have "\<lfloor>x\<rfloor> \<le> \<lfloor>y\<rfloor>" by (rule floor_mono)
  then consider "\<lfloor>x\<rfloor> = \<lfloor>y\<rfloor>" | "\<lfloor>x\<rfloor> + 1 \<le> \<lfloor>y\<rfloor>" by linarith
  then show ?thesis
  proof cases
    case 1
    with le show ?thesis by (auto simp: round_half_even_def Let_def)
  next
    case 2
    have "round_half_even x \<le> \<lfloor>x\<rfloor> + 1" "\<lfloor>y\<rfloor> \<le> round_half_even y"
      by (auto simp: round_half_even_def Let_def)
    with 2 show ?thesis by linarith
  qed
qed

lemma round_half_even_minus: "round_half_even (- x) = - round_half_even x"
proof (cases "x = of_int \<lfloor>x\<rfloor>")
  case True
  then show ?thesis by (metis of_int_minus round_half_even_of_int)
next
  case False
  then have "of_int \<lfloor>x\<rfloor> < x" "x < of_int \<lfloor>x\<rfloor> + 1" by linarith+
  then have fl: "\<lfloor>- x\<rfloor> = - \<lfloor>x\<rfloor> - 1" by (intro floor_unique) auto
  show ?thesis unfolding round_half_even_def Let_def fl by (auto simp: field_simps)
qed

subsection \<open>The adjusted exponent\<close>

lemma adjusted_ge_1:
  assumes "1 \<le> q"
  shows "10 powi adjusted q \<le> q \<and> q < 10 powi (adjusted q + 1)"
proof -
  define n where "n = nat \<lfloor>q\<rfloor>"
  define l where "l = floorlog 10 n"
  have n: "1 \<le> n" using assms unfolding n_def by linarith
  have b: "10 ^ (l - 1) \<le> n" "n < 10 ^ l"
    using floorlog_bounds [of n 10] n unfolding l_def by auto
  have l: "1 \<le> l" using n b by (cases l) auto
  have q: "of_nat n \<le> q" "q < of_nat n + 1" using assms unfolding n_def by simp_all linarith+
  have "(10::rat) ^ (l - 1) \<le> of_nat n" using b(1) by (metis of_nat_le_iff of_nat_numeral of_nat_power)
  moreover have "Suc n \<le> 10 ^ l" using b(2) by simp
  then have "of_nat n + 1 \<le> (10::rat) ^ l"
    by (metis of_nat_Suc of_nat_le_iff of_nat_numeral of_nat_power add.commute)
  moreover have "adjusted q = int (l - 1)" "adjusted q + 1 = int l"
    using assms l by (simp_all add: adjusted_def n_def [symmetric] l_def [symmetric] of_nat_diff)
  then have "10 powi adjusted q = (10::rat) ^ (l - 1)" "10 powi (adjusted q + 1) = (10::rat) ^ l"
    by (simp_all only: power_int_of_nat)
  ultimately show ?thesis using q by linarith
qed

lemma adjusted_lt_1:
  assumes "0 < q" "q < 1"
  shows "10 powi adjusted q \<le> q \<and> q < 10 powi (adjusted q + 1)"
proof -
  define n where "n = nat (\<lceil>1 / q\<rceil> - 1)"
  define l where "l = floorlog 10 n"
  have gt: "1 < 1 / q" using assms by simp
  then have n: "1 \<le> n" unfolding n_def by linarith
  have b: "10 ^ (l - 1) \<le> n" "n < 10 ^ l"
    using floorlog_bounds [of n 10] n unfolding l_def by auto
  have l: "1 \<le> l" using n b by (cases l) auto
  have "of_nat n = (of_int (\<lceil>1 / q\<rceil> - 1) :: rat)"
    using n unfolding n_def by (simp add: of_nat_nat)
  then have q: "of_nat n < 1 / q" "1 / q \<le> of_nat n + 1" by linarith+
  have "(10::rat) ^ (l - 1) \<le> of_nat n" using b(1) by (metis of_nat_le_iff of_nat_numeral of_nat_power)
  with q(1) have lo: "10 ^ (l - 1) < 1 / q" by linarith
  have "Suc n \<le> 10 ^ l" using b(2) by simp
  then have "of_nat n + 1 \<le> (10::rat) ^ l"
    by (metis of_nat_Suc of_nat_le_iff of_nat_numeral of_nat_power add.commute)
  with q(2) have hi: "1 / q \<le> 10 ^ l" by linarith
  have "10 powi adjusted q = 1 / (10::rat) ^ l"
    using assms unfolding adjusted_def n_def [symmetric] l_def [symmetric]
    by (simp only: not_le [symmetric] if_False power_int_minus power_int_of_nat inverse_eq_divide)
  moreover have "adjusted q + 1 = - int (l - 1)"
    using assms l by (simp add: adjusted_def n_def [symmetric] l_def [symmetric] of_nat_diff)
  then have "10 powi (adjusted q + 1) = 1 / (10::rat) ^ (l - 1)"
    by (simp only: power_int_minus power_int_of_nat inverse_eq_divide)
  moreover have "1 / 10 ^ l \<le> q" "q < 1 / 10 ^ (l - 1)"
    using lo hi assms by (simp_all add: field_simps)
  ultimately show ?thesis by (simp only:)
qed

lemma adjusted_bounds:
  assumes "0 < q"
  shows "10 powi adjusted q \<le> q" "q < 10 powi (adjusted q + 1)"
  using assms adjusted_ge_1 [of q] adjusted_lt_1 [of q] by (cases "1 \<le> q"; simp)+

lemma powi_10_le_iff [simp]: "(10::rat) powi a \<le> 10 powi b \<longleftrightarrow> a \<le> b"
  by (metis linorder_not_le one_less_numeral_iff power_int_increasing power_int_strict_increasing
      semiring_norm(76) one_le_numeral)

lemma powi_10_less_iff [simp]: "(10::rat) powi a < 10 powi b \<longleftrightarrow> a < b"
  by (simp add: linorder_not_le [symmetric])

lemma adjusted_mono: "0 < x \<Longrightarrow> x \<le> y \<Longrightarrow> adjusted x \<le> adjusted y"
proof -
  assume "0 < x" "x \<le> y"
  then have "10 powi adjusted x < (10::rat) powi (adjusted y + 1)"
    using adjusted_bounds [of x] adjusted_bounds [of y] by linarith
  then show ?thesis by simp
qed

subsection \<open>Rounding to a number of digits\<close>

lemma powi_10_add: "(10::rat) powi a * 10 powi b = 10 powi (a + b)"
  by (simp add: power_int_add)

lemma scaled_bounds:
  assumes "0 < q" and e_def: "e = adjusted q - int p + 1"
  shows "10 powi (int p - 1) \<le> q / 10 powi e" "q / 10 powi e < 10 powi int p"
proof -
  have "10 powi (int p - 1) * 10 powi e = (10::rat) powi adjusted q"
    "10 powi int p * 10 powi e = (10::rat) powi (adjusted q + 1)"
    unfolding e_def powi_10_add by (simp_all add: algebra_simps)
  then show "10 powi (int p - 1) \<le> q / 10 powi e" "q / 10 powi e < 10 powi int p"
    using adjusted_bounds [OF assms(1)] by (simp_all add: pos_le_divide_eq pos_divide_less_eq)
qed

lemma dec_round_bounds:
  assumes "0 < q" "1 \<le> p"
  shows "10 powi adjusted q \<le> dec_round p q" "dec_round p q \<le> 10 powi (adjusted q + 1)"
proof -
  define e where "e = adjusted q - int p + 1"
  define x where "x = q / 10 powi e"
  have p1: "int p - 1 = int (p - 1)" using assms(2) by simp
  have b: "of_int (10 ^ (p - 1)) \<le> x" "x < of_int (10 ^ p)"
    using scaled_bounds [OF assms(1) e_def] unfolding x_def p1 by simp_all
  have r: "10 ^ (p - 1) \<le> round_half_even x" "round_half_even x \<le> 10 ^ p"
    using round_half_even_mono [OF b(1)] round_half_even_mono [OF less_imp_le [OF b(2)]]
    by (simp_all only: round_half_even_of_int)
  have "(10::rat) ^ (p - 1) \<le> of_int (round_half_even x)" "of_int (round_half_even x) \<le> (10::rat) ^ p"
    using r by (metis of_int_le_iff of_int_numeral of_int_power)+
  then have "10 ^ (p - 1) * 10 powi e \<le> of_int (round_half_even x) * (10::rat) powi e"
    "of_int (round_half_even x) * (10::rat) powi e \<le> 10 ^ p * 10 powi e"
    by (simp_all add: mult_right_mono)
  moreover have "10 powi int (p - 1) * 10 powi e = (10::rat) powi adjusted q"
    "10 powi int p * 10 powi e = (10::rat) powi (adjusted q + 1)"
    unfolding e_def powi_10_add p1 [symmetric] by (simp_all add: algebra_simps)
  then have "10 ^ (p - 1) * 10 powi e = (10::rat) powi adjusted q"
    "10 ^ p * 10 powi e = (10::rat) powi (adjusted q + 1)"
    by (simp_all only: power_int_of_nat)
  moreover have "dec_round p q = of_int (round_half_even x) * 10 powi e"
    using assms(1) by (simp add: dec_round_def Let_def x_def e_def)
  ultimately show "10 powi adjusted q \<le> dec_round p q" "dec_round p q \<le> 10 powi (adjusted q + 1)"
    by (simp_all only:)
qed

lemma dec_round_0 [simp]: "dec_round p 0 = 0"
  by (simp add: dec_round_def)

lemma dec_round_minus: "dec_round p (- q) = - dec_round p q"
  by (simp add: dec_round_def Let_def round_half_even_minus)

lemma dec_round_pos: "0 < q \<Longrightarrow> 1 \<le> p \<Longrightarrow> 0 < dec_round p q"
  using dec_round_bounds(1) [of q p] by (meson less_le_trans zero_less_power_int zero_less_numeral)

lemma dec_round_mono_pos:
  assumes "0 < x" "x \<le> y" "1 \<le> p"
  shows "dec_round p x \<le> dec_round p y"
proof (cases "adjusted x = adjusted y")
  case True
  then have "round_half_even (x / 10 powi (adjusted x - int p + 1))
      \<le> round_half_even (y / 10 powi (adjusted y - int p + 1))"
    using assms by (intro round_half_even_mono) (simp add: divide_right_mono)
  with True assms show ?thesis by (simp add: dec_round_def Let_def)
next
  case False
  with adjusted_mono [of x y] assms have "adjusted x + 1 \<le> adjusted y" by simp
  then have "(10::rat) powi (adjusted x + 1) \<le> 10 powi adjusted y" by simp
  then show ?thesis
    using dec_round_bounds [of x p] dec_round_bounds [of y p] assms by linarith
qed

lemma dec_round_mono: "1 \<le> p \<Longrightarrow> x \<le> y \<Longrightarrow> dec_round p x \<le> dec_round p y"
proof -
  assume p: "1 \<le> p" and le: "x \<le> y"
  consider "0 < x" | "y < 0" | "x \<le> 0" "0 \<le> y" using le by linarith
  then show ?thesis
  proof cases
    case 1
    then show ?thesis using le p by (rule dec_round_mono_pos)
  next
    case 2
    then have "dec_round p (- y) \<le> dec_round p (- x)" using le p by (intro dec_round_mono_pos) auto
    then show ?thesis by (simp add: dec_round_minus)
  next
    case 3
    have "dec_round p x \<le> 0" using 3 p dec_round_pos [of "- x" p] by (cases "x = 0") (auto simp: dec_round_minus)
    moreover have "0 \<le> dec_round p y" using 3 p dec_round_pos [of y p] by (cases "y = 0") auto
    ultimately show ?thesis by linarith
  qed
qed

lemma representable_minusI: "representable p q \<Longrightarrow> representable p (- q)"
proof -
  assume "representable p q"
  then obtain m e where "q = of_int m * 10 powi e" "\<bar>m\<bar> \<le> 10 ^ p"
    unfolding representable_def by blast
  then have "- q = of_int (- m) * 10 powi e \<and> \<bar>- m\<bar> \<le> 10 ^ p" by simp
  then show ?thesis unfolding representable_def by blast
qed

lemma representable_minus [simp]: "representable p (- q) \<longleftrightarrow> representable p q"
  using representable_minusI [of p q] representable_minusI [of p "- q"] by auto

lemma representable_of_int: "\<bar>n\<bar> \<le> 10 ^ p \<Longrightarrow> representable p (of_int n)"
  unfolding representable_def by (intro exI [of _ n] exI [of _ 0]) simp

lemma dec_round_representable:
  assumes "1 \<le> p"
  shows "representable p (dec_round p q)"
proof -
  have pos: "representable p (dec_round p q)" if q: "0 < q" for q
  proof -
    define e where "e = adjusted q - int p + 1"
    define x where "x = q / 10 powi e"
    have "x < of_int (10 ^ p)" "0 \<le> x"
      using scaled_bounds [OF q e_def] q unfolding x_def by simp_all
    then have "round_half_even x \<le> round_half_even (of_int (10 ^ p))"
      "round_half_even (of_int 0) \<le> round_half_even x"
      by (intro round_half_even_mono; simp)+
    then have "\<bar>round_half_even x\<bar> \<le> 10 ^ p" unfolding round_half_even_of_int by simp
    moreover have "dec_round p q = of_int (round_half_even x) * 10 powi e"
      using q by (simp add: dec_round_def Let_def x_def e_def)
    ultimately show ?thesis unfolding representable_def by blast
  qed
  consider "0 < q" | "q = 0" | "0 < - q" by linarith
  then show ?thesis
  proof cases
    case 2
    then show ?thesis using representable_of_int [of 0 p] by simp
  next
    case 3
    then have "representable p (- dec_round p q)" using pos [of "- q"] by (simp add: dec_round_minus)
    then show ?thesis by simp
  qed (rule pos)
qed

lemma dec_round_exact_pos:
  assumes "representable p q" "1 \<le> p" "0 < q"
  shows "dec_round p q = q"
proof -
  obtain m k where q: "q = of_int m * 10 powi k" and m: "\<bar>m\<bar> \<le> 10 ^ p"
    using assms(1) unfolding representable_def by blast
  define e where "e = adjusted q - int p + 1"
  have lo: "10 powi adjusted q \<le> q" by (rule adjusted_bounds(1) [OF assms(3)])
  have mp: "of_int m \<le> (10::rat) powi int p"
    using m by (metis abs_le_D1 of_int_le_iff of_int_numeral of_int_power power_int_of_nat)
  then have hi: "q \<le> 10 powi (int p + k)"
    unfolding q powi_10_add [symmetric] by (simp add: mult_right_mono)
  have "\<exists>n. q / 10 powi e = of_int n"
  proof (cases "e \<le> k")
    case True
    then have "(10::rat) powi k / 10 powi e = 10 powi int (nat (k - e))"
      by (simp add: power_int_diff)
    then have "q / 10 powi e = of_int (m * 10 ^ nat (k - e))"
      unfolding q times_divide_eq_right [symmetric] power_int_of_nat by simp
    then show ?thesis by blast
  next
    case False
    have "10 powi adjusted q \<le> (10::rat) powi (int p + k)" using lo hi by linarith
    then have "adjusted q = int p + k" using False by (simp add: e_def)
    then have "q = 10 powi (int p + k)" "e = k + 1" using lo hi by (simp_all add: e_def)
    then have "q / 10 powi e = 10 powi (int p - 1)"
      by (simp add: power_int_diff [symmetric] algebra_simps)
    also have "\<dots> = of_int (10 ^ (p - 1))"
      using assms(2) by (simp add: power_int_def nat_diff_distrib)
    finally show ?thesis by blast
  qed
  then obtain n where n: "q / 10 powi e = of_int n" by blast
  have "dec_round p q = of_int (round_half_even (q / 10 powi e)) * 10 powi e"
    using assms(3) by (simp add: dec_round_def Let_def e_def)
  also have "\<dots> = q / 10 powi e * 10 powi e" unfolding n by simp
  also have "\<dots> = q" by simp
  finally show ?thesis .
qed

lemma dec_round_exact: "representable p q \<Longrightarrow> 1 \<le> p \<Longrightarrow> dec_round p q = q"
proof -
  assume rep: "representable p q" and p: "1 \<le> p"
  consider "0 < q" | "q = 0" | "0 < - q" by linarith
  then show ?thesis
  proof cases
    case 3
    then have "dec_round p (- q) = - q" using rep p by (intro dec_round_exact_pos) simp_all
    then show ?thesis by (simp add: dec_round_minus)
  qed (use rep p in \<open>simp_all add: dec_round_exact_pos\<close>)
qed

text \<open>The rounding error is at most half a unit in the last of \<open>p\<close> places.\<close>

lemma dec_round_error:
  assumes "0 < q"
  shows "\<bar>dec_round p q - q\<bar> \<le> 10 powi (adjusted q - int p + 1) / 2"
proof -
  define e where "e = adjusted q - int p + 1"
  define x where "x = q / 10 powi e"
  have "dec_round p q - q = (of_int (round_half_even x) - x) * 10 powi e"
    using assms by (simp add: dec_round_def Let_def x_def e_def algebra_simps)
  moreover have "\<bar>of_int (round_half_even x) - x\<bar> \<le> 1 / 2"
    using round_half_even_bounds [of x] by (intro abs_leI) linarith+
  then have "\<bar>of_int (round_half_even x) - x\<bar> * 10 powi e \<le> 1 / 2 * 10 powi e"
    by (rule mult_right_mono) simp
  ultimately have "\<bar>dec_round p q - q\<bar> \<le> 1 / 2 * 10 powi e"
    by (simp add: abs_mult)
  then show ?thesis by (simp add: e_def)
qed

subsection \<open>The interface of a decimal context\<close>

locale decimal_context =
  fixes rnd :: "rat \<Rightarrow> rat"
  assumes rnd_mono: "x \<le> y \<Longrightarrow> rnd x \<le> rnd y"
    and rnd_zero: "rnd 0 = 0"
    and rnd_idem: "rnd (rnd x) = rnd x"
begin

lemma rnd_nonneg: "0 \<le> x \<Longrightarrow> 0 \<le> rnd x"
  using rnd_mono [of 0 x] by (simp add: rnd_zero)

text \<open>Adding a nonnegative charge to a representable score never lowers it.\<close>

lemma accumulate_ge: "rnd s = s \<Longrightarrow> 0 \<le> c \<Longrightarrow> s \<le> rnd (s + c)"
  using rnd_mono [of s "s + c"] by simp

text \<open>A charge that exactly fits below a representable bound stays below it after rounding.\<close>

lemma accumulate_le: "rnd b = b \<Longrightarrow> s + c \<le> b \<Longrightarrow> rnd (s + c) \<le> b"
  using rnd_mono [of "s + c" b] by simp

lemma rnd_mult_mono: "0 \<le> c \<Longrightarrow> x \<le> y \<Longrightarrow> rnd (x * c) \<le> rnd (y * c)"
  by (intro rnd_mono mult_right_mono)

lemma rnd_div_mono: "0 \<le> c \<Longrightarrow> x \<le> y \<Longrightarrow> rnd (x / c) \<le> rnd (y / c)"
  by (intro rnd_mono divide_right_mono)

lemma rnd_div_antimono: "0 < c \<Longrightarrow> c \<le> d \<Longrightarrow> 0 \<le> x \<Longrightarrow> rnd (x / d) \<le> rnd (x / c)"
  by (intro rnd_mono) (simp add: frac_le)

end

interpretation dec50: decimal_context rnd50
proof
  show "rnd50 x \<le> rnd50 y" if "x \<le> y" for x y
    unfolding rnd50_def decimal_precision_def by (rule dec_round_mono [OF _ that]) simp
  show "rnd50 0 = 0" by (simp add: rnd50_def)
  show "rnd50 (rnd50 x) = rnd50 x" for x
    unfolding rnd50_def decimal_precision_def
    by (rule dec_round_exact [OF dec_round_representable]) simp_all
qed

lemma rnd50_of_int:
  assumes "\<bar>n\<bar> \<le> 10 ^ 50"
  shows "rnd50 (of_int n) = of_int n"
  unfolding rnd50_def decimal_precision_def
  by (rule dec_round_exact [OF representable_of_int [OF assms]]) simp

lemmas dec_ops = dec_add_def dec_sub_def dec_mul_def dec_div_def

lemma dec_ops_nonneg:
  "0 \<le> a \<Longrightarrow> 0 \<le> b \<Longrightarrow> 0 \<le> dec_add a b"
  "0 \<le> a \<Longrightarrow> 0 \<le> b \<Longrightarrow> 0 \<le> dec_mul a b"
  "0 \<le> a \<Longrightarrow> 0 \<le> b \<Longrightarrow> 0 \<le> dec_div a b"
  by (simp_all add: dec_ops dec50.rnd_nonneg)

lemma dec_ops_representable:
  "rnd50 (dec_add a b) = dec_add a b" "rnd50 (dec_mul a b) = dec_mul a b"
  "rnd50 (dec_div a b) = dec_div a b" "rnd50 (dec_sub a b) = dec_sub a b"
  by (simp_all add: dec_ops dec50.rnd_idem)

end
