(* ===== verification/Store.thy ===== *)
theory Store
  imports Nexa_Prelude Decimal50
begin

section \<open>The relational store\<close>

text \<open>
  The tables of \<^verbatim>\<open>src/src/nexa/infrastructure/persistence/schema_v1.py\<close> (with the columns later
  generations append) that the lifecycle of a job reads and writes, as lists of rows, and the SQL
  statements the code issues on them: a select is a filter, an update with a condition a map, an insert
  an append.  UUIDs are their canonical strings, timestamps are microseconds.  Surrogate keys that no
  code path reads (of events and audit records) are left out.  A transaction returns an error, which
  rolls everything back, or a result and the new store.
\<close>

type_synonym uuid = string
type_synonym timestamp = int

datatype tx_error =
    ApplicationError string int string
  | RuntimeError string
  | IntegrityError string
  | ValueError string
  | TypeError string
  | NoResultFound
  | MultipleResultsFound
  | DecimalInvalidOperation

type_synonym 'a tx = "(tx_error, 'a) result"

abbreviation state_conflict :: "string \<Rightarrow> tx_error" where
  "state_conflict m \<equiv> ApplicationError ''state_conflict'' 409 m"

abbreviation stale_authority :: "string \<Rightarrow> tx_error" where
  "stale_authority m \<equiv> ApplicationError ''stale_authority'' 409 m"

abbreviation dependency_unavailable :: "string \<Rightarrow> tx_error" where
  "dependency_unavailable m \<equiv> ApplicationError ''dependency_unavailable'' 503 m"

text \<open>What a transaction reads from outside the store: the time the transaction started, the successive
  readings of the database clock,
  the successive fresh UUIDs (with those of ledger segments given by their allocation), the parsing
  and hashing of credentials, the random jitter and the configured retention.\<close>

record env =
  started :: timestamp
  clk :: "nat \<Rightarrow> timestamp"
  ids :: "nat \<Rightarrow> uuid"
  segment_ids :: "uuid \<Rightarrow> uuid"
  secrets :: "string \<Rightarrow> (uuid \<times> string) option"
  jitter_ms :: int
  terminal_retention_days :: int

subsection \<open>Statements\<close>

definition update_where :: "('r \<Rightarrow> bool) \<Rightarrow> ('r \<Rightarrow> 'r) \<Rightarrow> 'r list \<Rightarrow> 'r list" where
  "update_where p f t = map (\<lambda>r. if p r then f r else r) t"

definition one :: "'r list \<Rightarrow> 'r tx" where
  "one rs = (case rs of [] \<Rightarrow> Inl NoResultFound | [r] \<Rightarrow> Inr r | _ \<Rightarrow> Inl MultipleResultsFound)"

definition one_or_none :: "'r list \<Rightarrow> 'r option tx" where
  "one_or_none rs = (case rs of [] \<Rightarrow> Inr None | [r] \<Rightarrow> Inr (Some r) | _ \<Rightarrow> Inl MultipleResultsFound)"

definition first :: "'r list \<Rightarrow> 'r option" where
  "first rs = (case rs of [] \<Rightarrow> None | r # _ \<Rightarrow> Some r)"

subsection \<open>Rows\<close>

datatype job_state = J_QUEUED | J_DISPATCHING | J_RUNNING | J_PAUSING | J_PAUSED | J_RECOVERING
  | J_RETRY_WAIT | J_CANCELLING | J_SUCCEEDED | J_FAILED | J_CANCELLED

datatype desired_state = D_RUNNING | D_PAUSED | D_CANCELLED

datatype intent = RUN | CHECKPOINT_FOR_PAUSE

record job_row =
  j_job_id :: uuid
  j_tenant_id :: uuid
  j_submitter_user_id :: uuid
  j_state :: job_state
  j_desired_state :: desired_state
  j_waiting_reason :: "string option"
  j_recovery_intent :: "intent option"
  j_version :: int
  j_job_fence :: int
  j_event_sequence :: int
  j_checkpoint_sequence :: int
  j_retry_count :: int
  j_max_retries :: int
  j_retry_of_job_id :: "uuid option"
  j_base_priority :: int
  j_ready_sequence :: int
  j_eligible_since :: "timestamp option"
  j_retry_ready_at :: "timestamp option"
  j_terminal_at :: "timestamp option"
  j_created_at :: timestamp
  j_updated_at :: timestamp

datatype attempt_state = A_CREATED | A_CLAIMED | A_STARTING | A_RUNNING | A_CHECKPOINTING | A_STOPPING
  | A_SUCCEEDED | A_FAILED | A_LOST | A_CANCELLED

datatype failure_class = INFRASTRUCTURE | TIMEOUT | OOM | INVALID_INPUT | INCOMPATIBLE | INTERNAL
  | USER_CANCEL

text \<open>The authority a worker presents with every callback (\<^verbatim>\<open>api/schemas.py\<close>, \<^verbatim>\<open>Authority\<close>).\<close>

record authority =
  au_worker_id :: uuid
  au_worker_incarnation_id :: uuid
  au_attempt_id :: uuid
  au_allocation_id :: uuid
  au_lease_id :: uuid
  au_job_fence :: int

text \<open>The execution context frozen at the claim; views of rows are given by their identities, the
  template snapshot by the two flags that decide about a restore.\<close>

record execution_context =
  x_job_id :: uuid
  x_logical_session_id :: uuid
  x_authority :: authority
  x_execution_intent :: intent
  x_spec :: string
  x_template :: "string \<times> int"
  x_adapter :: "string \<times> string"
  x_image_digest :: string
  x_checkpointable :: bool
  x_restart_safe :: bool
  x_allocation_id :: uuid
  x_input_artifacts :: "uuid list"
  x_restore_checkpoint :: "uuid option"
  x_startup_nonce :: uuid

record attempt_row =
  a_attempt_id :: uuid
  a_tenant_id :: uuid
  a_job_id :: uuid
  a_attempt_number :: int
  a_state :: attempt_state
  a_execution_intent :: intent
  a_worker_id :: uuid
  a_worker_incarnation_id :: uuid
  a_job_fence :: int
  a_startup_nonce :: uuid
  a_failure_class :: "failure_class option"
  a_failure_reason :: "string option"
  a_progress_sequence :: int
  a_progress_snapshot :: "string option"
  a_started_at :: "timestamp option"
  a_ended_at :: "timestamp option"
  a_created_at :: timestamp
  a_updated_at :: timestamp
  a_dispatch_coordinator_epoch :: int
  a_execution_context :: "execution_context option"
  a_claimed_at :: "timestamp option"
  a_executor_operation_sequence :: "int option"

datatype allocation_state = S_HELD | S_QUARANTINED | S_RELEASED

record allocation_row =
  al_allocation_id :: uuid
  al_tenant_id :: uuid
  al_job_id :: uuid
  al_attempt_id :: uuid
  al_worker_id :: uuid
  al_cpu_millis :: int
  al_memory_bytes :: int
  al_gpu_count :: int
  al_state :: allocation_state
  al_held_at :: timestamp
  al_quarantined_at :: "timestamp option"
  al_released_at :: "timestamp option"
  al_release_reason :: "string option"

record gpu_claim_row =
  gc_allocation_id :: uuid
  gc_worker_id :: uuid
  gc_inventory_version :: int
  gc_gpu_uuid :: string
  gc_claimed_at :: timestamp
  gc_released_at :: "timestamp option"

record lease_row =
  l_lease_id :: uuid
  l_tenant_id :: uuid
  l_job_id :: uuid
  l_attempt_id :: uuid
  l_allocation_id :: uuid
  l_worker_id :: uuid
  l_current_worker_incarnation_id :: uuid
  l_job_fence :: int
  l_issued_at :: timestamp
  l_expires_at :: timestamp
  l_revoked_at :: "timestamp option"
  l_revoke_reason :: "string option"

record grant_row =
  g_grant_id :: uuid
  g_tenant_id :: uuid
  g_job_id :: uuid
  g_attempt_id :: uuid
  g_allocation_id :: uuid
  g_lease_id :: uuid
  g_worker_id :: uuid
  g_worker_incarnation_id :: uuid
  g_job_fence :: int
  g_predecessor_grant_id :: "uuid option"
  g_callback_id :: uuid
  g_granted_at :: timestamp
  g_ended_at :: "timestamp option"

record container_row =
  c_tenant_id :: uuid
  c_job_id :: uuid
  c_attempt_id :: uuid
  c_allocation_id :: uuid
  c_startup_nonce :: uuid
  c_executor_create_sequence :: int
  c_container_id :: string
  c_runtime_identity_digest :: string
  c_created_at :: timestamp
  c_stopped_at :: "timestamp option"
  c_verified_at :: "timestamp option"

record retry_row =
  rs_job_id :: uuid
  rs_tenant_id :: uuid
  rs_retry_number :: int
  rs_ready_at :: timestamp
  rs_jitter_milliseconds :: int
  rs_reason :: string
  rs_closed_at :: "timestamp option"
  rs_created_at :: timestamp

datatype scope = GLOBAL | TENANT uuid | USER uuid uuid

record counter_row =
  k_scope :: scope
  k_outstanding :: int
  k_active_attempts :: int
  k_version :: int
  k_updated_at :: timestamp

text \<open>The token buckets of the submission rate limits.\<close>

record rate_row =
  rb_scope :: scope
  rb_tokens :: rat
  rb_capacity :: rat
  rb_refill_rate :: rat
  rb_last_refill_at :: timestamp
  rb_version :: int
  rb_updated_at :: timestamp

record reservation_row =
  r_reservation_id :: uuid
  r_tenant_id :: uuid
  r_job_id :: uuid
  r_eligibility_since :: timestamp
  r_policy_version :: int
  r_created_at :: timestamp
  r_invalidated_at :: "timestamp option"
  r_invalidation_reason :: "string option"

datatype result_reservation_state = RR_ACTIVE | RR_COMMITTED | RR_ABANDONED

record result_reservation_row =
  rr_result_id :: uuid
  rr_tenant_id :: uuid
  rr_job_id :: uuid
  rr_attempt_id :: uuid
  rr_authority_grant_id :: uuid
  rr_callback_id :: uuid
  rr_state :: result_reservation_state
  rr_reserved_at :: timestamp
  rr_superseded_at :: "timestamp option"

datatype checkpoint_reservation_state = CR_RESERVED | CR_COMMITTED | CR_REJECTED | CR_ABANDONED

record checkpoint_reservation_row =
  cr_checkpoint_id :: uuid
  cr_tenant_id :: uuid
  cr_job_id :: uuid
  cr_attempt_id :: uuid
  cr_authority_grant_id :: uuid
  cr_sequence :: int
  cr_callback_id :: uuid
  cr_state :: checkpoint_reservation_state
  cr_reserved_at :: timestamp
  cr_ended_at :: "timestamp option"

text \<open>Checkpoints are committed and immutable; corruption is a separate row.\<close>

record checkpoint_row =
  cp_checkpoint_id :: uuid
  cp_tenant_id :: uuid
  cp_job_id :: uuid
  cp_attempt_id :: uuid
  cp_sequence :: int
  cp_manifest_artifact_id :: uuid
  cp_manifest_checksum :: string
  cp_provenance :: string
  cp_compatibility :: string
  cp_created_at :: timestamp

record checkpoint_reference_row =
  cf_tenant_id :: uuid
  cf_source_checkpoint_id :: uuid
  cf_target_job_id :: uuid
  cf_reason :: string
  cf_created_at :: timestamp

record result_row =
  re_result_id :: uuid
  re_tenant_id :: uuid
  re_job_id :: uuid
  re_attempt_id :: uuid
  re_manifest_artifact_id :: uuid
  re_manifest_checksum :: string
  re_completion_callback_id :: uuid
  re_created_at :: timestamp

datatype actor = COORDINATOR uuid | WORKER uuid | USER_ACTOR uuid | ADMIN uuid

record event_row =
  e_tenant_id :: uuid
  e_job_id :: uuid
  e_sequence :: int
  e_event_type :: string
  e_reason :: "string option"
  e_actor :: actor
  e_created_at :: timestamp

record audit_row =
  u_actor :: actor
  u_tenant_id :: "uuid option"
  u_action :: string
  u_target_id :: uuid
  u_before_version :: "int option"
  u_after_version :: int
  u_reason :: "string option"
  u_created_at :: timestamp

text \<open>The acknowledgments the callbacks store and replay; the constant intervals of the wire bodies are
  left out.  The pending acknowledgment is \<open>None\<close>.\<close>

datatype acknowledgment =
    Ack_job uuid timestamp job_state int
  | Ack_cleanup uuid bool allocation_state timestamp
  | Ack_claim uuid timestamp job_state int execution_context
  | Ack_start uuid timestamp job_state int timestamp
  | Ack_renew timestamp timestamp desired_state
  | Ack_adopt uuid timestamp authority "uuid option" "uuid option" timestamp
  | Ack_reserve_result uuid uuid uuid uuid timestamp
  | Ack_reserve_checkpoint uuid uuid uuid uuid int timestamp
  | Ack_checkpoint uuid uuid uuid int uuid string timestamp
  | Ack_error string string

record receipt_row =
  rc_receipt_id :: uuid
  rc_worker_id :: uuid
  rc_operation_id :: string
  rc_callback_id :: uuid
  rc_payload_hash :: string
  rc_acknowledgment :: "acknowledgment option"

text \<open>The representation of a job the API returns (\<^verbatim>\<open>application/job_service.py\<close>, \<^verbatim>\<open>_job_view\<close>).\<close>

record job_view =
  v_job_id :: uuid
  v_tenant_id :: uuid
  v_user_id :: uuid
  v_session_id :: uuid
  v_state :: job_state
  v_desired_state :: desired_state
  v_waiting_reason :: "string option"
  v_spec :: string
  v_spec_checksum :: string
  v_job_fence :: int
  v_retry_count :: int
  v_max_retries :: int
  v_retry_of_job_id :: "uuid option"
  v_version :: int
  v_event_sequence :: int
  v_created_at :: timestamp
  v_updated_at :: timestamp

datatype operational_mode = NORMAL | ADMISSION_OFF | WRITE_FROZEN

record policy_row =
  pv_policy_version :: int
  pv_operational_mode :: operational_mode
  pv_global_outstanding_limit :: int

record tenant_policy_row =
  tp_tenant_id :: uuid
  tp_weight :: rat
  tp_cpu_limit_millis :: int
  tp_memory_limit_bytes :: int
  tp_gpu_limit :: int
  tp_outstanding_limit :: int
  tp_user_outstanding_limit :: int
  tp_tenant_rate_per_second :: rat
  tp_tenant_rate_burst :: rat
  tp_user_rate_per_second :: rat
  tp_user_rate_burst :: rat
  tp_tenant_active_limit :: int
  tp_user_active_limit :: int

datatype admin_state = ENABLED | DRAINING | DISABLED

datatype health = STARTING | READY | SUSPECT | UNAVAILABLE

record worker_row =
  w_worker_id :: uuid
  w_admin_state :: admin_state
  w_health :: health
  w_current_incarnation_id :: "uuid option"
  w_current_inventory_version :: "int option"
  w_last_heartbeat_at :: "timestamp option"
  w_ready_at :: "timestamp option"
  w_version :: int

record credential_row =
  wc_credential_id :: uuid
  wc_worker_id :: uuid
  wc_credential_hash :: string
  wc_scopes :: "string list"
  wc_expires_at :: timestamp
  wc_revoked_at :: "timestamp option"

record incarnation_row =
  wi_worker_incarnation_id :: uuid
  wi_worker_id :: uuid
  wi_sequence :: int
  wi_reconcile_completed_at :: "timestamp option"
  wi_ended_at :: "timestamp option"

record inventory_row =
  iv_worker_id :: uuid
  iv_worker_incarnation_id :: uuid
  iv_inventory_version :: int
  iv_architecture :: string
  iv_allocatable_cpu_millis :: int
  iv_allocatable_memory_bytes :: int
  iv_allocatable_gpu_count :: int
  iv_workload_capabilities :: "string list"

text \<open>What a response carries: the view of a job, or a worker with its current inventory.\<close>

datatype response_body = Job_body job_view | Worker_body worker_row "inventory_row option"

record stored_response =
  sr_status :: int
  sr_body :: "response_body option"
  sr_headers :: "(string \<times> string) list"

text \<open>A record is \<^verbatim>\<open>PENDING\<close> while it has no response and \<^verbatim>\<open>COMPLETED\<close> afterwards.\<close>

record idempotency_row =
  ik_idempotency_id :: uuid
  ik_context :: string
  ik_principal_id :: string
  ik_operation_id :: string
  ik_key :: string
  ik_request_hash :: string
  ik_response :: "stored_response option"
  ik_resource_id :: "uuid option"
  ik_one_time_secret :: bool
  ik_expires_at :: timestamp

record spec_row =
  sp_job_id :: uuid
  sp_tenant_id :: uuid
  sp_canonical_spec :: string
  sp_spec_checksum :: string
  sp_template_id :: string
  sp_template_version :: int
  sp_input_artifact_id :: "uuid option"
  sp_model_artifact_id :: "uuid option"
  sp_cpu_millis :: int
  sp_memory_bytes :: int
  sp_gpu_count :: int
  sp_runtime_limit_seconds :: int
  sp_checkpoint_interval_seconds :: "int option"

record session_row =
  ls_session_id :: uuid
  ls_tenant_id :: uuid
  ls_job_id :: uuid

record registered_template_row =
  tm_template_id :: string
  tm_current_version :: int
  tm_display_name :: string
  tm_enabled :: bool

record template_row =
  t_template_id :: string
  t_version :: int
  t_capability_requirements :: string
  t_adapter_id :: string
  t_adapter_version :: string
  t_checkpointable :: bool
  t_restart_safe :: bool
  t_image_digest :: string

datatype artifact_state = AR_STAGING | AR_COMMITTED | AR_DELETING | AR_DELETED

record artifact_row =
  ar_artifact_id :: uuid
  ar_tenant_id :: uuid
  ar_kind :: string
  ar_media_type :: string
  ar_size_bytes :: int
  ar_checksum :: string
  ar_state :: artifact_state

datatype upload_state = UP_ACTIVE | UP_COMMITTED | UP_EXPIRED | UP_ABORTED

record upload_row =
  up_upload_id :: uuid
  up_tenant_id :: uuid
  up_job_id :: "uuid option"
  up_attempt_id :: "uuid option"
  up_authority_grant_id :: "uuid option"
  up_expected_size_bytes :: int
  up_expected_checksum :: string
  up_state :: upload_state

datatype owner = JOB_SPEC uuid | CHECKPOINT uuid | RESULT uuid | RECOGNIZED_CHUNK uuid
  | LOG_SEGMENT uuid | UPLOAD_SESSION uuid

record artifact_reference_row =
  af_tenant_id :: uuid
  af_artifact_id :: uuid
  af_owner :: owner
  af_purpose :: string
  af_logical_name :: string

record ledger_row =
  fl_tenant_id :: uuid
  fl_virtual_score :: rat
  fl_accounted_through :: timestamp
  fl_had_eligible_demand :: bool
  fl_version :: int

record segment_row =
  sg_segment_id :: uuid
  sg_allocation_id :: uuid
  sg_tenant_id :: uuid
  sg_started_at :: timestamp
  sg_ended_at :: "timestamp option"
  sg_dominant_share :: rat
  sg_weight :: rat
  sg_charged_amount :: rat
  sg_policy_version :: int

text \<open>The store.  \<open>policy\<close> is the current row of \<^verbatim>\<open>policy_versions\<close> and
  \<open>tenant_policies\<close> the current rows of that table; \<open>fairness_state\<close> is the virtual floor of the
  singleton row, if there is one.\<close>

record db =
  jobs :: "job_row list"
  logical_sessions :: "session_row list"
  job_specs :: "spec_row list"
  templates :: "registered_template_row list"
  template_versions :: "template_row list"
  attempts :: "attempt_row list"
  retry_schedules :: "retry_row list"
  allocations :: "allocation_row list"
  allocation_gpu_claims :: "gpu_claim_row list"
  attempt_leases :: "lease_row list"
  attempt_authority_grants :: "grant_row list"
  container_identities :: "container_row list"
  admission_counters :: "counter_row list"
  rate_buckets :: "rate_row list"
  reservations :: "reservation_row list"
  result_reservations :: "result_reservation_row list"
  checkpoint_reservations :: "checkpoint_reservation_row list"
  checkpoints :: "checkpoint_row list"
  checkpoint_corruptions :: "uuid list"
  checkpoint_references :: "checkpoint_reference_row list"
  results :: "result_row list"
  artifacts :: "artifact_row list"
  upload_sessions :: "upload_row list"
  artifact_references :: "artifact_reference_row list"
  events :: "event_row list"
  audit_records :: "audit_row list"
  callback_receipts :: "receipt_row list"
  idempotency_records :: "idempotency_row list"
  policy :: policy_row
  tenant_policies :: "tenant_policy_row list"
  workers :: "worker_row list"
  worker_credentials :: "credential_row list"
  worker_incarnations :: "incarnation_row list"
  worker_inventories :: "inventory_row list"
  fairness_state :: "rat option"
  fairness_ledgers :: "ledger_row list"
  allocation_ledger_segments :: "segment_row list"

definition empty_db :: db where
  "empty_db = \<lparr>jobs = [], logical_sessions = [], job_specs = [], templates = [], template_versions = [],
     attempts = [], retry_schedules = [], allocations = [], allocation_gpu_claims = [], attempt_leases = [],
     attempt_authority_grants = [], container_identities = [], admission_counters = [], rate_buckets = [],
     reservations = [], result_reservations = [], checkpoint_reservations = [], checkpoints = [],
     checkpoint_corruptions = [], checkpoint_references = [], results = [], artifacts = [],
     upload_sessions = [], artifact_references = [], events = [], audit_records = [],
     callback_receipts = [], idempotency_records = [],
     policy = \<lparr>pv_policy_version = 1, pv_operational_mode = NORMAL, pv_global_outstanding_limit = 10000\<rparr>,
     tenant_policies = [], workers = [], worker_credentials = [], worker_incarnations = [],
     worker_inventories = [], fairness_state = None, fairness_ledgers = [],
     allocation_ledger_segments = []\<rparr>"

definition terminal_states :: "job_state set" where
  "terminal_states = {J_SUCCEEDED, J_FAILED, J_CANCELLED}"

subsection \<open>Lemmas on statements\<close>

lemma one_Inr [res_simps]: "one rs = Inr r \<longleftrightarrow> rs = [r]"
  by (auto simp: one_def split: list.splits)

lemma one_or_none_Inr [res_simps]:
  "one_or_none rs = Inr (Some r) \<longleftrightarrow> rs = [r]" "one_or_none rs = Inr None \<longleftrightarrow> rs = []"
  by (auto simp: one_or_none_def split: list.splits)

lemma first_Some: "first rs = Some r \<Longrightarrow> r \<in> set rs"
  by (auto simp: first_def split: list.splits)

lemma first_None [simp]: "first rs = None \<longleftrightarrow> rs = []"
  by (simp add: first_def split: list.splits)

lemma update_where_Nil [simp]: "update_where p f [] = []"
  by (simp add: update_where_def)

lemma update_where_Cons [simp]:
  "update_where p f (r # t) = (if p r then f r else r) # update_where p f t"
  by (simp add: update_where_def)

lemma length_update_where [simp]: "length (update_where p f t) = length t"
  by (simp add: update_where_def)

lemma set_update_where: "set (update_where p f t) = (\<lambda>r. if p r then f r else r) ` set t"
  by (simp add: update_where_def)

text \<open>An update that leaves a column alone leaves the list of its values alone.\<close>

lemma map_update_where: "(\<And>r. p r \<Longrightarrow> k (f r) = k r) \<Longrightarrow> map k (update_where p f t) = map k t"
  by (simp add: update_where_def)

lemma update_where_none: "(\<And>r. r \<in> set t \<Longrightarrow> \<not> p r) \<Longrightarrow> update_where p f t = t"
  by (simp add: update_where_def map_idI)

lemma filter_singleton: "filter p t = [r] \<Longrightarrow> r \<in> set t \<and> p r"
  by (metis (no_types, lifting) list.set_intros(1) mem_Collect_eq set_filter)

lemma filter_key_singleton:
  "distinct (map k t) \<Longrightarrow> r \<in> set t \<Longrightarrow> filter (\<lambda>x. k x = k r) t = [r]"
proof (induction t)
  case (Cons a t)
  show ?case
  proof (cases "a = r")
    case True
    then have "filter (\<lambda>x. k x = k r) t = []"
      using Cons.prems(1) by (auto simp: filter_empty_conv) (metis image_eqI)
    with True show ?thesis by simp
  next
    case False
    then have "r \<in> set t" using Cons.prems(2) by simp
    moreover have "k a \<noteq> k r" using Cons.prems(1) calculation by auto
    ultimately show ?thesis using Cons by simp
  qed
qed simp

text \<open>Counting rows: an update that keeps the condition keeps the count, an update of one row by
  key changes it by one at most.\<close>

lemma count_update_same:
  "(\<And>r. r \<in> set t \<Longrightarrow> p r \<Longrightarrow> q (f r) \<longleftrightarrow> q r) \<Longrightarrow>
   length (filter q (update_where p f t)) = length (filter q t)"
  by (induction t) auto

lemma count_update_key:
  assumes "distinct (map k t)" "r \<in> set t" "q r" "\<not> q (f r)"
  shows "Suc (length (filter q (update_where (\<lambda>x. k x = k r) f t))) = length (filter q t)"
  using assms
proof (induction t)
  case (Cons a t)
  show ?case
  proof (cases "a = r")
    case True
    then have "update_where (\<lambda>x. k x = k r) f t = t"
      using Cons.prems(1) by (intro update_where_none) (auto, metis image_eqI)
    with True Cons.prems show ?thesis by simp
  next
    case False
    then have r: "r \<in> set t" using Cons.prems(2) by simp
    then have "k a \<noteq> k r" using Cons.prems(1) by auto
    with Cons r show ?thesis by simp
  qed
qed simp

end
