(* ===== verification/Ledger.thy ===== *)
theory Ledger
  imports Store
begin

section \<open>Held-resource segments and fairness ledgers\<close>

text \<open>
  \<^verbatim>\<open>src/src/nexa/coordinator/accounting.py\<close>: every unreleased allocation contributes an open
  segment with its part of the tenant's dominant share; \<^verbatim>\<open>charge_locked\<close> charges the time since the last
  boundary to the ledger and to the segments, and \<^verbatim>\<open>rebase_locked\<close> closes the segments and opens
  those of the current allocations.  Decimal operations round to fifty digits.
\<close>

definition epoch_ms :: "timestamp \<Rightarrow> int" where
  "epoch_ms value = value div 1000"

definition elapsed_seconds :: "timestamp \<Rightarrow> timestamp \<Rightarrow> rat" where
  "elapsed_seconds start end = dec_div (of_int (epoch_ms end - epoch_ms start)) 1000"

definition add_ledger :: "timestamp \<Rightarrow> ledger_row list \<Rightarrow> tenant_policy_row \<Rightarrow> ledger_row list" where
  "add_ledger now ls p =
     (if list_ex (\<lambda>l. fl_tenant_id l = tp_tenant_id p) ls then ls
      else ls @ [\<lparr>fl_tenant_id = tp_tenant_id p, fl_virtual_score = 0, fl_accounted_through = now,
                  fl_had_eligible_demand = False, fl_version = 1\<rparr>])"

definition lock_ledgers :: "db \<Rightarrow> timestamp \<Rightarrow> bool \<Rightarrow> ledger_row list \<times> db" where
  "lock_ledgers db now ensure_state =
     (let db1 = (if ensure_state \<and> fairness_state db = None then db\<lparr>fairness_state := Some 0\<rparr> else db);
          db2 = db1\<lparr>fairness_ledgers := foldl (add_ledger now) (fairness_ledgers db1) (tenant_policies db1)\<rparr>
      in (sort_key fl_tenant_id (fairness_ledgers db2), db2))"

text \<open>The amounts of a tenant's segments: each its own charge, the last one the rest.\<close>

fun split_charge :: "rat \<Rightarrow> rat \<Rightarrow> rat \<Rightarrow> segment_row list \<Rightarrow> (uuid \<times> rat) list" where
  "split_charge elapsed charge assigned [] = []"
| "split_charge elapsed charge assigned (s # ss) =
     (let amount = (if ss = [] then dec_sub charge assigned
                    else dec_div (dec_mul (sg_dominant_share s) elapsed) (sg_weight s))
      in (sg_segment_id s, amount) # split_charge elapsed charge (dec_add assigned amount) ss)"

definition tenant_charge :: "timestamp \<Rightarrow> ledger_row \<Rightarrow> segment_row list \<Rightarrow> (rat \<times> (uuid \<times> rat) list) tx" where
  "tenant_charge now l owned = (case owned of [] \<Rightarrow> Inr (0, [])
   | s0 # _ \<Rightarrow>
      if sg_started_at s0 > now \<or>
         list_ex (\<lambda>s. sg_started_at s \<noteq> sg_started_at s0 \<or> sg_weight s \<noteq> sg_weight s0) owned
      then Inl (RuntimeError ''inconsistent tenant accounting boundary'')
      else let elapsed = elapsed_seconds (max (fl_accounted_through l) (sg_started_at s0)) now;
               share = foldl dec_add 0 (map sg_dominant_share owned);
               charge = dec_div (dec_mul share elapsed) (sg_weight s0)
           in Inr (charge, split_charge elapsed charge 0 owned))"

definition charge_segments :: "(uuid \<times> rat) list \<Rightarrow> segment_row list \<Rightarrow> segment_row list" where
  "charge_segments amounts = update_where (\<lambda>s. sg_segment_id s \<in> set (dict_keys amounts))
     (\<lambda>s. s\<lparr>sg_charged_amount := dec_add (sg_charged_amount s) (dict_the amounts (sg_segment_id s))\<rparr>)"

definition charge_tenant ::
  "timestamp \<Rightarrow> segment_row list \<Rightarrow> db \<Rightarrow> ledger_row \<Rightarrow> db tx" where
  "charge_tenant now segments db l =
     res_bind (tenant_charge now l (filter (\<lambda>s. sg_tenant_id s = fl_tenant_id l) segments)) (\<lambda>(charge, amounts).
       Inr (db\<lparr>allocation_ledger_segments := charge_segments amounts (allocation_ledger_segments db),
               fairness_ledgers := update_where (\<lambda>r. fl_tenant_id r = fl_tenant_id l)
                 (\<lambda>r. r\<lparr>fl_virtual_score := dec_add (fl_virtual_score l) charge,
                        fl_accounted_through := now, fl_version := fl_version l + 1\<rparr>)
                 (fairness_ledgers db)\<rparr>))"

definition open_segments :: "db \<Rightarrow> segment_row list" where
  "open_segments db = filter (\<lambda>s. sg_ended_at s = None) (allocation_ledger_segments db)"

definition charge_locked :: "db \<Rightarrow> ledger_row list \<Rightarrow> timestamp \<Rightarrow> bool \<Rightarrow> timestamp \<Rightarrow> db tx" where
  "charge_locked db ledgers now strict clock =
     (if list_ex (\<lambda>l. now < fl_accounted_through l) ledgers \<and>
         list_ex (\<lambda>l. (if strict then now else clock) < fl_accounted_through l) ledgers
      then Inl (RuntimeError ''accounting DB time regressed'')
      else fold_result (charge_tenant now (sort_key sg_allocation_id (open_segments db))) db ledgers)"

definition account_locked :: "db \<Rightarrow> timestamp \<Rightarrow> timestamp \<Rightarrow> db tx" where
  "account_locked db now clock =
     (case lock_ledgers db now True of (ledgers, db1) \<Rightarrow> charge_locked db1 ledgers now False clock)"

definition account_now_locked :: "db \<Rightarrow> timestamp \<Rightarrow> timestamp \<Rightarrow> (timestamp \<times> db) tx" where
  "account_now_locked db before boundary =
     (case lock_ledgers db before True of (ledgers, db1) \<Rightarrow>
        res_bind (charge_locked db1 ledgers boundary True boundary) (\<lambda>db2. Inr (boundary, db2)))"

text \<open>\<open>rebase_locked\<close>.  Resource axes are given by their three columns.\<close>

definition axis_values :: "allocation_row \<Rightarrow> int list" where
  "axis_values al = [al_cpu_millis al, al_memory_bytes al, al_gpu_count al]"

definition capacities :: "inventory_row \<Rightarrow> int list" where
  "capacities iv = [iv_allocatable_cpu_millis iv, iv_allocatable_memory_bytes iv, iv_allocatable_gpu_count iv]"

definition axis_total :: "allocation_row list \<Rightarrow> nat \<Rightarrow> int" where
  "axis_total owned i = sum_list (map (\<lambda>al. axis_values al ! i) owned)"

definition axis_share :: "inventory_row \<Rightarrow> allocation_row list \<Rightarrow> nat \<Rightarrow> rat" where
  "axis_share iv owned i = (if capacities iv ! i \<noteq> 0
     then dec_div (of_int (axis_total owned i)) (of_int (capacities iv ! i)) else 0)"

text \<open>Python's \<open>max\<close> with a key returns the first of the greatest.\<close>

definition dominant_axis :: "inventory_row \<Rightarrow> allocation_row list \<Rightarrow> nat" where
  "dominant_axis iv owned = arg_min_list (\<lambda>i. - axis_share iv owned i) [0, 1, 2]"

fun split_share ::
  "inventory_row \<Rightarrow> nat \<Rightarrow> rat \<Rightarrow> rat \<Rightarrow> allocation_row list \<Rightarrow> (allocation_row \<times> rat) list" where
  "split_share iv axis aggregate assigned [] = []"
| "split_share iv axis aggregate assigned (al # als) =
     (let share = (if als = [] then dec_sub aggregate assigned
                   else dec_div (of_int (axis_values al ! axis)) (of_int (capacities iv ! axis)))
      in (al, share) # split_share iv axis aggregate (dec_add assigned share) als)"

definition tenant_segments ::
  "(uuid \<Rightarrow> uuid) \<Rightarrow> timestamp \<Rightarrow> int \<Rightarrow> inventory_row \<Rightarrow> allocation_row list \<Rightarrow> tenant_policy_row \<Rightarrow>
   segment_row list tx" where
  "tenant_segments new_id now version iv held p =
     (let owned = filter (\<lambda>al. al_tenant_id al = tp_tenant_id p) held in
      if owned = [] then Inr []
      else if list_ex (\<lambda>i. axis_total owned i \<noteq> 0 \<and> capacities iv ! i \<le> 0) [0, 1, 2]
      then Inl (RuntimeError ''held resources exceed current capacity'')
      else let axis = dominant_axis iv owned in
        if capacities iv ! axis = 0 then Inl DecimalInvalidOperation
        else let aggregate = dec_div (of_int (axis_total owned axis)) (of_int (capacities iv ! axis))
          in Inr (map (\<lambda>(al, share). \<lparr>sg_segment_id = new_id (al_allocation_id al),
                 sg_allocation_id = al_allocation_id al, sg_tenant_id = tp_tenant_id p, sg_started_at = now,
                 sg_ended_at = None, sg_dominant_share = share, sg_weight = tp_weight p,
                 sg_charged_amount = 0, sg_policy_version = version\<rparr>)
               (split_share iv axis aggregate 0 owned)))"

definition held_rows :: "db \<Rightarrow> allocation_row list" where
  "held_rows db = sort_key al_allocation_id (filter (\<lambda>al. al_state al \<noteq> S_RELEASED) (allocations db))"

definition current_inventory :: "db \<Rightarrow> inventory_row option tx" where
  "current_inventory db = one_or_none (filter (\<lambda>iv. list_ex (\<lambda>w. w_worker_id w = iv_worker_id iv \<and>
     w_current_inventory_version w = Some (iv_inventory_version iv)) (workers db)) (worker_inventories db))"

definition rebase_locked :: "db \<Rightarrow> timestamp \<Rightarrow> (uuid \<Rightarrow> uuid) \<Rightarrow> db tx" where
  "rebase_locked db now new_id =
     (let held = held_rows db in
      res_bind (current_inventory db) (\<lambda>inventory.
        if inventory = None \<and> held \<noteq> [] then Inl (RuntimeError ''held allocation has no current inventory'')
        else let closed = update_where (\<lambda>s. sg_ended_at s = None) (\<lambda>s. s\<lparr>sg_ended_at := Some now\<rparr>)
                   (allocation_ledger_segments db)
             in if held = [] then Inr (db\<lparr>allocation_ledger_segments := closed\<rparr>)
                else res_bind (fold_result (\<lambda>acc p.
                       res_bind (tenant_segments new_id now (pv_policy_version (policy db)) (the inventory) held p)
                         (\<lambda>new. Inr (acc @ new))) closed (tenant_policies db))
                       (\<lambda>segs. Inr (db\<lparr>allocation_ledger_segments := segs\<rparr>))))"

subsection \<open>Frames\<close>

text \<open>Charging touches the ledgers and the charged amounts of segments only.\<close>

definition segment_identity :: "segment_row \<Rightarrow> segment_row" where
  "segment_identity s = s\<lparr>sg_charged_amount := 0\<rparr>"

definition charge_frame :: "db \<Rightarrow> db \<Rightarrow> bool" where
  "charge_frame db db' \<longleftrightarrow> (\<exists>fs ls ss. db' = db\<lparr>fairness_state := fs, fairness_ledgers := ls,
       allocation_ledger_segments := ss\<rparr> \<and>
     map segment_identity ss = map segment_identity (allocation_ledger_segments db))"

lemma charge_frame_refl: "charge_frame db db"
  unfolding charge_frame_def
  by (rule exI [of _ "fairness_state db"], rule exI [of _ "fairness_ledgers db"],
      rule exI [of _ "allocation_ledger_segments db"]) simp

lemma charge_frame_trans: "charge_frame a b \<Longrightarrow> charge_frame b c \<Longrightarrow> charge_frame a c"
  unfolding charge_frame_def by fastforce

lemma charge_tenant_frame:
  assumes "charge_tenant now segments db l = Inr db'"
  shows "charge_frame db db' \<and> map fl_tenant_id (fairness_ledgers db') = map fl_tenant_id (fairness_ledgers db)"
proof -
  obtain charge amounts where "db' = db\<lparr>allocation_ledger_segments :=
      charge_segments amounts (allocation_ledger_segments db),
      fairness_ledgers := update_where (\<lambda>r. fl_tenant_id r = fl_tenant_id l)
        (\<lambda>r. r\<lparr>fl_virtual_score := dec_add (fl_virtual_score l) charge,
               fl_accounted_through := now, fl_version := fl_version l + 1\<rparr>) (fairness_ledgers db)\<rparr>"
    using assms by (auto simp: charge_tenant_def res_bind_Inr_iff)
  moreover have "map segment_identity (charge_segments amounts ss) = map segment_identity ss" for ss
    unfolding charge_segments_def by (rule map_update_where) (simp add: segment_identity_def)
  ultimately show ?thesis
    unfolding charge_frame_def
    by (intro conjI exI [of _ "fairness_state db"] exI [of _ "fairness_ledgers db'"]
        exI [of _ "allocation_ledger_segments db'"]) (simp_all add: map_update_where)
qed

lemma fold_charge_frame:
  assumes "fold_result (charge_tenant now segments) db ls = Inr db'"
  shows "charge_frame db db' \<and> map fl_tenant_id (fairness_ledgers db') = map fl_tenant_id (fairness_ledgers db)"
  by (rule fold_result_invariant [OF assms, where P = "\<lambda>d. charge_frame db d \<and>
        map fl_tenant_id (fairness_ledgers d) = map fl_tenant_id (fairness_ledgers db)"])
    (auto simp: charge_frame_refl dest: charge_tenant_frame intro: charge_frame_trans)

lemma charge_locked_frame:
  "charge_locked db ls now strict clock = Inr db' \<Longrightarrow> charge_frame db db'"
  using fold_charge_frame by (auto simp: charge_locked_def split: if_splits)

lemma lock_ledgers_frame: "lock_ledgers db now ensure = (ls, db') \<Longrightarrow> charge_frame db db'"
  unfolding lock_ledgers_def Let_def charge_frame_def
  by (cases "ensure \<and> fairness_state db = None"; simp; elim conjE)
    (rule exI [of _ "Some 0"], force, rule exI [of _ "fairness_state db"], force)

lemma account_locked_frame: "account_locked db now clock = Inr db' \<Longrightarrow> charge_frame db db'"
  unfolding account_locked_def
  by (auto split: prod.splits dest!: lock_ledgers_frame charge_locked_frame intro: charge_frame_trans)

lemma charge_frame_tables:
  assumes "charge_frame db db'"
  shows "jobs db' = jobs db" "attempts db' = attempts db" "allocations db' = allocations db"
    "attempt_leases db' = attempt_leases db" "attempt_authority_grants db' = attempt_authority_grants db"
    "admission_counters db' = admission_counters db" "events db' = events db"
    "retry_schedules db' = retry_schedules db" "policy db' = policy db"
    "tenant_policies db' = tenant_policies db" "workers db' = workers db"
    "worker_inventories db' = worker_inventories db" "reservations db' = reservations db"
    "results db' = results db" "job_specs db' = job_specs db"
    "map segment_identity (allocation_ledger_segments db') =
       map segment_identity (allocation_ledger_segments db)"
  using assms by (auto simp: charge_frame_def)

subsection \<open>Rebasing\<close>

lemma map_fst_split_share: "map fst (split_share iv axis aggregate assigned als) = als"
  by (induction als arbitrary: assigned) (simp_all add: Let_def)

definition segment_of :: "timestamp \<Rightarrow> int \<Rightarrow> tenant_policy_row \<Rightarrow> segment_row \<Rightarrow> bool" where
  "segment_of now version p s \<longleftrightarrow> sg_tenant_id s = tp_tenant_id p \<and> sg_started_at s = now \<and>
     sg_ended_at s = None \<and> sg_weight s = tp_weight p \<and> sg_policy_version s = version"

lemma tenant_segments_Inr:
  assumes "tenant_segments new_id now version iv held p = Inr segs"
  shows "map sg_allocation_id segs =
      map al_allocation_id (filter (\<lambda>al. al_tenant_id al = tp_tenant_id p) held)"
    and "\<forall>s \<in> set segs. segment_of now version p s"
proof -
  let ?owned = "filter (\<lambda>al. al_tenant_id al = tp_tenant_id p) held"
  have e: "segs = [] \<and> ?owned = [] \<or> (\<exists>axis aggregate. segs = map (\<lambda>(al, share).
       \<lparr>sg_segment_id = new_id (al_allocation_id al),
        sg_allocation_id = al_allocation_id al, sg_tenant_id = tp_tenant_id p, sg_started_at = now,
        sg_ended_at = None, sg_dominant_share = share, sg_weight = tp_weight p,
        sg_charged_amount = 0, sg_policy_version = version\<rparr>) (split_share iv axis aggregate 0 ?owned))"
    using assms by (auto simp: tenant_segments_def Let_def split: if_splits)
  then show "map sg_allocation_id segs = map al_allocation_id ?owned"
  proof
    assume "\<exists>axis aggregate. segs = map (\<lambda>(al, share).
       \<lparr>sg_segment_id = new_id (al_allocation_id al),
        sg_allocation_id = al_allocation_id al, sg_tenant_id = tp_tenant_id p, sg_started_at = now,
        sg_ended_at = None, sg_dominant_share = share, sg_weight = tp_weight p,
        sg_charged_amount = 0, sg_policy_version = version\<rparr>) (split_share iv axis aggregate 0 ?owned)"
    then obtain axis aggregate where s: "map sg_allocation_id segs =
        map al_allocation_id (map fst (split_share iv axis aggregate 0 ?owned))"
      by (auto simp: case_prod_beta comp_def)
    show ?thesis unfolding s map_fst_split_share ..
  qed simp
  show "\<forall>s \<in> set segs. segment_of now version p s"
    using e by (auto simp: segment_of_def)
qed

lemma fold_tenant_segments:
  assumes "fold_result (\<lambda>acc p. res_bind (tenant_segments new_id now version iv held p)
      (\<lambda>new. Inr (acc @ new))) start ps = Inr segs"
  shows "\<exists>new. segs = start @ new \<and>
    map sg_allocation_id new = concat (map (\<lambda>p. map al_allocation_id
      (filter (\<lambda>al. al_tenant_id al = tp_tenant_id p) held)) ps) \<and>
    (\<forall>s \<in> set new. \<exists>p \<in> set ps. segment_of now version p s)"
  using assms
proof (induction ps arbitrary: start)
  case (Cons p ps)
  obtain a where a: "tenant_segments new_id now version iv held p = Inr a"
    using Cons.prems by (auto simp: res_bind_def split: sum.splits)
  then obtain new where "segs = (start @ a) @ new"
    "map sg_allocation_id new = concat (map (\<lambda>p. map al_allocation_id
      (filter (\<lambda>al. al_tenant_id al = tp_tenant_id p) held)) ps)"
    "\<forall>s \<in> set new. \<exists>p \<in> set ps. segment_of now version p s"
    using Cons.IH [of "start @ a"] Cons.prems by auto
  with tenant_segments_Inr [OF a] show ?case by (intro exI [of _ "a @ new"]) auto
qed simp

text \<open>The rows grouped by tenant are the rows, reordered.\<close>

lemma distinct_concat_groups:
  assumes "distinct (map key xs)" "distinct (map g ps)"
  shows "distinct (concat (map (\<lambda>p. map key (filter (\<lambda>x. f x = g p) xs)) ps))"
  using assms(2)
proof (induction ps)
  case (Cons p ps)
  have "distinct (map key (filter q xs))" for q
    using assms(1) by (auto simp: distinct_map intro: inj_on_subset)
  moreover have "set (map key (filter (\<lambda>x. f x = g p) xs)) \<inter>
      set (concat (map (\<lambda>p. map key (filter (\<lambda>x. f x = g p) xs)) ps)) = {}"
  proof (rule equals0I)
    fix k assume "k \<in> set (map key (filter (\<lambda>x. f x = g p) xs)) \<inter>
      set (concat (map (\<lambda>p. map key (filter (\<lambda>x. f x = g p) xs)) ps))"
    then obtain x y q where xy: "x \<in> set xs" "y \<in> set xs" "f x = g p" "q \<in> set ps" "f y = g q" "key x = key y"
      by auto
    then have "x = y" using assms(1) by (auto simp: distinct_map dest: inj_onD)
    with xy Cons.prems show False by (auto simp: image_iff)
  qed
  ultimately show ?case using Cons by simp
qed simp

lemma rebase_locked_Inr:
  assumes "rebase_locked db now new_id = Inr db'"
  obtains segs where "db' = db\<lparr>allocation_ledger_segments := segs\<rparr>"
    "map sg_allocation_id (open_segments db') = (if held_rows db = [] then [] else
       concat (map (\<lambda>p. map al_allocation_id (filter (\<lambda>al. al_tenant_id al = tp_tenant_id p) (held_rows db)))
         (tenant_policies db)))"
    "\<forall>s \<in> set (open_segments db'). \<exists>p \<in> set (tenant_policies db).
       segment_of now (pv_policy_version (policy db)) p s"
proof -
  let ?closed = "update_where (\<lambda>s. sg_ended_at s = None) (\<lambda>s. s\<lparr>sg_ended_at := Some now\<rparr>)
    (allocation_ledger_segments db)"
  obtain inventory where i: "current_inventory db = Inr inventory"
    using assms by (cases "current_inventory db") (simp_all add: rebase_locked_def)
  have cl: "filter (\<lambda>s. sg_ended_at s = None) ?closed = []"
    by (auto simp: filter_empty_conv set_update_where split: if_splits)
  show ?thesis
  proof (cases "held_rows db = []")
    case True
    then have d: "db' = db\<lparr>allocation_ledger_segments := ?closed\<rparr>"
      using assms i by (simp add: rebase_locked_def)
    then have "open_segments db' = []" using cl by (simp add: open_segments_def)
    with True show ?thesis by (intro that [OF d]) simp_all
  next
    case False
    obtain iv where iv: "inventory = Some iv"
      using assms i False by (cases inventory) (simp_all add: rebase_locked_def)
    have r: "rebase_locked db now new_id = res_bind (fold_result (\<lambda>acc p. res_bind (tenant_segments new_id now
        (pv_policy_version (policy db)) (the inventory) (held_rows db) p) (\<lambda>new. Inr (acc @ new)))
        ?closed (tenant_policies db)) (\<lambda>segs. Inr (db\<lparr>allocation_ledger_segments := segs\<rparr>))"
      using False iv unfolding rebase_locked_def Let_def i by simp
    from assms [unfolded r res_bind_Inr_iff] obtain segs where s: "fold_result (\<lambda>acc p. res_bind (tenant_segments new_id now
        (pv_policy_version (policy db)) (the inventory) (held_rows db) p) (\<lambda>new. Inr (acc @ new)))
        ?closed (tenant_policies db) = Inr segs" and d: "db' = db\<lparr>allocation_ledger_segments := segs\<rparr>"
      by blast
    obtain new where new: "segs = ?closed @ new"
      "map sg_allocation_id new = concat (map (\<lambda>p. map al_allocation_id
        (filter (\<lambda>al. al_tenant_id al = tp_tenant_id p) (held_rows db))) (tenant_policies db))"
      "\<forall>s \<in> set new. \<exists>p \<in> set (tenant_policies db). segment_of now (pv_policy_version (policy db)) p s"
      using fold_tenant_segments [OF s] by blast
    have "filter (\<lambda>s. sg_ended_at s = None) new = new"
      using new(3) by (auto simp: segment_of_def filter_id_conv)
    then have "open_segments db' = new" using new(1) cl d by (simp add: open_segments_def)
    with new(2,3) False show ?thesis by (intro that [OF d]) simp_all
  qed
qed

lemma set_held_rows: "set (held_rows db) = {al \<in> set (allocations db). al_state al \<noteq> S_RELEASED}"
  by (simp add: held_rows_def)

lemma distinct_held_rows:
  "distinct (map al_allocation_id (allocations db)) \<Longrightarrow> distinct (map al_allocation_id (held_rows db))"
proof -
  assume d: "distinct (map al_allocation_id (allocations db))"
  then have "distinct (held_rows db)" "inj_on al_allocation_id (set (held_rows db))"
    by (auto simp: held_rows_def distinct_map intro: inj_on_subset)
  then show ?thesis by (simp add: distinct_map)
qed

subsection \<open>Properties\<close>

text \<open>C38: after a rebase the open segments are those of the allocations that are not released, one
  for each, all starting at the rebase under the current policy version with the weight of their tenant.\<close>

theorem rebase_opens_held:
  assumes "rebase_locked db now new_id = Inr db'"
    and "distinct (map al_allocation_id (allocations db))" "distinct (map tp_tenant_id (tenant_policies db))"
    and "\<forall>al \<in> set (held_rows db). al_tenant_id al \<in> tp_tenant_id ` set (tenant_policies db)"
  shows "distinct (map sg_allocation_id (open_segments db')) \<and>
    sg_allocation_id ` set (open_segments db') =
      al_allocation_id ` {al \<in> set (allocations db'). al_state al \<noteq> S_RELEASED} \<and>
    (\<forall>s \<in> set (open_segments db'). \<exists>p \<in> set (tenant_policies db').
       segment_of now (pv_policy_version (policy db')) p s)"
proof (rule rebase_locked_Inr [OF assms(1)])
  fix segs
  let ?ids = "concat (map (\<lambda>p. map al_allocation_id (filter (\<lambda>al. al_tenant_id al = tp_tenant_id p) (held_rows db)))
    (tenant_policies db))"
  assume s: "db' = db\<lparr>allocation_ledger_segments := segs\<rparr>"
    "map sg_allocation_id (open_segments db') = (if held_rows db = [] then [] else ?ids)"
    "\<forall>s \<in> set (open_segments db'). \<exists>p \<in> set (tenant_policies db).
       segment_of now (pv_policy_version (policy db)) p s"
  have d: "distinct ?ids" by (rule distinct_concat_groups [OF distinct_held_rows [OF assms(2)] assms(3)])
  have "set ?ids = al_allocation_id ` set (held_rows db)"
  proof
    show "al_allocation_id ` set (held_rows db) \<subseteq> set ?ids"
    proof (rule image_subsetI)
      fix al assume al: "al \<in> set (held_rows db)"
      then obtain p where "p \<in> set (tenant_policies db)" "al_tenant_id al = tp_tenant_id p"
        using assms(4) by blast
      with al show "al_allocation_id al \<in> set ?ids" by (auto intro: bexI [of _ p])
    qed
  qed auto
  then have "set (map sg_allocation_id (open_segments db')) = al_allocation_id ` set (held_rows db)"
    unfolding s(2) by simp
  moreover have "distinct (map sg_allocation_id (open_segments db'))" unfolding s(2) using d by simp
  ultimately show ?thesis using s(1,3) by (simp add: set_held_rows)
qed


subsection \<open>A concrete rebase\<close>

definition ex_ledger_db :: db where
  "ex_ledger_db = empty_db\<lparr>
     allocations := [\<lparr>al_allocation_id = ''l'', al_tenant_id = ''t'', al_job_id = ''j'', al_attempt_id = ''a'',
       al_worker_id = ''w'', al_cpu_millis = 1, al_memory_bytes = 1, al_gpu_count = 0, al_state = S_HELD,
       al_held_at = 0, al_quarantined_at = None, al_released_at = None, al_release_reason = None\<rparr>],
     tenant_policies := [\<lparr>tp_tenant_id = ''t'', tp_weight = 1, tp_cpu_limit_millis = 4,
       tp_memory_limit_bytes = 4, tp_gpu_limit = 0, tp_outstanding_limit = 8, tp_user_outstanding_limit = 4,
       tp_tenant_rate_per_second = 1, tp_tenant_rate_burst = 8, tp_user_rate_per_second = 1,
       tp_user_rate_burst = 4,
       tp_tenant_active_limit = 2, tp_user_active_limit = 1\<rparr>],
     workers := [\<lparr>w_worker_id = ''w'', w_admin_state = ENABLED, w_health = READY,
       w_current_incarnation_id = Some ''i'', w_current_inventory_version = Some 1,
       w_last_heartbeat_at = None, w_ready_at = None, w_version = 1\<rparr>],
     worker_inventories := [\<lparr>iv_worker_id = ''w'', iv_worker_incarnation_id = ''i'', iv_inventory_version = 1,
       iv_architecture = ''amd64'', iv_allocatable_cpu_millis = 1, iv_allocatable_memory_bytes = 1, iv_allocatable_gpu_count = 0,
       iv_workload_capabilities = []\<rparr>]\<rparr>"

lemma ex_ledger_rebase:
  "rebase_locked ex_ledger_db 5 (\<lambda>i. i @ ''s'') = Inr (ex_ledger_db\<lparr>allocation_ledger_segments :=
     [\<lparr>sg_segment_id = ''ls'', sg_allocation_id = ''l'', sg_tenant_id = ''t'', sg_started_at = 5,
       sg_ended_at = None, sg_dominant_share = 1, sg_weight = 1, sg_charged_amount = 0,
       sg_policy_version = 1\<rparr>]\<rparr>)"
proof -
  have r: "rnd50 1 = 1" using rnd50_of_int [of 1] by simp
  show ?thesis
    by (simp add: rebase_locked_def held_rows_def current_inventory_def one_or_none_def tenant_segments_def
        axis_total_def axis_values_def capacities_def dominant_axis_def axis_share_def dec_ops r
        ex_ledger_db_def empty_db_def numeral_2_eq_2)
qed

theorem rebase_opens_held_witness:
  "\<exists>db'. rebase_locked ex_ledger_db 5 (\<lambda>i. i @ ''s'') = Inr db' \<and>
     sg_allocation_id ` set (open_segments db') =
       al_allocation_id ` {al \<in> set (allocations db'). al_state al \<noteq> S_RELEASED} \<and>
     length (open_segments db') = 1"
proof -
  have "\<forall>al \<in> set (held_rows ex_ledger_db). al_tenant_id al \<in> tp_tenant_id ` set (tenant_policies ex_ledger_db)"
    "distinct (map al_allocation_id (allocations ex_ledger_db))"
    "distinct (map tp_tenant_id (tenant_policies ex_ledger_db))"
    by (simp_all add: set_held_rows ex_ledger_db_def)
  note r = rebase_opens_held [OF ex_ledger_rebase this(2,3,1)]
  show ?thesis
    by (rule exI, intro conjI, rule ex_ledger_rebase, rule conjunct1 [OF conjunct2 [OF r]])
      (simp add: open_segments_def)
qed


end
