(* ===== verification/Job_Recovery.thy ===== *)
theory Job_Recovery
  imports Ledger
begin

section \<open>Shared recovery steps\<close>

text \<open>
  \<^verbatim>\<open>src/src/nexa/application/job_recovery.py\<close>: the statements by which control, the reaper and worker
  administration end the authority of an attempt, the retention of idempotency records, and the
  checkpoints a new attempt may restore, with the order in which they are tried.
\<close>

definition days :: "int \<Rightarrow> timestamp" where
  "days n = n * 86400000000"

definition seconds :: "int \<Rightarrow> timestamp" where
  "seconds n = n * 1000000"

definition milliseconds :: "int \<Rightarrow> timestamp" where
  "milliseconds n = n * 1000"

definition extend_retention :: "db \<Rightarrow> uuid \<Rightarrow> timestamp \<Rightarrow> int \<Rightarrow> db" where
  "extend_retention db job_id terminal_at retention_days =
     db\<lparr>idempotency_records := update_where (\<lambda>r. ik_resource_id r = Some job_id)
       (\<lambda>r. r\<lparr>ik_expires_at := max (ik_expires_at r) (terminal_at + days retention_days)\<rparr>)
       (idempotency_records db)\<rparr>"

definition revoke_leases :: "uuid \<Rightarrow> timestamp \<Rightarrow> string \<Rightarrow> lease_row list \<Rightarrow> lease_row list" where
  "revoke_leases attempt_id now revoke_reason =
     update_where (\<lambda>l. l_attempt_id l = attempt_id \<and> l_revoked_at l = None)
       (\<lambda>l. l\<lparr>l_revoked_at := Some now, l_revoke_reason := Some revoke_reason\<rparr>)"

definition end_grants :: "uuid \<Rightarrow> timestamp \<Rightarrow> grant_row list \<Rightarrow> grant_row list" where
  "end_grants attempt_id now =
     update_where (\<lambda>g. g_attempt_id g = attempt_id \<and> g_ended_at g = None) (\<lambda>g. g\<lparr>g_ended_at := Some now\<rparr>)"

definition quarantine :: "(allocation_row \<Rightarrow> bool) \<Rightarrow> timestamp \<Rightarrow> allocation_row list \<Rightarrow> allocation_row list" where
  "quarantine p now = update_where (\<lambda>al. p al \<and> al_state al = S_HELD)
     (\<lambda>al. al\<lparr>al_state := S_QUARANTINED, al_quarantined_at := Some now\<rparr>)"

definition abandon_results :: "uuid \<Rightarrow> result_reservation_row list \<Rightarrow> result_reservation_row list" where
  "abandon_results attempt_id =
     update_where (\<lambda>r. rr_attempt_id r = attempt_id \<and> rr_state r = RR_ACTIVE)
       (\<lambda>r. r\<lparr>rr_state := RR_ABANDONED\<rparr>)"

definition abandon_checkpoints ::
  "uuid \<Rightarrow> timestamp \<Rightarrow> checkpoint_reservation_row list \<Rightarrow> checkpoint_reservation_row list" where
  "abandon_checkpoints attempt_id now =
     update_where (\<lambda>r. cr_attempt_id r = attempt_id \<and> cr_state r = CR_RESERVED)
       (\<lambda>r. r\<lparr>cr_state := CR_ABANDONED, cr_ended_at := Some now\<rparr>)"

definition fence_attempt ::
  "db \<Rightarrow> uuid \<Rightarrow> timestamp \<Rightarrow> attempt_state \<Rightarrow> failure_class \<Rightarrow> string \<Rightarrow> string \<Rightarrow> db" where
  "fence_attempt db attempt_id now state failure_class failure_reason revoke_reason =
     db\<lparr>attempts := update_where (\<lambda>a. a_attempt_id a = attempt_id)
          (\<lambda>a. a\<lparr>a_state := state, a_failure_class := Some failure_class,
                 a_failure_reason := Some failure_reason, a_updated_at := now\<rparr>) (attempts db),
        attempt_leases := revoke_leases attempt_id now revoke_reason (attempt_leases db),
        attempt_authority_grants := end_grants attempt_id now (attempt_authority_grants db),
        allocations := quarantine (\<lambda>al. al_attempt_id al = attempt_id) now (allocations db),
        result_reservations := abandon_results attempt_id (result_reservations db),
        checkpoint_reservations := abandon_checkpoints attempt_id now (checkpoint_reservations db)\<rparr>"

definition revoke_leftover_authority :: "db \<Rightarrow> uuid \<Rightarrow> uuid \<Rightarrow> timestamp \<Rightarrow> string \<Rightarrow> db" where
  "revoke_leftover_authority db attempt_id allocation_id now revoke_reason =
     db\<lparr>attempt_leases := revoke_leases attempt_id now revoke_reason (attempt_leases db),
        attempt_authority_grants := end_grants attempt_id now (attempt_authority_grants db),
        allocations := quarantine (\<lambda>al. al_allocation_id al = allocation_id) now (allocations db),
        checkpoint_reservations := abandon_checkpoints attempt_id now (checkpoint_reservations db),
        result_reservations := abandon_results attempt_id (result_reservations db)\<rparr>"

subsection \<open>Restorable checkpoints\<close>

definition restorable_scope :: "db \<Rightarrow> uuid \<Rightarrow> checkpoint_row \<Rightarrow> bool" where
  "restorable_scope db job_id c \<longleftrightarrow> cp_job_id c = job_id \<or>
     list_ex (\<lambda>r. cf_target_job_id r = job_id \<and> cf_source_checkpoint_id r = cp_checkpoint_id c)
       (checkpoint_references db)"

definition not_corrupt :: "db \<Rightarrow> checkpoint_row \<Rightarrow> bool" where
  "not_corrupt db c \<longleftrightarrow> cp_checkpoint_id c \<notin> set (checkpoint_corruptions db)"

text \<open>The recursive query of \<^verbatim>\<open>retry_lineage\<close>: \<open>work\<close> holds the rows found last, and rows already
  in the result are not added again, so the walk stops on a cycle.\<close>

definition retried_from :: "uuid \<Rightarrow> job_row list \<Rightarrow> job_row \<Rightarrow> bool" where
  "retried_from tenant_id work j \<longleftrightarrow> j_tenant_id j = tenant_id \<and>
     list_ex (\<lambda>w. j_retry_of_job_id w = Some (j_job_id j)) work"

function retry_chain :: "job_row list \<Rightarrow> uuid \<Rightarrow> job_row list \<Rightarrow> job_row list \<Rightarrow> job_row list" where
  "retry_chain js tenant_id chain work =
     (if work = [] then chain
      else let new = filter (\<lambda>j. retried_from tenant_id work j \<and> j \<notin> set chain) js
           in retry_chain js tenant_id (chain @ new) new)"
  by pat_completeness auto
termination
proof (relation "measures [\<lambda>(js, _, chain, _). card (set js - set chain), \<lambda>(_, _, _, work). length work]",
    goal_cases)
  case 1
  then show ?case by simp
next
  case (2 js tenant_id chain work new)
  show ?case
  proof (cases "new = []")
    case True
    with 2(1) show ?thesis by simp
  next
    case False
    then obtain j where "j \<in> set new" by (meson list.set_sel(1))
    then have "j \<in> set js" "j \<notin> set chain" using 2(2) by simp_all
    then have "set js - set (chain @ new) \<subset> set js - set chain" using \<open>j \<in> set new\<close> by auto
    then show ?thesis by (simp add: psubset_card_mono)
  qed
qed

declare retry_chain.simps [simp del]

definition retry_lineage :: "db \<Rightarrow> uuid \<Rightarrow> uuid \<Rightarrow> uuid set" where
  "retry_lineage db tenant_id job_id =
     (let start = filter (\<lambda>j. j_tenant_id j = tenant_id \<and> j_job_id j = job_id) (jobs db)
      in j_job_id ` set (retry_chain (jobs db) tenant_id start start))"

text \<open>Own checkpoints first, then the newest sequence, then the greatest identifier.\<close>

definition restore_order :: "uuid \<Rightarrow> checkpoint_row list \<Rightarrow> checkpoint_row list" where
  "restore_order job_id cs =
     sort_key (\<lambda>c. cp_job_id c \<noteq> job_id) (sort_key (\<lambda>c. - cp_sequence c) (rev (sort_key cp_checkpoint_id cs)))"

end
