(* ===== verification/Worker_Authority.thy ===== *)
theory Worker_Authority
  imports Job_Recovery
begin

section \<open>Worker authority\<close>

text \<open>
  \<^verbatim>\<open>src/src/nexa/application/worker_service.py\<close> and the credential check of
  \<^verbatim>\<open>src/src/nexa/application/identity_service.py\<close>: receipts that make callbacks replayable, the
  incarnation and authority checks every callback passes, and the two callbacks that keep authority
  alive, renewal and adoption by the next incarnation.
\<close>

subsection \<open>Credentials, incarnations and receipts\<close>

definition operational_mode_of :: "db \<Rightarrow> operational_mode" where
  "operational_mode_of db = pv_operational_mode (policy db)"

definition authentication_error :: tx_error where
  "authentication_error = ApplicationError ''authentication_required'' 401 ''Invalid credentials''"

definition revalidate_worker_credential ::
  "(string \<Rightarrow> (uuid \<times> string) option) \<Rightarrow> db \<Rightarrow> timestamp \<Rightarrow> string \<Rightarrow> uuid \<Rightarrow> uuid tx" where
  "revalidate_worker_credential parse db now credential expected_worker_id =
     (case parse credential of None \<Rightarrow> Inl authentication_error
      | Some (identifier, digest) \<Rightarrow>
         res_bind (one_or_none (filter (\<lambda>r. wc_credential_id r = identifier) (worker_credentials db))) (\<lambda>row.
           case row of None \<Rightarrow> Inl authentication_error
           | Some r \<Rightarrow>
              if wc_worker_id r \<noteq> expected_worker_id \<or> wc_credential_hash r \<noteq> digest \<or>
                 wc_revoked_at r \<noteq> None \<or> now \<ge> wc_expires_at r \<or> wc_scopes r \<noteq> [''worker:local'']
              then Inl authentication_error
              else Inr (wc_worker_id r)))"

definition worker_auth :: "env \<Rightarrow> db \<Rightarrow> nat \<Rightarrow> uuid \<Rightarrow> string \<Rightarrow> worker_row tx" where
  "worker_auth env db i worker_id credential =
     res_bind (one_or_none (filter (\<lambda>w. w_worker_id w = worker_id) (workers db))) (\<lambda>row.
       case row of None \<Rightarrow> Inl authentication_error
       | Some w \<Rightarrow>
          res_bind (revalidate_worker_credential (secrets env) db (clk env i) credential worker_id) (\<lambda>_. Inr w))"

definition require_current_incarnation :: "db \<Rightarrow> worker_row \<Rightarrow> uuid \<Rightarrow> bool \<Rightarrow> incarnation_row tx" where
  "require_current_incarnation db worker incarnation_id require_reconciling =
     (if w_current_incarnation_id worker \<noteq> Some incarnation_id
      then Inl (stale_authority ''Worker incarnation is stale'')
      else res_bind (one_or_none (filter (\<lambda>i. wi_worker_id i = w_worker_id worker \<and>
                wi_worker_incarnation_id i = incarnation_id) (worker_incarnations db))) (\<lambda>row.
        case row of None \<Rightarrow> Inl (stale_authority ''Worker incarnation is stale'')
        | Some i \<Rightarrow>
           if wi_ended_at i \<noteq> None then Inl (stale_authority ''Worker incarnation is stale'')
           else if require_reconciling \<and> wi_reconcile_completed_at i \<noteq> None
           then Inl (state_conflict ''Worker reconciliation is complete'')
           else Inr i))"

definition receipt_scope :: "uuid \<Rightarrow> string \<Rightarrow> uuid \<Rightarrow> receipt_row \<Rightarrow> bool" where
  "receipt_scope worker_id operation_id callback_id r \<longleftrightarrow>
     rc_worker_id r = worker_id \<and> rc_operation_id r = operation_id \<and> rc_callback_id r = callback_id"

definition begin_callback ::
  "db \<Rightarrow> uuid \<Rightarrow> uuid \<Rightarrow> string \<Rightarrow> uuid \<Rightarrow> string \<Rightarrow> (uuid option \<times> acknowledgment option \<times> db) tx" where
  "begin_callback db receipt_id worker_id operation_id callback_id payload_hash =
     (if \<not> list_ex (receipt_scope worker_id operation_id callback_id) (callback_receipts db)
      then if \<not> list_ex (\<lambda>w. w_worker_id w = worker_id) (workers db)
        then Inl (IntegrityError ''callback_receipts.worker_id'')
        else Inr (Some receipt_id, None, db\<lparr>callback_receipts := callback_receipts db @
            [\<lparr>rc_receipt_id = receipt_id, rc_worker_id = worker_id, rc_operation_id = operation_id,
              rc_callback_id = callback_id, rc_payload_hash = payload_hash, rc_acknowledgment = None\<rparr>]\<rparr>)
      else res_bind (one (filter (receipt_scope worker_id operation_id callback_id) (callback_receipts db))) (\<lambda>row.
        if rc_payload_hash row \<noteq> payload_hash
        then Inl (ApplicationError ''idempotency_conflict'' 409
               ''Callback ID was already used with a different request'')
        else case rc_acknowledgment row of
            None \<Rightarrow> Inl (ApplicationError ''idempotency_in_progress'' 409
               ''An identical callback is still in progress'')
          | Some a \<Rightarrow> Inr (None, Some a, db)))"

definition complete_callback :: "db \<Rightarrow> uuid \<Rightarrow> acknowledgment \<Rightarrow> db tx" where
  "complete_callback db receipt_id body =
     (let p = (\<lambda>r. rc_receipt_id r = receipt_id \<and> rc_acknowledgment r = None) in
      if length (filter p (callback_receipts db)) \<noteq> 1
      then Inl (RuntimeError ''Callback receipt is not pending'')
      else Inr (db\<lparr>callback_receipts := update_where p (\<lambda>r. r\<lparr>rc_acknowledgment := Some body\<rparr>)
             (callback_receipts db)\<rparr>))"

subsection \<open>Authority\<close>

record authority_tuple =
  at_job :: job_row
  at_attempt :: attempt_row
  at_lease :: lease_row
  at_allocation :: allocation_row
  at_grant :: grant_row

text \<open>The conditions under which the rows read for an authority do not carry it.\<close>

definition authority_stale :: "authority \<Rightarrow> uuid \<Rightarrow> authority_tuple \<Rightarrow> bool" where
  "authority_stale au worker_id t \<longleftrightarrow>
     (let job = at_job t; attempt = at_attempt t; lease = at_lease t; allocation = at_allocation t;
          grant = at_grant t in
      j_job_id job \<noteq> a_job_id attempt \<or> j_job_fence job \<noteq> au_job_fence au \<or>
      a_job_fence attempt \<noteq> au_job_fence au \<or> a_worker_id attempt \<noteq> worker_id \<or>
      l_attempt_id lease \<noteq> au_attempt_id au \<or> l_allocation_id lease \<noteq> au_allocation_id au \<or>
      l_worker_id lease \<noteq> worker_id \<or> l_job_fence lease \<noteq> au_job_fence au \<or>
      al_attempt_id allocation \<noteq> au_attempt_id au \<or> al_job_id allocation \<noteq> j_job_id job \<or>
      al_worker_id allocation \<noteq> worker_id \<or> g_worker_incarnation_id grant \<noteq> au_worker_incarnation_id au \<or>
      g_lease_id grant \<noteq> au_lease_id au \<or> g_allocation_id grant \<noteq> au_allocation_id au \<or>
      g_worker_id grant \<noteq> worker_id \<or> g_job_fence grant \<noteq> au_job_fence au)"

definition authority_rows :: "db \<Rightarrow> authority \<Rightarrow> uuid \<Rightarrow> authority_tuple tx" where
  "authority_rows db au worker_id =
     (if au_worker_id au \<noteq> worker_id
      then Inl (ApplicationError ''permission_denied'' 403 ''Worker authority mismatch'')
      else res_bind (one_or_none (filter (\<lambda>a. a_attempt_id a = au_attempt_id au) (attempts db))) (\<lambda>ref.
      case ref of None \<Rightarrow> Inl (state_conflict ''Attempt is not available'')
      | Some attempt \<Rightarrow>
      res_bind (one (filter (\<lambda>j. j_job_id j = a_job_id attempt) (jobs db))) (\<lambda>job.
      res_bind (one_or_none (filter (\<lambda>l. l_lease_id l = au_lease_id au) (attempt_leases db))) (\<lambda>lease.
      res_bind (one_or_none (filter (\<lambda>al. al_allocation_id al = au_allocation_id au) (allocations db))) (\<lambda>allocation.
      res_bind (one_or_none (filter (\<lambda>g. g_attempt_id g = au_attempt_id au \<and> g_ended_at g = None)
                  (attempt_authority_grants db))) (\<lambda>grant.
      if j_desired_state job = D_CANCELLED \<and> j_job_id job = a_job_id attempt \<and> a_worker_id attempt = worker_id
      then Inl (stale_authority ''Job cancellation is committed'')
      else case (lease, allocation, grant) of
          (Some l, Some al, Some g) \<Rightarrow>
            let t = \<lparr>at_job = job, at_attempt = attempt, at_lease = l, at_allocation = al, at_grant = g\<rparr> in
            if authority_stale au worker_id t then Inl (stale_authority ''Worker authority is stale'') else Inr t
        | _ \<Rightarrow> Inl (stale_authority ''Worker authority is stale'')))))))"

text \<open>The job states \<^verbatim>\<open>STARTING\<close> and \<^verbatim>\<open>CHECKPOINTING\<close> the source lists are states of attempts only.\<close>

definition live_authority :: "authority_tuple \<Rightarrow> timestamp \<Rightarrow> unit tx" where
  "live_authority t now =
     (let job = at_job t; attempt = at_attempt t; lease = at_lease t; allocation = at_allocation t;
          normal_run = (j_desired_state job = D_RUNNING \<and> j_state job \<in> {J_DISPATCHING, J_RUNNING} \<and>
            a_execution_intent attempt = RUN);
          pausing_run = (j_desired_state job = D_PAUSED \<and> j_state job = J_PAUSING \<and>
            a_execution_intent attempt = RUN);
          checkpoint_for_pause = (j_desired_state job = D_PAUSED \<and> j_state job \<in> {J_DISPATCHING, J_PAUSING} \<and>
            a_execution_intent attempt = CHECKPOINT_FOR_PAUSE);
          live_states = {A_CREATED, A_CLAIMED, A_STARTING, A_RUNNING, A_CHECKPOINTING} \<union>
            (if j_desired_state job = D_PAUSED then {A_STOPPING} else {})
      in if j_desired_state job = D_CANCELLED then Inl (stale_authority ''Job cancellation is committed'')
         else if \<not> (normal_run \<or> pausing_run \<or> checkpoint_for_pause) \<or> a_state attempt \<notin> live_states \<or>
           al_state allocation \<noteq> S_HELD \<or> l_revoked_at lease \<noteq> None \<or> l_expires_at lease \<le> now
         then Inl (stale_authority ''Attempt is not live'')
         else Inr ())"

definition result_authority :: "authority_tuple \<Rightarrow> unit tx" where
  "result_authority t =
     (if j_desired_state (at_job t) \<noteq> D_RUNNING \<or> a_execution_intent (at_attempt t) \<noteq> RUN
      then Inl (stale_authority ''Attempt may not produce a result'') else Inr ())"

definition lease_duration :: timestamp where
  "lease_duration = seconds 45"


subsection \<open>Renewal\<close>

definition frozen :: "db \<Rightarrow> bool" where
  "frozen db \<longleftrightarrow> operational_mode_of db = WRITE_FROZEN"

definition not_current :: "authority_tuple \<Rightarrow> uuid \<Rightarrow> bool" where
  "not_current t incarnation \<longleftrightarrow> a_worker_incarnation_id (at_attempt t) \<noteq> incarnation \<or>
     l_current_worker_incarnation_id (at_lease t) \<noteq> incarnation"

text \<open>The statements of a renewal whose checks passed.\<close>

definition renew_effect :: "db \<Rightarrow> authority_tuple \<Rightarrow> uuid \<Rightarrow> authority \<Rightarrow> int \<Rightarrow> string option \<Rightarrow> timestamp \<Rightarrow> db" where
  "renew_effect db t attempt_id au sequence progress now =
     db\<lparr>attempts := (if sequence > a_progress_sequence (at_attempt t)
          then update_where (\<lambda>a. a_attempt_id a = attempt_id)
            (\<lambda>a. a\<lparr>a_progress_sequence := sequence, a_progress_snapshot := progress, a_updated_at := now\<rparr>)
            (attempts db)
          else attempts db),
        attempt_leases := update_where (\<lambda>l. l_lease_id l = au_lease_id au)
          (\<lambda>l. l\<lparr>l_expires_at := now + lease_duration\<rparr>) (attempt_leases db)\<rparr>"

definition renew_attempt ::
  "env \<Rightarrow> db \<Rightarrow> uuid \<Rightarrow> string \<Rightarrow> uuid \<Rightarrow> uuid \<Rightarrow> string \<Rightarrow> authority \<Rightarrow> int \<Rightarrow> string option \<Rightarrow>
   (acknowledgment \<times> db) tx" where
  "renew_attempt env db worker_id credential attempt_id callback_id payload_hash au sequence progress =
     res_bind (begin_callback db (ids env 0) worker_id ''workerRenewAttempt'' callback_id payload_hash)
     (\<lambda>(receipt, replay, db1).
     res_bind (worker_auth env db1 0 worker_id credential) (\<lambda>worker.
     if au_attempt_id au \<noteq> attempt_id \<or> w_current_incarnation_id worker \<noteq> Some (au_worker_incarnation_id au)
     then Inl (stale_authority ''Authority is stale'')
     else res_bind (require_current_incarnation db1 worker (au_worker_incarnation_id au) False) (\<lambda>_.
     case replay of Some a \<Rightarrow> Inr (a, db1)
     | None \<Rightarrow>
     if frozen db1 then Inl (state_conflict ''Writes are frozen'')
     else res_bind (authority_rows db1 au worker_id) (\<lambda>t.
     res_bind (revalidate_worker_credential (secrets env) db1 (clk env 1) credential worker_id) (\<lambda>_.
     res_bind (live_authority t (clk env 2)) (\<lambda>_.
     if not_current t (au_worker_incarnation_id au) then Inl (stale_authority ''Authority is stale'')
     else if sequence < a_progress_sequence (at_attempt t) \<or>
       sequence = a_progress_sequence (at_attempt t) \<and> progress \<noteq> a_progress_snapshot (at_attempt t)
     then Inl (state_conflict ''Progress sequence conflicts'')
     else let response = Ack_renew (clk env 2) (clk env 2 + lease_duration) (j_desired_state (at_job t)) in
       res_bind (complete_callback (renew_effect db1 t attempt_id au sequence progress (clk env 2))
         (the receipt) response) (\<lambda>db2. Inr (response, db2))))))))"

subsection \<open>Adoption\<close>

record container_ref =
  cn_container_id :: string
  cn_runtime_identity_digest :: string

record adopt_request =
  aq_current_worker_incarnation_id :: uuid
  aq_prior_authority :: authority
  aq_container :: container_ref

definition predecessor_of :: "db \<Rightarrow> uuid \<Rightarrow> uuid \<Rightarrow> incarnation_row \<Rightarrow> bool tx" where
  "predecessor_of db prior_id worker_id incarnation =
     res_bind (one_or_none (filter (\<lambda>i. wi_worker_incarnation_id i = prior_id \<and> wi_worker_id i = worker_id)
       (worker_incarnations db))) (\<lambda>row.
       Inr (case row of None \<Rightarrow> False
            | Some p \<Rightarrow> wi_ended_at p \<noteq> None \<and> wi_sequence p + 1 = wi_sequence incarnation))"

definition container_matches :: "db \<Rightarrow> uuid \<Rightarrow> attempt_row \<Rightarrow> authority \<Rightarrow> container_ref \<Rightarrow> bool tx" where
  "container_matches db attempt_id attempt prior request =
     res_bind (one_or_none (filter (\<lambda>c. c_attempt_id c = attempt_id \<and> c_container_id c = cn_container_id request)
       (container_identities db))) (\<lambda>row.
       Inr (case row of None \<Rightarrow> False
            | Some c \<Rightarrow> c_allocation_id c = au_allocation_id prior \<and> c_startup_nonce c = a_startup_nonce attempt \<and>
                c_runtime_identity_digest c = cn_runtime_identity_digest request \<and> c_stopped_at c = None))"

text \<open>The statements of an adoption whose checks passed: the grant is handed over, and reservations
  follow it.\<close>

definition adopt_effect ::
  "db \<Rightarrow> authority_tuple \<Rightarrow> uuid \<Rightarrow> uuid \<Rightarrow> uuid \<Rightarrow> uuid \<Rightarrow> adopt_request \<Rightarrow>
   checkpoint_reservation_row option \<Rightarrow> result_reservation_row option \<Rightarrow> timestamp \<Rightarrow> db" where
  "adopt_effect db t worker_id attempt_id callback_id next_grant request checkpoint result now =
     (let prior = aq_prior_authority request; current = aq_current_worker_incarnation_id request; g = at_grant t in
      db\<lparr>attempt_authority_grants :=
           update_where (\<lambda>r. g_grant_id r = g_grant_id g) (\<lambda>r. r\<lparr>g_ended_at := Some now\<rparr>)
             (attempt_authority_grants db) @
           [\<lparr>g_grant_id = next_grant, g_tenant_id = a_tenant_id (at_attempt t), g_job_id = j_job_id (at_job t),
             g_attempt_id = attempt_id, g_allocation_id = au_allocation_id prior, g_lease_id = au_lease_id prior,
             g_worker_id = worker_id, g_worker_incarnation_id = current, g_job_fence = au_job_fence prior,
             g_predecessor_grant_id = Some (g_grant_id g), g_callback_id = callback_id, g_granted_at = now,
             g_ended_at = None\<rparr>],
         attempts := update_where (\<lambda>a. a_attempt_id a = attempt_id)
           (\<lambda>a. a\<lparr>a_worker_incarnation_id := current, a_updated_at := now\<rparr>) (attempts db),
         attempt_leases := update_where (\<lambda>l. l_lease_id l = au_lease_id prior)
           (\<lambda>l. l\<lparr>l_current_worker_incarnation_id := current, l_expires_at := now + lease_duration\<rparr>)
           (attempt_leases db),
         checkpoint_reservations := (case checkpoint of None \<Rightarrow> checkpoint_reservations db
           | Some c \<Rightarrow> update_where (\<lambda>r. cr_checkpoint_id r = cr_checkpoint_id c)
               (\<lambda>r. r\<lparr>cr_authority_grant_id := next_grant\<rparr>) (checkpoint_reservations db)),
         result_reservations := (case result of None \<Rightarrow> result_reservations db
           | Some c \<Rightarrow> update_where (\<lambda>r. rr_result_id r = rr_result_id c)
               (\<lambda>r. r\<lparr>rr_authority_grant_id := next_grant\<rparr>) (result_reservations db))\<rparr>)"

definition adopt_authority :: "adopt_request \<Rightarrow> uuid \<Rightarrow> uuid \<Rightarrow> authority" where
  "adopt_authority request worker_id attempt_id =
     (aq_prior_authority request)\<lparr>au_worker_id := worker_id,
        au_worker_incarnation_id := aq_current_worker_incarnation_id request, au_attempt_id := attempt_id\<rparr>"

text \<open>The part of an adoption behind the identity checks and the replay.\<close>

definition adopt_locked ::
  "env \<Rightarrow> db \<Rightarrow> uuid \<Rightarrow> string \<Rightarrow> uuid \<Rightarrow> uuid \<Rightarrow> uuid option \<Rightarrow> adopt_request \<Rightarrow> (acknowledgment \<times> db) tx" where
  "adopt_locked env db worker_id credential attempt_id callback_id receipt request =
     (let prior = aq_prior_authority request in
     res_bind (authority_rows db prior worker_id) (\<lambda>t.
     res_bind (container_matches db attempt_id (at_attempt t) prior (aq_container request)) (\<lambda>ok.
     if \<not> ok then Inl (state_conflict ''Container identity mismatch'')
     else res_bind (one_or_none (filter (\<lambda>r. cr_attempt_id r = attempt_id \<and> cr_state r = CR_RESERVED)
       (checkpoint_reservations db))) (\<lambda>checkpoint.
     res_bind (one_or_none (filter (\<lambda>r. rr_attempt_id r = attempt_id \<and> rr_state r = RR_ACTIVE)
       (result_reservations db))) (\<lambda>result.
     if \<not> pred_option (\<lambda>c. cr_authority_grant_id c = g_grant_id (at_grant t)) checkpoint \<or>
        \<not> pred_option (\<lambda>r. rr_authority_grant_id r = g_grant_id (at_grant t)) result
     then Inl (state_conflict ''Reservation lineage mismatch'')
     else res_bind (revalidate_worker_credential (secrets env) db (clk env 1) credential worker_id) (\<lambda>_.
     res_bind (live_authority t (clk env 2)) (\<lambda>_.
     if not_current t (au_worker_incarnation_id prior) then Inl (stale_authority ''Authority is stale'')
     else let response = Ack_adopt callback_id (clk env 2) (adopt_authority request worker_id attempt_id)
              (map_option cr_checkpoint_id checkpoint) (map_option rr_result_id result)
              (clk env 2 + lease_duration) in
       res_bind (complete_callback (adopt_effect db t worker_id attempt_id callback_id (ids env 1) request
           checkpoint result (clk env 2)) (the receipt) response) (\<lambda>db'. Inr (response, db')))))))))"

definition adopt_attempt ::
  "env \<Rightarrow> db \<Rightarrow> uuid \<Rightarrow> string \<Rightarrow> uuid \<Rightarrow> uuid \<Rightarrow> string \<Rightarrow> adopt_request \<Rightarrow> (acknowledgment \<times> db) tx" where
  "adopt_attempt env db worker_id credential attempt_id callback_id payload_hash request =
     res_bind (begin_callback db (ids env 0) worker_id ''workerAdoptAttempt'' callback_id payload_hash)
     (\<lambda>(receipt, replay, db1).
     res_bind (worker_auth env db1 0 worker_id credential) (\<lambda>worker.
     res_bind (require_current_incarnation db1 worker (aq_current_worker_incarnation_id request) True) (\<lambda>incarnation.
     let prior = aq_prior_authority request in
     if au_attempt_id prior \<noteq> attempt_id \<or> au_worker_id prior \<noteq> worker_id
     then Inl (state_conflict ''Authority mismatch'')
     else res_bind (predecessor_of db1 (au_worker_incarnation_id prior) worker_id incarnation) (\<lambda>ok.
     if \<not> ok then Inl (state_conflict ''Not the prior incarnation'')
     else case replay of Some a \<Rightarrow> Inr (a, db1)
     | None \<Rightarrow>
     if frozen db1 then Inl (state_conflict ''Writes are frozen'')
     else adopt_locked env db1 worker_id credential attempt_id callback_id receipt request))))"

end
