(* ===== verification/Execution_Cleanup.thy ===== *)
theory Execution_Cleanup
  imports Worker_Authority
begin

section \<open>Failure and verified cleanup\<close>

text \<open>
  \<^verbatim>\<open>src/src/nexa/application/execution_cleanup.py\<close>: the admission counters, the event and audit record of
  a job transition, the failure of an attempt, and the verified cleanup that alone releases the
  resources of an allocation and decides what becomes of its job.  The requests are those of
  \<^verbatim>\<open>src/src/nexa/api/execution_cleanup_schemas.py\<close>.
\<close>

subsection \<open>Counters and events\<close>

definition counter_scopes :: "job_row \<Rightarrow> scope list" where
  "counter_scopes j = [GLOBAL, TENANT (j_tenant_id j), USER (j_tenant_id j) (j_submitter_user_id j)]"

fun lock_counters :: "db \<Rightarrow> scope list \<Rightarrow> counter_row list tx" where
  "lock_counters db [] = Inr []"
| "lock_counters db (s # ss) =
     res_bind (one_or_none (filter (\<lambda>k. k_scope k = s) (admission_counters db))) (\<lambda>row.
       case row of None \<Rightarrow> Inl (dependency_unavailable ''Admission accounting is unavailable'')
       | Some k \<Rightarrow> res_bind (lock_counters db ss) (\<lambda>ks. Inr (k # ks)))"

definition lock_policy_counters :: "db \<Rightarrow> uuid \<Rightarrow> (operational_mode \<times> counter_row list) tx" where
  "lock_policy_counters db attempt_id =
     res_bind (one_or_none (concat (map (\<lambda>a. filter (\<lambda>j. j_job_id j = a_job_id a) (jobs db))
       (filter (\<lambda>a. a_attempt_id a = attempt_id) (attempts db))))) (\<lambda>ref.
       case ref of None \<Rightarrow> Inl (state_conflict ''Cleanup identity or state is not valid'')
       | Some j \<Rightarrow> res_bind (lock_counters db (counter_scopes j)) (\<lambda>ks. Inr (operational_mode_of db, ks)))"

definition adjust_counter :: "timestamp \<Rightarrow> int \<Rightarrow> int \<Rightarrow> db \<Rightarrow> counter_row \<Rightarrow> db tx" where
  "adjust_counter now outstanding active db row =
     (if k_outstanding row < outstanding \<or> k_active_attempts row < active
      then Inl (dependency_unavailable ''Admission accounting is inconsistent'')
      else Inr (db\<lparr>admission_counters := update_where (\<lambda>k. k_scope k = k_scope row)
             (\<lambda>k. k\<lparr>k_outstanding := k_outstanding row - outstanding,
                    k_active_attempts := k_active_attempts row - active,
                    k_version := k_version row + 1, k_updated_at := now\<rparr>) (admission_counters db)\<rparr>))"

definition adjust_counters :: "db \<Rightarrow> counter_row list \<Rightarrow> timestamp \<Rightarrow> int \<Rightarrow> int \<Rightarrow> db tx" where
  "adjust_counters db counters now outstanding active = fold_result (adjust_counter now outstanding active) db counters"

definition lower_char :: "char \<Rightarrow> char" where
  "lower_char c = (let n = of_char c :: nat in if 65 \<le> n \<and> n \<le> 90 then char_of (n + 32) else c)"

definition lower :: "string \<Rightarrow> string" where
  "lower = map lower_char"

text \<open>One update of the job with one event and one audit record; every actor's \<^verbatim>\<open>_event\<close> has this
  shape.  \<open>created\<close> is the time of both, \<open>action\<close> the audit action
  and \<open>audit_reason\<close> its reason.\<close>

definition record_event ::
  "db \<Rightarrow> job_row \<Rightarrow> actor \<Rightarrow> timestamp \<Rightarrow> timestamp \<Rightarrow> string \<Rightarrow> string option \<Rightarrow> string \<Rightarrow> string option \<Rightarrow>
   bool \<Rightarrow> (job_row \<Rightarrow> job_row) \<Rightarrow> db" where
  "record_event db job actor now created event_type reason action audit_reason keep_version changes =
     (let version = (if keep_version then j_version job else j_version job + 1);
          sequence = j_event_sequence job + 1 in
      db\<lparr>jobs := update_where (\<lambda>j. j_job_id j = j_job_id job)
           (\<lambda>j. (changes j)\<lparr>j_version := version, j_event_sequence := sequence, j_updated_at := now\<rparr>) (jobs db),
         events := events db @ [\<lparr>e_tenant_id = j_tenant_id job, e_job_id = j_job_id job, e_sequence = sequence,
           e_event_type = event_type, e_reason = reason, e_actor = actor, e_created_at = created\<rparr>],
         audit_records := audit_records db @ [\<lparr>u_actor = actor, u_tenant_id = Some (j_tenant_id job),
           u_action = action, u_target_id = j_job_id job, u_before_version = Some (j_version job),
           u_after_version = version, u_reason = audit_reason, u_created_at = created\<rparr>]\<rparr>)"

definition worker_event ::
  "db \<Rightarrow> job_row \<Rightarrow> uuid \<Rightarrow> timestamp \<Rightarrow> string \<Rightarrow> string \<Rightarrow> bool \<Rightarrow> (job_row \<Rightarrow> job_row) \<Rightarrow> int \<times> db" where
  "worker_event db job worker_id now event_type reason keep_version changes =
     (if keep_version then j_version job else j_version job + 1,
      record_event db job (WORKER worker_id) now now event_type (Some reason) (lower event_type) (Some reason)
        keep_version changes)"

subsection \<open>Proofs and observations\<close>

datatype proof_kind = NoContainer int | ContainerStopped container_ref timestamp

record cleanup_proof =
  pf_startup_nonce :: uuid
  pf_executor_operation_sequence :: int
  pf_kind :: proof_kind

definition container_of :: "db \<Rightarrow> uuid \<Rightarrow> container_row option tx" where
  "container_of db attempt_id = one_or_none (filter (\<lambda>c. c_attempt_id c = attempt_id) (container_identities db))"

text \<open>\<^verbatim>\<open>attempt["executor_operation_sequence"] or 1\<close>.\<close>

definition operation_sequence :: "attempt_row \<Rightarrow> int" where
  "operation_sequence a = (case a_executor_operation_sequence a of None \<Rightarrow> 1 | Some n \<Rightarrow> if n = 0 then 1 else n)"

definition proof_valid :: "attempt_row \<Rightarrow> container_row option \<Rightarrow> cleanup_proof \<Rightarrow> bool" where
  "proof_valid attempt container pf \<longleftrightarrow>
     pf_startup_nonce pf = a_startup_nonce attempt \<and>
     \<not> pf_executor_operation_sequence pf < operation_sequence attempt \<and>
     (case pf_kind pf of
        NoContainer tombstone \<Rightarrow> container = None \<and> a_started_at attempt = None \<and>
          tombstone \<ge> pf_executor_operation_sequence pf
      | ContainerStopped ref stopped_at \<Rightarrow> (case container of None \<Rightarrow> False
          | Some c \<Rightarrow> cn_container_id ref = c_container_id c \<and>
              cn_runtime_identity_digest ref = c_runtime_identity_digest c \<and>
              pf_executor_operation_sequence pf \<ge> c_executor_create_sequence c \<and>
              stopped_at \<ge> c_created_at c))"

definition committed_checkpoint :: "db \<Rightarrow> uuid \<Rightarrow> uuid option \<Rightarrow> bool" where
  "committed_checkpoint db job_id attempt_id \<longleftrightarrow>
     list_ex (\<lambda>c. restorable_scope db job_id c \<and> not_corrupt db c \<and>
       (case attempt_id of None \<Rightarrow> True | Some a \<Rightarrow> cp_attempt_id c = a)) (checkpoints db)"

datatype observation =
    NoContainerObservation cleanup_proof
  | ContainerObservation container_ref timestamp bool bool

record failure_request =
  fq_authority :: authority
  fq_failure_class :: failure_class
  fq_reason_code :: string
  fq_observation :: observation

text \<open>The reasons a class may give; a request never carries the class \<open>USER_CANCEL\<close>.\<close>

fun failure_reasons :: "failure_class \<Rightarrow> string list" where
  "failure_reasons INFRASTRUCTURE = [''RECONCILIATION_IDENTITY_MISMATCH'', ''EXECUTOR_UNAVAILABLE'',
     ''STARTUP_FAILED'', ''INPUT_DOWNLOAD_FAILED'', ''OUTPUT_UPLOAD_FAILED'', ''RUNNER_UNAVAILABLE'']"
| "failure_reasons TIMEOUT = [''RUNTIME_LIMIT_REACHED'', ''STARTUP_TIMEOUT'']"
| "failure_reasons OOM = [''CONTAINER_OOM'']"
| "failure_reasons INVALID_INPUT = [''INVALID_INPUT'', ''INPUT_CHECKSUM_MISMATCH'']"
| "failure_reasons INCOMPATIBLE = [''CAPABILITY_MISMATCH'', ''IMAGE_MISMATCH'', ''CHECKPOINT_RESTORE_UNAVAILABLE'']"
| "failure_reasons INTERNAL = [''WORKLOAD_EXIT_NONZERO'', ''RUNNER_PROTOCOL_ERROR'', ''INVALID_RESULT'',
     ''CHECKPOINT_PROTOCOL_ERROR'', ''CHUNK_OUTPUT_CONFLICT'', ''CHUNK_OUTPUT_UNAVAILABLE'',
     ''CHECKPOINT_STORAGE_FAILED'']"
| "failure_reasons USER_CANCEL = []"

definition failable_attempt_states :: "attempt_state set" where
  "failable_attempt_states = {A_CLAIMED, A_STARTING, A_RUNNING, A_CHECKPOINTING}"

abbreviation cleanup_conflict :: tx_error where
  "cleanup_conflict \<equiv> state_conflict ''Cleanup identity or state is not valid''"

subsection \<open>Failure\<close>

text \<open>The observed container is checked against the recorded one, which an observation of an attempt
  that never reported its start may create.\<close>

definition bind_container :: "db \<Rightarrow> authority_tuple \<Rightarrow> uuid \<Rightarrow> container_ref \<Rightarrow> timestamp \<Rightarrow> db" where
  "bind_container db t attempt_id ref observed_at =
     db\<lparr>container_identities := container_identities db @ [\<lparr>c_tenant_id = j_tenant_id (at_job t),
       c_job_id = j_job_id (at_job t), c_attempt_id = attempt_id,
       c_allocation_id = al_allocation_id (at_allocation t), c_startup_nonce = a_startup_nonce (at_attempt t),
       c_executor_create_sequence = operation_sequence (at_attempt t), c_container_id = cn_container_id ref,
       c_runtime_identity_digest = cn_runtime_identity_digest ref, c_created_at = observed_at,
       c_stopped_at = None, c_verified_at = None\<rparr>]\<rparr>"

definition check_observation :: "db \<Rightarrow> authority_tuple \<Rightarrow> uuid \<Rightarrow> failure_request \<Rightarrow> timestamp \<Rightarrow> db tx" where
  "check_observation db t attempt_id request now =
     res_bind (container_of db attempt_id) (\<lambda>container.
     case fq_observation request of
       NoContainerObservation pf \<Rightarrow>
         if \<not> proof_valid (at_attempt t) container pf then Inl cleanup_conflict
         else if fq_failure_class request = OOM then Inl (state_conflict ''Failure class contradicts observation'')
         else Inr db
     | ContainerObservation ref observed_at oom_killed runtime_limit_reached \<Rightarrow>
         let db1 = (if container = None \<and> a_state (at_attempt t) = A_CLAIMED \<and> a_started_at (at_attempt t) = None \<and>
                       j_state (at_job t) = J_DISPATCHING \<and> a_created_at (at_attempt t) \<le> observed_at \<and>
                       observed_at \<le> now + seconds 5
                    then bind_container db t attempt_id ref observed_at else db) in
         res_bind (container_of db1 attempt_id) (\<lambda>container'.
           case container' of None \<Rightarrow> Inl cleanup_conflict
           | Some c \<Rightarrow>
              if cn_container_id ref \<noteq> c_container_id c \<or> cn_runtime_identity_digest ref \<noteq> c_runtime_identity_digest c
              then Inl cleanup_conflict
              else if (fq_failure_class request = OOM) \<noteq> oom_killed \<or>
                (fq_failure_class request = TIMEOUT \<and> fq_reason_code request = ''RUNTIME_LIMIT_REACHED'') \<noteq>
                  runtime_limit_reached
              then Inl (state_conflict ''Failure class contradicts observation'')
              else Inr db1))"

text \<open>The statements of a failure whose checks passed.\<close>

definition fail_effect :: "db \<Rightarrow> authority_tuple \<Rightarrow> uuid \<Rightarrow> uuid \<Rightarrow> failure_request \<Rightarrow> timestamp \<Rightarrow> int \<times> db" where
  "fail_effect db t worker_id attempt_id request now =
     worker_event (db\<lparr>
        attempts := update_where (\<lambda>a. a_attempt_id a = attempt_id)
          (\<lambda>a. a\<lparr>a_state := A_STOPPING, a_failure_class := Some (fq_failure_class request),
                 a_failure_reason := Some (fq_reason_code request), a_updated_at := now\<rparr>) (attempts db),
        attempt_leases := update_where (\<lambda>l. l_lease_id l = l_lease_id (at_lease t))
          (\<lambda>l. l\<lparr>l_revoked_at := Some now\<rparr>) (attempt_leases db),
        attempt_authority_grants := update_where (\<lambda>g. g_grant_id g = g_grant_id (at_grant t))
          (\<lambda>g. g\<lparr>g_ended_at := Some now\<rparr>) (attempt_authority_grants db),
        allocations := update_where (\<lambda>al. al_allocation_id al = al_allocation_id (at_allocation t))
          (\<lambda>al. al\<lparr>al_state := S_QUARANTINED, al_quarantined_at := Some now\<rparr>) (allocations db),
        result_reservations := abandon_results attempt_id (result_reservations db),
        checkpoint_reservations := abandon_checkpoints attempt_id now (checkpoint_reservations db)\<rparr>)
       (at_job t) worker_id now ''ATTEMPT_FAILED'' (fq_reason_code request) False
       (\<lambda>j. j\<lparr>j_state := J_RECOVERING, j_job_fence := j_job_fence (at_job t) + 1\<rparr>)"

definition fail_guard :: "authority_tuple \<Rightarrow> failure_request \<Rightarrow> timestamp \<Rightarrow> unit tx" where
  "fail_guard t request now =
     (if j_state (at_job t) \<notin> {J_DISPATCHING, J_RUNNING, J_PAUSING} \<or> al_state (at_allocation t) \<noteq> S_HELD \<or>
         l_revoked_at (at_lease t) \<noteq> None \<or> l_expires_at (at_lease t) \<le> now
      then Inl (stale_authority ''Failure authority is stale'')
      else if a_state (at_attempt t) = A_STOPPING then Inl (stale_authority ''Attempt is already stopping'')
      else if a_state (at_attempt t) \<notin> failable_attempt_states
      then Inl (state_conflict ''Attempt cannot fail in its state'')
      else if fq_reason_code request \<notin> set (failure_reasons (fq_failure_class request))
      then Inl (ApplicationError ''validation_failed'' 422 ''Unknown failure reason'')
      else Inr ())"

definition fail_attempt ::
  "env \<Rightarrow> db \<Rightarrow> uuid \<Rightarrow> string \<Rightarrow> uuid \<Rightarrow> uuid \<Rightarrow> string \<Rightarrow> failure_request \<Rightarrow> (acknowledgment \<times> db) tx" where
  "fail_attempt env db worker_id credential attempt_id callback_id payload_hash request =
     res_bind (begin_callback db (ids env 0) worker_id ''workerFailAttempt'' callback_id payload_hash)
     (\<lambda>(receipt, replay, db1).
     res_bind (lock_policy_counters db1 attempt_id) (\<lambda>(mode, _).
     res_bind (worker_auth env db1 0 worker_id credential) (\<lambda>worker.
     res_bind (require_current_incarnation db1 worker (au_worker_incarnation_id (fq_authority request)) False) (\<lambda>_.
     if au_attempt_id (fq_authority request) \<noteq> attempt_id \<or> au_worker_id (fq_authority request) \<noteq> worker_id
     then Inl cleanup_conflict
     else case replay of Some a \<Rightarrow> Inr (a, db1)
     | None \<Rightarrow>
     if mode = WRITE_FROZEN then Inl (state_conflict ''Writes are frozen'')
     else res_bind (authority_rows db1 (fq_authority request) worker_id) (\<lambda>t.
     res_bind (fail_guard t request (clk env 1)) (\<lambda>_.
     res_bind (check_observation db1 t attempt_id request (clk env 1)) (\<lambda>db2.
     case fail_effect db2 t worker_id attempt_id request (clk env 1) of (version, db3) \<Rightarrow>
       let response = Ack_job callback_id (clk env 1) J_RECOVERING version in
       res_bind (complete_callback db3 (the receipt) response) (\<lambda>db4. Inr (response, db4)))))))))"


subsection \<open>Verified cleanup\<close>

record cleanup_request =
  cq_worker_id :: uuid
  cq_worker_incarnation_id :: uuid
  cq_attempt_id :: uuid
  cq_allocation_id :: uuid
  cq_job_fence :: int
  cq_proof :: cleanup_proof

record cleanup_tuple =
  ct_job :: job_row
  ct_attempt :: attempt_row
  ct_lease :: lease_row
  ct_allocation :: allocation_row
  ct_container :: "container_row option"

definition cleanup_lineage :: "db \<Rightarrow> uuid \<Rightarrow> uuid \<Rightarrow> cleanup_request \<Rightarrow> grant_row option tx" where
  "cleanup_lineage db worker_id attempt_id request =
     one_or_none (filter (\<lambda>g. g_attempt_id g = attempt_id \<and> g_worker_id g = worker_id \<and>
       g_worker_incarnation_id g = cq_worker_incarnation_id request \<and>
       g_allocation_id g = cq_allocation_id request \<and> g_job_fence g = cq_job_fence request)
       (attempt_authority_grants db))"

text \<open>The rows of a cleanup with its identity and its proof checked.\<close>

definition cleanup_rows :: "db \<Rightarrow> uuid \<Rightarrow> uuid \<Rightarrow> cleanup_request \<Rightarrow> cleanup_tuple tx" where
  "cleanup_rows db worker_id attempt_id request =
     res_bind (one (filter (\<lambda>a. a_attempt_id a = attempt_id) (attempts db))) (\<lambda>attempt.
     res_bind (one (filter (\<lambda>j. j_job_id j = a_job_id attempt) (jobs db))) (\<lambda>job.
     res_bind (one (filter (\<lambda>l. l_attempt_id l = attempt_id) (attempt_leases db))) (\<lambda>lease.
     res_bind (one_or_none (filter (\<lambda>al. al_allocation_id al = cq_allocation_id request) (allocations db))) (\<lambda>allocation.
     res_bind (cleanup_lineage db worker_id attempt_id request) (\<lambda>lineage.
     case allocation of None \<Rightarrow> Inl cleanup_conflict
     | Some al \<Rightarrow>
       if lineage = None \<or> a_worker_id attempt \<noteq> worker_id \<or> a_job_fence attempt \<noteq> cq_job_fence request \<or>
          al_attempt_id al \<noteq> attempt_id
       then Inl cleanup_conflict
       else res_bind (container_of db attempt_id) (\<lambda>container.
         if \<not> proof_valid attempt container (cq_proof request) then Inl cleanup_conflict
         else Inr \<lparr>ct_job = job, ct_attempt = attempt, ct_lease = lease, ct_allocation = al,
                ct_container = container\<rparr>))))))"

definition ack_verified :: "acknowledgment \<Rightarrow> bool" where
  "ack_verified a = (case a of Ack_cleanup _ verified _ _ \<Rightarrow> verified | _ \<Rightarrow> False)"

definition store_cleanup_acknowledgment ::
  "db \<Rightarrow> uuid option \<Rightarrow> acknowledgment option \<Rightarrow> uuid \<Rightarrow> uuid \<Rightarrow> acknowledgment \<Rightarrow> db tx" where
  "store_cleanup_acknowledgment db receipt replay worker_id callback_id response =
     (case replay of None \<Rightarrow> complete_callback db (the receipt) response
      | Some a \<Rightarrow>
         let p = (\<lambda>r. receipt_scope worker_id ''workerReportCleanup'' callback_id r \<and> rc_acknowledgment r = Some a) in
         if length (filter p (callback_receipts db)) \<noteq> 1
         then Inl (RuntimeError ''Pending cleanup receipt was not promoted'')
         else Inr (db\<lparr>callback_receipts := update_where p (\<lambda>r. r\<lparr>rc_acknowledgment := Some response\<rparr>)
                (callback_receipts db)\<rparr>))"

definition template_of_job :: "db \<Rightarrow> uuid \<Rightarrow> template_row tx" where
  "template_of_job db job_id =
     one (concat (map (\<lambda>sp. filter (\<lambda>tv. t_template_id tv = sp_template_id sp \<and> t_version tv = sp_template_version sp)
       (template_versions db)) (filter (\<lambda>sp. sp_job_id sp = job_id) (job_specs db))))"

text \<open>The backoff of the \<open>n\<close>-th retry.\<close>

definition retry_backoff :: "int \<Rightarrow> int \<Rightarrow> timestamp" where
  "retry_backoff n jitter = seconds (min 30 (2 ^ nat (n - 1))) + milliseconds jitter"

text \<open>What cleanup makes of a job: the next state, the other changes of the job row, the new state of
  its attempt if it changes, and the retry it schedules.\<close>

record cleanup_outcome =
  co_state :: job_state
  co_changes :: "job_row \<Rightarrow> job_row"
  co_attempt :: "attempt_row \<Rightarrow> attempt_row"
  co_retry :: "retry_row option"

definition ended_attempt :: "attempt_row \<Rightarrow> attempt_state \<Rightarrow> timestamp \<Rightarrow> attempt_row \<Rightarrow> attempt_row" where
  "ended_attempt attempt state now a =
     a\<lparr>a_state := (if a_state attempt = A_LOST then A_LOST else state), a_ended_at := Some now, a_updated_at := now\<rparr>"

definition recover_outcome ::
  "env \<Rightarrow> job_row \<Rightarrow> attempt_row \<Rightarrow> bool \<Rightarrow> bool \<Rightarrow> timestamp \<Rightarrow> cleanup_outcome" where
  "recover_outcome env job attempt restart_safe checkpointed now =
     (let infrastructure = (a_failure_class attempt = Some INFRASTRUCTURE);
          paused = (j_desired_state job = D_PAUSED);
          retry = j_retry_count job + 1;
          ready_at = now + retry_backoff retry (jitter_ms env);
          ended = ended_attempt attempt A_FAILED now in
      if infrastructure \<and> paused \<and> checkpointed
      then \<lparr>co_state = J_PAUSED, co_changes = (\<lambda>j. j\<lparr>j_recovery_intent := None, j_waiting_reason := None\<rparr>),
             co_attempt = ended, co_retry = None\<rparr>
      else if infrastructure \<and> j_retry_count job < j_max_retries job \<and>
        (restart_safe \<or> checkpointed \<and> \<not> paused)
      then \<lparr>co_state = J_RETRY_WAIT,
             co_changes = (\<lambda>j. j\<lparr>j_recovery_intent := (if paused then Some CHECKPOINT_FOR_PAUSE else j_recovery_intent j),
               j_retry_count := retry, j_retry_ready_at := Some ready_at,
               j_waiting_reason := Some ''waiting_for_retry''\<rparr>),
             co_attempt = ended,
             co_retry = Some \<lparr>rs_job_id = j_job_id job, rs_tenant_id = j_tenant_id job, rs_retry_number = retry,
               rs_ready_at = ready_at, rs_jitter_milliseconds = jitter_ms env, rs_reason = ''INFRASTRUCTURE'',
               rs_closed_at = None, rs_created_at = now\<rparr>\<rparr>
      else \<lparr>co_state = J_FAILED, co_changes = id, co_attempt = ended, co_retry = None\<rparr>)"

definition outcome_of :: "env \<Rightarrow> db \<Rightarrow> cleanup_tuple \<Rightarrow> timestamp \<Rightarrow> cleanup_outcome tx" where
  "outcome_of env db t now =
     (let job = ct_job t; attempt = ct_attempt t in
      if j_state job = J_CANCELLING
      then Inr \<lparr>co_state = J_CANCELLED, co_changes = id, co_attempt = ended_attempt attempt A_CANCELLED now,
             co_retry = None\<rparr>
      else if j_state job = J_PAUSING
      then Inr \<lparr>co_state = J_PAUSED, co_changes = (\<lambda>j. j\<lparr>j_recovery_intent := None, j_waiting_reason := None\<rparr>),
             co_attempt = (\<lambda>a. a\<lparr>a_state := A_CANCELLED, a_failure_reason := Some ''PAUSE'', a_ended_at := Some now,
               a_updated_at := now\<rparr>), co_retry = None\<rparr>
      else if j_state job = J_RECOVERING
      then res_bind (template_of_job db (j_job_id job)) (\<lambda>template.
        Inr (recover_outcome env job attempt (t_restart_safe template)
          (committed_checkpoint db (j_job_id job) None) now))
      else Inr \<lparr>co_state = j_state job, co_changes = id, co_attempt = id, co_retry = None\<rparr>)"

text \<open>The statements that release the allocation, in the order of the source; the store passed on is
  the one after \<^verbatim>\<open>account_locked\<close>.\<close>

definition release_rows ::
  "db \<Rightarrow> cleanup_tuple \<Rightarrow> uuid \<Rightarrow> cleanup_request \<Rightarrow> cleanup_outcome \<Rightarrow> timestamp \<Rightarrow> db" where
  "release_rows db t attempt_id request out now =
     db\<lparr>allocations := update_where (\<lambda>al. al_allocation_id al = cq_allocation_id request)
          (\<lambda>al. al\<lparr>al_state := S_RELEASED, al_released_at := Some now, al_release_reason := Some ''VERIFIED_CLEANUP''\<rparr>)
          (allocations db),
        allocation_gpu_claims := update_where (\<lambda>c. gc_allocation_id c = cq_allocation_id request)
          (\<lambda>c. c\<lparr>gc_released_at := Some now\<rparr>) (allocation_gpu_claims db),
        attempts := update_where (\<lambda>a. a_attempt_id a = attempt_id) (co_attempt out) (attempts db),
        result_reservations := (if j_state (ct_job t) = J_PAUSING
          then abandon_results attempt_id (result_reservations db) else result_reservations db),
        retry_schedules := retry_schedules db @ (case co_retry out of None \<Rightarrow> [] | Some r \<Rightarrow> [r])\<rparr>"

definition finish_rows :: "db \<Rightarrow> cleanup_tuple \<Rightarrow> uuid \<Rightarrow> cleanup_request \<Rightarrow> timestamp \<Rightarrow> db" where
  "finish_rows db t attempt_id request now =
     db\<lparr>container_identities := (case (ct_container t, pf_kind (cq_proof request)) of
            (Some _, ContainerStopped _ stopped_at) \<Rightarrow>
              update_where (\<lambda>c. c_attempt_id c = attempt_id)
                (\<lambda>c. c\<lparr>c_stopped_at := Some stopped_at, c_verified_at := Some now\<rparr>) (container_identities db)
          | _ \<Rightarrow> container_identities db),
        attempt_leases := (if l_revoked_at (ct_lease t) = None
          then update_where (\<lambda>l. l_lease_id l = l_lease_id (ct_lease t)) (\<lambda>l. l\<lparr>l_revoked_at := Some now\<rparr>)
            (attempt_leases db)
          else attempt_leases db),
        attempt_authority_grants := end_grants attempt_id now (attempt_authority_grants db)\<rparr>"

definition release_locked ::
  "env \<Rightarrow> db \<Rightarrow> counter_row list \<Rightarrow> cleanup_tuple \<Rightarrow> uuid \<Rightarrow> uuid \<Rightarrow> cleanup_request \<Rightarrow> timestamp \<Rightarrow> db tx" where
  "release_locked env db counters t worker_id attempt_id request now =
     res_bind (account_locked db now (clk env 2)) (\<lambda>db1.
     res_bind (outcome_of env db1 t now) (\<lambda>out.
     let terminalized = (co_state out \<in> terminal_states \<and> j_state (ct_job t) \<notin> terminal_states) in
     res_bind (adjust_counters (release_rows db1 t attempt_id request out now) counters now
       (if terminalized then 1 else 0) 1) (\<lambda>db2.
     let db3 = (if terminalized
                then extend_retention db2 (j_job_id (ct_job t)) now (terminal_retention_days env) else db2);
         changes = (\<lambda>j. if terminalized then (co_changes out j)\<lparr>j_recovery_intent := None, j_terminal_at := Some now\<rparr>
                        else co_changes out j) in
     res_bind (rebase_locked db3 now (segment_ids env)) (\<lambda>db4.
     Inr (snd (worker_event (finish_rows db4 t attempt_id request now) (ct_job t) worker_id now
       ''ALLOCATION_RELEASED'' ''VERIFIED_CLEANUP'' False (\<lambda>j. (changes j)\<lparr>j_state := co_state out\<rparr>)))))))"

definition cleanup_guard :: "db \<Rightarrow> cleanup_tuple \<Rightarrow> uuid \<Rightarrow> unit tx" where
  "cleanup_guard db t attempt_id =
     (let job = ct_job t in
      if j_state job \<notin> terminal_states \<union> {J_RECOVERING, J_CANCELLING, J_PAUSING}
      then Inl (state_conflict ''Failure or completion must be committed before cleanup'')
      else if j_state job = J_PAUSING \<and> \<not> (j_desired_state job = D_PAUSED \<and> a_state (ct_attempt t) = A_STOPPING \<and>
        committed_checkpoint db (j_job_id job) (Some attempt_id))
      then Inl (state_conflict ''Pause checkpoint is not committed'')
      else Inr ())"

definition report_cleanup ::
  "env \<Rightarrow> db \<Rightarrow> uuid \<Rightarrow> string \<Rightarrow> uuid \<Rightarrow> uuid \<Rightarrow> string \<Rightarrow> cleanup_request \<Rightarrow> (acknowledgment \<times> db) tx" where
  "report_cleanup env db worker_id credential attempt_id callback_id payload_hash request =
     res_bind (begin_callback db (ids env 0) worker_id ''workerReportCleanup'' callback_id payload_hash)
     (\<lambda>(receipt, replay, db1).
     res_bind (lock_policy_counters db1 attempt_id) (\<lambda>(mode, counters).
     res_bind (worker_auth env db1 0 worker_id credential) (\<lambda>_.
     if cq_worker_id request \<noteq> worker_id \<or> cq_attempt_id request \<noteq> attempt_id then Inl cleanup_conflict
     else res_bind (cleanup_rows db1 worker_id attempt_id request) (\<lambda>t.
     if \<not> pred_option (Not \<circ> ack_verified) replay then Inr (the replay, db1)
     else let now = clk env 1; released = Ack_cleanup callback_id True S_RELEASED now in
     if mode = WRITE_FROZEN then Inl (state_conflict ''Writes are frozen'')
     else if al_state (ct_allocation t) = S_RELEASED
     then res_bind (store_cleanup_acknowledgment db1 receipt replay worker_id callback_id released)
            (\<lambda>db2. Inr (released, db2))
     else res_bind (cleanup_guard db1 t attempt_id) (\<lambda>_.
     if j_state (ct_job t) = J_RECOVERING \<and> a_failure_class (ct_attempt t) = None
     then case replay of Some a \<Rightarrow> Inr (a, db1)
       | None \<Rightarrow> let response = Ack_cleanup callback_id False (al_state (ct_allocation t)) now in
           res_bind (complete_callback db1 (the receipt) response) (\<lambda>db2. Inr (response, db2))
     else res_bind (release_locked env db1 counters t worker_id attempt_id request now) (\<lambda>db2.
       res_bind (store_cleanup_acknowledgment db2 receipt replay worker_id callback_id released)
         (\<lambda>db3. Inr (released, db3))))))))"

end
