(* ===== verification/Scheduling_Domain.thy ===== *)
theory Scheduling_Domain
  imports Decimal50
begin

section \<open>The scheduling domain\<close>

text \<open>
  The frozen dataclasses of \<^verbatim>\<open>src/src/nexa/domain/scheduling.py\<close>.  \<^verbatim>\<open>ResourceCapacity\<close> and
  \<^verbatim>\<open>ResourceRequest\<close> have the same three integer fields and the code mixes them freely, so both
  are the record \<open>resource_vector\<close>.  Field names shared by several dataclasses carry a short
  prefix.  A \<^verbatim>\<open>Decimal\<close> field is a \<open>decimal\<close>, because the validation must reject
  non-finite values.  \<^verbatim>\<open>Ok\<close> and \<^verbatim>\<open>Err\<close> are the two sides of a sum.
\<close>

record resource_vector =
  cpu_millis :: int
  memory_bytes :: int
  gpu_count :: int

type_synonym ResourceCapacity = resource_vector
type_synonym ResourceRequest = resource_vector

datatype AllocationState = HELD | QUARANTINED

record HeldAllocation =
  alloc_id :: string
  alloc_tenant_id :: string
  alloc_resources :: ResourceRequest
  gpu_uuids :: "string list"
  alloc_state :: AllocationState

record TenantLedger =
  ledger_tenant_id :: string
  virtual_score :: decimal
  accounted_through_ms :: int
  had_eligible_demand :: bool

record TenantPolicySnapshot =
  limit_tenant_id :: string
  weight :: decimal
  resource_quota :: ResourceCapacity
  max_active_attempts :: int
  max_user_active_attempts :: int
  artifact_quota_available :: bool

datatype CandidateState = Candidate_QUEUED | Candidate_CANCELLED

record Candidate =
  job_id :: string
  cand_tenant_id :: string
  user_id :: string
  job_version :: int
  ready_sequence :: int
  resources :: ResourceRequest
  base_priority :: int
  eligible_wait_seconds :: int
  retry_ready_at_ms :: int
  template_version :: int
  required_capabilities :: "string set"
  tenant_active_attempts :: int
  user_active_attempts :: int
  cand_state :: CandidateState
  template_compatible :: bool
  capabilities_compatible :: bool
  policy_compatible :: bool

record CandidateWindow =
  normal :: "Candidate list"
  oldest_eligible :: "Candidate option"
  continuation_cursor :: "string option"

record ReservationSnapshot =
  reservation_id :: string
  res_job_id :: string
  res_tenant_id :: string
  res_policy_version :: int
  invalid_reason :: "string option"

record SchedulingSnapshot =
  policy_version :: int
  allocatable_capacity :: ResourceCapacity
  held_allocations :: "HeldAllocation list"
  tenant_ledgers :: "TenantLedger list"
  tenant_limits :: "TenantPolicySnapshot list"
  candidates_by_tenant :: "(string \<times> CandidateWindow) list"
  active_reservation :: "ReservationSnapshot option"
  virtual_floor :: decimal

text \<open>
  \<open>Dispatch job_id expected_job_version expected_policy_version reservation_id\<close>,
  \<open>CreateReservation job_id tenant_id reason\<close>,
  \<open>DrainForReservation reservation_id job_id\<close>,
  \<open>InvalidateReservation reservation_id reason\<close> and
  \<open>NoDecision reason continuation_cursors\<close>.
\<close>

datatype SchedulingDecision =
    Dispatch string int int "string option"
  | CreateReservation string string string
  | DrainForReservation string string
  | InvalidateReservation string string
  | NoDecision string "(string \<times> string) list"

datatype PolicyError =
    InvalidSnapshot string
  | AccountingRegression string int int
  | DuplicateGpuUuid string
  | NonPositiveWeight string decimal
  | CandidateBoundExceeded string nat

end
