(* ===== verification/Coordinator_Dispatch.thy ===== *)
theory Coordinator_Dispatch
  imports Execution_Cleanup Scheduling_Domain
begin

section \<open>Effects of an accepted decision\<close>

text \<open>
  \<^verbatim>\<open>src/src/nexa/coordinator/dispatch.py\<close>: a dispatch creates the attempt, its allocation, its lease and
  its authority grant under a new fence, counts the attempt and rebases the held-resource segments; a
  reservation is made or given up with an event of its job.
\<close>

definition dispatchable :: "(desired_state \<times> intent option) set" where
  "dispatchable = {(D_RUNNING, None), (D_PAUSED, Some CHECKPOINT_FOR_PAUSE)}"

definition coordinator_event ::
  "db \<Rightarrow> job_row option \<Rightarrow> timestamp \<Rightarrow> uuid \<Rightarrow> string \<Rightarrow> string option \<Rightarrow> bool \<Rightarrow> (job_row \<Rightarrow> job_row) \<Rightarrow> db" where
  "coordinator_event db job now holder_id event_type reason keep_version changes =
     (case job of None \<Rightarrow> db
      | Some j \<Rightarrow> record_event db j (COORDINATOR holder_id) now now event_type reason event_type reason
          keep_version changes)"

definition invalidate_reservation :: "db \<Rightarrow> uuid \<Rightarrow> timestamp \<Rightarrow> string \<Rightarrow> db" where
  "invalidate_reservation db res_id now reason =
     db\<lparr>reservations := update_where (\<lambda>r. r_reservation_id r = res_id \<and> r_invalidated_at r = None)
          (\<lambda>r. r\<lparr>r_invalidated_at := Some now, r_invalidation_reason := Some reason\<rparr>) (reservations db)\<rparr>"

definition create_reservation :: "env \<Rightarrow> db \<Rightarrow> job_row \<Rightarrow> timestamp \<Rightarrow> db" where
  "create_reservation env db job now =
     db\<lparr>reservations := reservations db @ [\<lparr>r_reservation_id = ids env 0, r_tenant_id = j_tenant_id job,
       r_job_id = j_job_id job,
       r_eligibility_since = (case j_eligible_since job of None \<Rightarrow> now | Some e \<Rightarrow> e),
       r_policy_version = pv_policy_version (policy db), r_created_at = now, r_invalidated_at = None,
       r_invalidation_reason = None\<rparr>]\<rparr>"

fun count_attempt :: "timestamp \<Rightarrow> db \<Rightarrow> scope list \<Rightarrow> db tx" where
  "count_attempt now db [] = Inr db"
| "count_attempt now db (s # ss) =
     (if length (filter (\<lambda>k. k_scope k = s) (admission_counters db)) \<noteq> 1
      then Inl (RuntimeError ''missing admitted job counter'')
      else count_attempt now (db\<lparr>admission_counters := update_where (\<lambda>k. k_scope k = s)
        (\<lambda>k. k\<lparr>k_active_attempts := k_active_attempts k + 1, k_version := k_version k + 1, k_updated_at := now\<rparr>)
        (admission_counters db)\<rparr>) ss)"

definition next_attempt_number :: "db \<Rightarrow> uuid \<Rightarrow> int" where
  "next_attempt_number db jid =
     max_default 0 (map a_attempt_number (filter (\<lambda>a. a_job_id a = jid) (attempts db))) + 1"

definition new_attempt ::
  "env \<Rightarrow> db \<Rightarrow> job_row \<Rightarrow> worker_row \<Rightarrow> uuid \<Rightarrow> timestamp \<Rightarrow> int \<Rightarrow> attempt_row" where
  "new_attempt env db job worker incarnation now epoch =
     \<lparr>a_attempt_id = ids env 0, a_tenant_id = j_tenant_id job, a_job_id = j_job_id job,
      a_attempt_number = next_attempt_number db (j_job_id job), a_state = A_CREATED,
      a_execution_intent = (case j_recovery_intent job of None \<Rightarrow> RUN | Some i \<Rightarrow> i),
      a_worker_id = w_worker_id worker, a_worker_incarnation_id = incarnation, a_job_fence = j_job_fence job + 1,
      a_startup_nonce = ids env 3, a_failure_class = None, a_failure_reason = None, a_progress_sequence = 0,
      a_progress_snapshot = None, a_started_at = None, a_ended_at = None, a_created_at = now, a_updated_at = now,
      a_dispatch_coordinator_epoch = epoch, a_execution_context = None, a_claimed_at = None,
      a_executor_operation_sequence = None\<rparr>"

text \<open>The four rows of a dispatch.\<close>

definition dispatch_rows ::
  "env \<Rightarrow> db \<Rightarrow> job_row \<Rightarrow> worker_row \<Rightarrow> uuid \<Rightarrow> spec_row \<Rightarrow> timestamp \<Rightarrow> int \<Rightarrow> db" where
  "dispatch_rows env db job worker incarnation spec now epoch =
     (let fence = j_job_fence job + 1 in
      db\<lparr>attempts := attempts db @ [new_attempt env db job worker incarnation now epoch],
         allocations := allocations db @ [\<lparr>al_allocation_id = ids env 1, al_tenant_id = j_tenant_id job,
           al_job_id = j_job_id job, al_attempt_id = ids env 0, al_worker_id = w_worker_id worker,
           al_cpu_millis = sp_cpu_millis spec, al_memory_bytes = sp_memory_bytes spec, al_gpu_count = 0,
           al_state = S_HELD, al_held_at = now, al_quarantined_at = None, al_released_at = None,
           al_release_reason = None\<rparr>],
         attempt_leases := attempt_leases db @ [\<lparr>l_lease_id = ids env 2, l_tenant_id = j_tenant_id job,
           l_job_id = j_job_id job, l_attempt_id = ids env 0, l_allocation_id = ids env 1,
           l_worker_id = w_worker_id worker, l_current_worker_incarnation_id = incarnation, l_job_fence = fence,
           l_issued_at = now, l_expires_at = now + seconds 45, l_revoked_at = None, l_revoke_reason = None\<rparr>],
         attempt_authority_grants := attempt_authority_grants db @ [\<lparr>g_grant_id = ids env 4,
           g_tenant_id = j_tenant_id job, g_job_id = j_job_id job, g_attempt_id = ids env 0,
           g_allocation_id = ids env 1, g_lease_id = ids env 2, g_worker_id = w_worker_id worker,
           g_worker_incarnation_id = incarnation, g_job_fence = fence, g_predecessor_grant_id = None,
           g_callback_id = ids env 5, g_granted_at = now, g_ended_at = None\<rparr>]\<rparr>)"

definition dispatch_job ::
  "env \<Rightarrow> db \<Rightarrow> worker_row \<Rightarrow> job_row \<Rightarrow> timestamp \<Rightarrow> int \<Rightarrow> uuid \<Rightarrow> int \<Rightarrow> uuid option \<Rightarrow> db tx" where
  "dispatch_job env db worker job now epoch holder_id expected_job_version res_id =
     (if j_state job \<noteq> J_QUEUED \<or> (j_desired_state job, j_recovery_intent job) \<notin> dispatchable \<or>
         j_version job \<noteq> expected_job_version
      then Inl (RuntimeError ''stale dispatch proposal'')
      else if list_ex (\<lambda>g. g_job_id g = j_job_id job \<and> g_ended_at g = None) (attempt_authority_grants db)
      then Inl (RuntimeError ''job already has live authority'')
      else res_bind (one (filter (\<lambda>sp. sp_job_id sp = j_job_id job) (job_specs db))) (\<lambda>spec.
      if sp_gpu_count spec \<noteq> 0 then Inl (RuntimeError ''B11 CPU dispatch cannot grant a GPU'')
      else case w_current_incarnation_id worker of
        None \<Rightarrow> Inl (IntegrityError ''attempt_leases.current_worker_incarnation_id'')
      | Some incarnation \<Rightarrow>
      res_bind (count_attempt now (dispatch_rows env db job worker incarnation spec now epoch) (counter_scopes job)) (\<lambda>db1.
      let db2 = coordinator_event db1 (Some job) now holder_id ''JOB_DISPATCHING'' None False
            (\<lambda>j. j\<lparr>j_state := J_DISPATCHING, j_job_fence := j_job_fence job + 1, j_waiting_reason := None\<rparr>);
          db3 = (case res_id of None \<Rightarrow> db2
            | Some r \<Rightarrow> if r = [] then db2 else invalidate_reservation db2 r now ''dispatched'')
      in rebase_locked db3 now (segment_ids env))))"

definition apply_decision ::
  "env \<Rightarrow> db \<Rightarrow> SchedulingDecision \<Rightarrow> worker_row \<Rightarrow> job_row option \<Rightarrow> timestamp \<Rightarrow> int \<Rightarrow> uuid \<Rightarrow> db tx" where
  "apply_decision env db decision worker job now epoch holder_id = (case decision of
     InvalidateReservation res_id reason \<Rightarrow>
       Inr (coordinator_event (invalidate_reservation db res_id now reason) job now holder_id
         ''RESERVATION_INVALIDATED'' (Some reason) False id)
   | CreateReservation _ _ reason \<Rightarrow>
       (case job of None \<Rightarrow> Inl (TypeError ''NoneType'')
        | Some j \<Rightarrow> Inr (coordinator_event (create_reservation env db j now) job now holder_id
            ''RESERVATION_CREATED'' (Some reason) False id))
   | Dispatch _ expected_job_version _ res_id \<Rightarrow>
       (case job of None \<Rightarrow> Inl (TypeError ''NoneType'')
        | Some j \<Rightarrow> dispatch_job env db worker j now epoch holder_id expected_job_version res_id)
   | _ \<Rightarrow> Inr db)"

end
