(* ===== verification/Request_Guards.thy ===== *)
theory Request_Guards
  imports Job_Recovery
begin

section \<open>Guards of user requests\<close>

text \<open>
  \<^verbatim>\<open>src/src/nexa/domain/identity.py\<close>, \<^verbatim>\<open>src/src/nexa/application/preconditions.py\<close> and
  \<^verbatim>\<open>src/src/nexa/application/idempotency.py\<close>: who may act for a tenant and which token scopes a caller may
  hand on, the version an \<^verbatim>\<open>If-Match\<close> header names, and the records that make a repeated request answer
  as its first execution did.
\<close>

subsection \<open>Identity\<close>

datatype CredentialKind = CK_BROWSER | CK_CLI | CK_WORKER | CK_BOOTSTRAP

datatype TokenScope = JOBS_READ | JOBS_WRITE | ARTIFACTS_READ | ARTIFACTS_WRITE | TOKENS_WRITE
  | ADMIN_READ | ADMIN_WRITE

record TenantMembership =
  tm_tenant_id :: uuid
  tm_role :: string

record Principal =
  pc_user_id :: "uuid option"
  pc_credential_kind :: CredentialKind
  pc_credential_id :: string
  pc_scopes :: "TokenScope set"
  pc_memberships :: "TenantMembership list"
  pc_system_admin :: bool

definition has_scope :: "Principal \<Rightarrow> TokenScope \<Rightarrow> bool" where
  "has_scope p s \<longleftrightarrow> s \<in> pc_scopes p"

fun scope_value :: "TokenScope \<Rightarrow> string" where
  "scope_value JOBS_READ = ''jobs:read''"
| "scope_value JOBS_WRITE = ''jobs:write''"
| "scope_value ARTIFACTS_READ = ''artifacts:read''"
| "scope_value ARTIFACTS_WRITE = ''artifacts:write''"
| "scope_value TOKENS_WRITE = ''tokens:write''"
| "scope_value ADMIN_READ = ''admin:read''"
| "scope_value ADMIN_WRITE = ''admin:write''"

definition require_admin :: "Principal \<Rightarrow> bool \<Rightarrow> (string, unit) result" where
  "require_admin p write =
     (if pc_user_id p = None \<or> \<not> pc_system_admin p then Inl ''An active SYSTEM_ADMIN grant is required''
      else if pc_credential_kind p = CK_BROWSER then Inr ()
      else if pc_credential_kind p \<noteq> CK_CLI then Inl ''This credential type cannot call admin operations''
      else let required = (if write then ADMIN_WRITE else ADMIN_READ) in
        if \<not> has_scope p required then Inl (''The exact '' @ scope_value required @ '' scope is required'')
        else Inr ())"

definition require_tenant_membership :: "Principal \<Rightarrow> uuid \<Rightarrow> (string, TenantMembership) result" where
  "require_tenant_membership p tenant_id =
     (if pc_credential_kind p \<notin> {CK_BROWSER, CK_CLI}
      then Inl ''This credential type has no tenant membership authority''
      else case find (\<lambda>m. tm_tenant_id m = tenant_id) (pc_memberships p) of
          Some m \<Rightarrow> Inr m | None \<Rightarrow> Inl ''An active target-tenant membership is required'')"

definition browser_scopes :: "Principal \<Rightarrow> TokenScope set" where
  "browser_scopes p = {TOKENS_WRITE} \<union>
     (if pc_memberships p \<noteq> [] then {JOBS_READ, JOBS_WRITE, ARTIFACTS_READ, ARTIFACTS_WRITE} else {}) \<union>
     (if pc_system_admin p then {ADMIN_READ, ADMIN_WRITE} else {})"

definition validate_requested_token_scopes :: "Principal \<Rightarrow> TokenScope set \<Rightarrow> (string, unit) result" where
  "validate_requested_token_scopes p requested =
     (if requested = {} then Inl ''At least one token scope is required''
      else let exceeds = ''Requested scopes exceed the caller's current authority'' in
        case pc_credential_kind p of
          CK_CLI \<Rightarrow>
            if TOKENS_WRITE \<notin> pc_scopes p then Inl ''The exact tokens:write scope is required''
            else if \<not> requested \<subseteq> pc_scopes p then Inl exceeds else Inr ()
        | CK_BROWSER \<Rightarrow> if \<not> requested \<subseteq> browser_scopes p then Inl exceeds else Inr ()
        | _ \<Rightarrow> Inl ''This credential type cannot create CLI tokens'')"

subsection \<open>Preconditions\<close>

text \<open>Decimal numerals.\<close>

definition digit :: "nat \<Rightarrow> char" where
  "digit n = char_of (48 + n)"

fun show_nat :: "nat \<Rightarrow> string" where
  "show_nat n = (if n < 10 then [digit n] else show_nat (n div 10) @ [digit (n mod 10)])"

declare show_nat.simps [simp del]

definition digit_value :: "char \<Rightarrow> nat" where
  "digit_value c = of_char c - 48"

definition parse_digits :: "string \<Rightarrow> nat" where
  "parse_digits = foldl (\<lambda>v c. v * 10 + digit_value c) 0"

definition is_digit :: "char \<Rightarrow> bool" where
  "is_digit c \<longleftrightarrow> 48 \<le> (of_char c :: nat) \<and> (of_char c :: nat) \<le> 57"

text \<open>The interpreter's limit on converting a string to an integer.\<close>

definition int_max_str_digits :: nat where
  "int_max_str_digits = 4300"

datatype expected_version = ExactVersion int | VersionPrecondition "string option"

definition quote :: char where
  "quote = CHR 0x22"

definition etag :: "int \<Rightarrow> string" where
  "etag version = [quote, CHR ''v''] @ show_nat (nat version) @ [quote]"

text \<open>The digits of a string that matches \<^verbatim>\<open>"v([1-9][0-9]*)"\<close>.\<close>

definition etag_digits :: "string \<Rightarrow> string option" where
  "etag_digits s = (case s of
     q # v # rest \<Rightarrow>
       if q = quote \<and> v = CHR ''v'' \<and> rest \<noteq> [] \<and> last rest = quote then
         let ds = butlast rest in
         if ds \<noteq> [] \<and> list_all is_digit ds \<and> hd ds \<noteq> CHR ''0'' then Some ds else None
       else None
   | _ \<Rightarrow> None)"

definition resolve_expected_version :: "expected_version \<Rightarrow> int tx" where
  "resolve_expected_version value = (case value of
     ExactVersion n \<Rightarrow> if n < 1 then Inl (ValueError ''Expected version must be positive'') else Inr n
   | VersionPrecondition None \<Rightarrow> Inl (ApplicationError ''precondition_required'' 428 ''If-Match is required'')
   | VersionPrecondition (Some raw) \<Rightarrow>
       (case etag_digits raw of
          None \<Rightarrow> Inl (ApplicationError ''validation_failed'' 400 ''If-Match must be a strong version ETag'')
        | Some ds \<Rightarrow> if length ds > int_max_str_digits
            then Inl (ValueError ''Exceeds the limit for integer string conversion'')
            else Inr (int (parse_digits ds))))"

subsection \<open>Idempotency\<close>

definition visible_ascii :: "char \<Rightarrow> bool" where
  "visible_ascii c \<longleftrightarrow> 33 \<le> (of_char c :: nat) \<and> (of_char c :: nat) \<le> 126"

definition valid_key :: "string \<Rightarrow> bool" where
  "valid_key key \<longleftrightarrow> 16 \<le> length key \<and> length key \<le> 128 \<and> list_all visible_ascii key"

definition is_hex :: "char \<Rightarrow> bool" where
  "is_hex c \<longleftrightarrow> is_digit c \<or> 97 \<le> (of_char c :: nat) \<and> (of_char c :: nat) \<le> 102"

definition valid_hash :: "string \<Rightarrow> bool" where
  "valid_hash h \<longleftrightarrow> take 7 h = ''sha256:'' \<and> length h = 71 \<and> list_all is_hex (drop 7 h)"

record idempotency_scope =
  is_context :: string
  is_principal_id :: string
  is_operation_id :: string
  is_key :: string

definition in_scope :: "idempotency_scope \<Rightarrow> idempotency_row \<Rightarrow> bool" where
  "in_scope sc r \<longleftrightarrow> ik_context r = is_context sc \<and> ik_principal_id r = is_principal_id sc \<and>
     ik_operation_id r = is_operation_id sc \<and> ik_key r = is_key sc"

text \<open>The answer is the record of the request and, for a repeated one, the stored response.  In one
  transaction at a time a record that conflicts with the insert is there to be read.\<close>

definition begin_idempotency ::
  "db \<Rightarrow> uuid \<Rightarrow> idempotency_scope \<Rightarrow> string \<Rightarrow> timestamp \<Rightarrow> int \<Rightarrow>
   (uuid \<times> stored_response option \<times> db) tx" where
  "begin_idempotency db record_id sc request_hash expires_at pending_wait_milliseconds =
     (if \<not> valid_key (is_key sc) then Inl (ApplicationError ''validation_failed'' 422
        ''Idempotency-Key must contain 16 to 128 visible ASCII characters'')
      else if \<not> valid_hash request_hash then Inl (ValueError ''request_hash must be an RFC 8785 sha256 value'')
      else if \<not> (0 \<le> pending_wait_milliseconds \<and> pending_wait_milliseconds \<le> 30000)
      then Inl (ValueError ''pending_wait_milliseconds is outside the contract range'')
      else res_bind (one_or_none (filter (in_scope sc) (idempotency_records db))) (\<lambda>found.
      case found of None \<Rightarrow>
        Inr (record_id, None, db\<lparr>idempotency_records := idempotency_records db @
          [\<lparr>ik_idempotency_id = record_id, ik_context = is_context sc, ik_principal_id = is_principal_id sc,
            ik_operation_id = is_operation_id sc, ik_key = is_key sc, ik_request_hash = request_hash,
            ik_response = None, ik_resource_id = None, ik_one_time_secret = False,
            ik_expires_at = expires_at\<rparr>]\<rparr>)
      | Some row \<Rightarrow>
        if ik_request_hash row \<noteq> request_hash then Inl (ApplicationError ''idempotency_conflict'' 409
          ''Idempotency-Key was already used with a different request'')
        else case ik_response row of
            None \<Rightarrow> Inl (ApplicationError ''idempotency_in_progress'' 409
              ''An identical request is still in progress'')
          | Some response \<Rightarrow>
              if ik_one_time_secret row then Inl (ApplicationError ''one_time_secret_unavailable'' 409
                ''The one-time secret was already committed and cannot be replayed'')
              else Inr (ik_idempotency_id row, Some response, db)))"

definition complete_idempotency ::
  "db \<Rightarrow> uuid \<Rightarrow> stored_response \<Rightarrow> uuid option \<Rightarrow> bool \<Rightarrow> db tx" where
  "complete_idempotency db record_id response resource_id one_time_secret =
     (let p = (\<lambda>r. ik_idempotency_id r = record_id \<and> ik_response r = None) in
      if \<not> (100 \<le> sr_status response \<and> sr_status response \<le> 599)
      then Inl (ValueError ''response status is outside the HTTP range'')
      else if length (filter p (idempotency_records db)) \<noteq> 1
      then Inl (RuntimeError ''Idempotency record is not pending'')
      else Inr (db\<lparr>idempotency_records := update_where p
             (\<lambda>r. r\<lparr>ik_response := Some response, ik_resource_id := resource_id,
                    ik_one_time_secret := one_time_secret\<rparr>) (idempotency_records db)\<rparr>))"

end
