(* ===== verification/Job_Admission.thy ===== *)
theory Job_Admission
  imports Request_Guards Execution_Cleanup
begin

section \<open>Admission of jobs\<close>

text \<open>
  \<^verbatim>\<open>src/src/nexa/application/job_service.py\<close>: authorization of a request, the admission counters and
  token buckets, the reason a new job waits for, and the transaction that accepts a job.  The
  revalidation of a principal, the validation of a specification against its template and artifacts,
  the matching of inventory capabilities and the storage checks are a record of functions.
\<close>

record submit_spec =
  js_template_id :: string
  js_template_version :: int
  js_input_artifact_id :: uuid
  js_model_artifact_id :: "uuid option"
  js_cpu_millis :: int
  js_memory_bytes :: int
  js_gpu_count :: int
  js_priority :: int
  js_runtime_limit_seconds :: int
  js_checkpoint_interval_seconds :: "int option"
  js_payload :: string
  js_checksum :: string

record services =
  sv_revalidate :: "db \<Rightarrow> Principal \<Rightarrow> Principal tx"
  sv_validate_spec :: "db \<Rightarrow> uuid \<Rightarrow> submit_spec \<Rightarrow> (template_row \<times> uuid \<times> uuid option) tx"
  sv_requirements :: "template_row \<Rightarrow> string tx"
  sv_supports :: "inventory_row \<Rightarrow> string \<Rightarrow> bool"
  sv_enforce_storage :: "db \<Rightarrow> uuid \<Rightarrow> unit tx"
  sv_pending_wait_milliseconds :: int

definition permission_denied :: "string \<Rightarrow> tx_error" where
  "permission_denied m = ApplicationError ''permission_denied'' 403 m"

definition authorize :: "services \<Rightarrow> db \<Rightarrow> Principal \<Rightarrow> uuid \<Rightarrow> bool \<Rightarrow> Principal tx" where
  "authorize sv db caller tenant_id write =
     res_bind (sv_revalidate sv db caller) (\<lambda>live.
     case require_tenant_membership live tenant_id of
       Inl _ \<Rightarrow> Inl (permission_denied ''Active tenant membership is required'')
     | Inr _ \<Rightarrow>
         let required = (if write then JOBS_WRITE else JOBS_READ) in
         if pc_credential_kind live = CK_CLI \<and> \<not> has_scope live required
         then Inl (permission_denied (''The exact '' @ scope_value required @ '' scope is required''))
         else Inr live)"

text \<open>The user of a principal, as the source prints it.\<close>

definition user_of :: "Principal \<Rightarrow> uuid" where
  "user_of p = (case pc_user_id p of None \<Rightarrow> ''None'' | Some u \<Rightarrow> u)"

subsection \<open>Counters and token buckets\<close>

definition counter_lock :: "env \<Rightarrow> db \<Rightarrow> scope \<Rightarrow> (counter_row \<times> db) tx" where
  "counter_lock env db s =
     (let db1 = (if list_ex (\<lambda>k. k_scope k = s) (admission_counters db) then db
                 else db\<lparr>admission_counters := admission_counters db @ [\<lparr>k_scope = s, k_outstanding = 0,
                   k_active_attempts = 0, k_version = 1, k_updated_at = started env\<rparr>]\<rparr>)
      in res_bind (one (filter (\<lambda>k. k_scope k = s) (admission_counters db1))) (\<lambda>row. Inr (row, db1)))"

text \<open>Decimal arithmetic in the default context of twenty-eight digits.\<close>

definition rnd28 :: "rat \<Rightarrow> rat" where
  "rnd28 = dec_round 28"

text \<open>The seconds between two times; their float is exact to the microsecond for spans below thirty
  years, so that its shortest representation is the exact value.\<close>

definition elapsed_between :: "timestamp \<Rightarrow> timestamp \<Rightarrow> rat" where
  "elapsed_between start now = max 0 (of_int (now - start) / 1000000)"

definition refilled :: "rate_row \<Rightarrow> rat \<Rightarrow> rat \<Rightarrow> timestamp \<Rightarrow> rat" where
  "refilled row capacity refill_rate now =
     max 0 (min capacity (rnd28 (rb_tokens row + rnd28 (elapsed_between (rb_last_refill_at row) now * refill_rate))))"

definition rate_lock :: "db \<Rightarrow> scope \<Rightarrow> rat \<Rightarrow> rat \<Rightarrow> timestamp \<Rightarrow> (rat \<times> db) tx" where
  "rate_lock db s capacity refill_rate now =
     (let db1 = (if list_ex (\<lambda>b. rb_scope b = s) (rate_buckets db) then db
                 else db\<lparr>rate_buckets := rate_buckets db @ [\<lparr>rb_scope = s, rb_tokens = capacity,
                   rb_capacity = capacity, rb_refill_rate = refill_rate, rb_last_refill_at = now, rb_version = 1,
                   rb_updated_at = now\<rparr>]\<rparr>)
      in res_bind (one (filter (\<lambda>b. rb_scope b = s) (rate_buckets db1))) (\<lambda>row.
      let tokens = refilled row capacity refill_rate now in
      if tokens < 1 then Inl (ApplicationError ''rate_limited'' 429 ''Submit rate limit exceeded'')
      else Inr (rnd28 (tokens - 1), db1\<lparr>rate_buckets := update_where (\<lambda>b. rb_scope b = s)
        (\<lambda>b. b\<lparr>rb_tokens := rnd28 (tokens - 1), rb_capacity := capacity, rb_refill_rate := refill_rate,
               rb_last_refill_at := now, rb_updated_at := now, rb_version := rb_version b + 1\<rparr>)
        (rate_buckets db1)\<rparr>)))"

definition admission_limits ::
  "db \<Rightarrow> tenant_policy_row \<Rightarrow> counter_row \<Rightarrow> counter_row \<Rightarrow> counter_row \<Rightarrow> unit tx" where
  "admission_limits db tp global_counter tenant_counter user_counter =
     (if k_outstanding global_counter \<ge> pv_global_outstanding_limit (policy db)
      then Inl (ApplicationError ''queue_full'' 503 ''The durable queue is full'')
      else if k_outstanding tenant_counter \<ge> tp_outstanding_limit tp
      then Inl (ApplicationError ''quota_exceeded'' 429 ''Tenant outstanding quota exceeded'')
      else if k_outstanding user_counter \<ge> tp_user_outstanding_limit tp
      then Inl (ApplicationError ''quota_exceeded'' 429 ''User outstanding quota exceeded'')
      else Inr ())"

definition admit ::
  "services \<Rightarrow> env \<Rightarrow> db \<Rightarrow> Principal \<Rightarrow> uuid \<Rightarrow> bool \<Rightarrow> (tenant_policy_row \<times> counter_row \<times> db) tx" where
  "admit sv env db live tenant_id check_storage =
     (let user_scope = USER tenant_id (user_of live) in
     if operational_mode_of db \<in> {ADMISSION_OFF, WRITE_FROZEN}
     then Inl (state_conflict ''New job submissions are disabled in the current operational mode'')
     else res_bind (if check_storage then sv_enforce_storage sv db tenant_id else Inr ()) (\<lambda>_.
     res_bind (one_or_none (filter (\<lambda>p. tp_tenant_id p = tenant_id) (tenant_policies db))) (\<lambda>row.
     case row of None \<Rightarrow> Inl (dependency_unavailable ''Tenant admission policy is unavailable'')
     | Some tp \<Rightarrow>
     res_bind (counter_lock env db GLOBAL) (\<lambda>(global_counter, db1).
     res_bind (counter_lock env db1 (TENANT tenant_id)) (\<lambda>(tenant_counter, db2).
     res_bind (counter_lock env db2 user_scope) (\<lambda>(user_counter, db3).
     res_bind (admission_limits db3 tp global_counter tenant_counter user_counter) (\<lambda>_.
     res_bind (rate_lock db3 (TENANT tenant_id) (tp_tenant_rate_burst tp) (tp_tenant_rate_per_second tp) (clk env 0)) (\<lambda>(_, db4).
     res_bind (rate_lock db4 user_scope (tp_user_rate_burst tp) (tp_user_rate_per_second tp) (clk env 1)) (\<lambda>(_, db5).
     Inr (tp, global_counter, db5))))))))))"

subsection \<open>Creating a job\<close>

definition worker_is_ready :: "worker_row \<Rightarrow> timestamp \<Rightarrow> bool" where
  "worker_is_ready w now \<longleftrightarrow> w_health w = READY \<and> w_admin_state w = ENABLED \<and>
     (case w_last_heartbeat_at w of None \<Rightarrow> False | Some h \<Rightarrow> h \<ge> now - seconds 30)"

definition configured_workers :: "db \<Rightarrow> (worker_row \<times> inventory_row) list" where
  "configured_workers db = concat (map (\<lambda>w. map (\<lambda>iv. (w, iv)) (filter (\<lambda>iv. iv_worker_id iv = w_worker_id w \<and>
       Some (iv_worker_incarnation_id iv) = w_current_incarnation_id w \<and>
       Some (iv_inventory_version iv) = w_current_inventory_version w) (worker_inventories db)))
     (filter (\<lambda>w. w_admin_state w \<noteq> DISABLED) (workers db)))"

definition waiting_reason :: "services \<Rightarrow> env \<Rightarrow> db \<Rightarrow> submit_spec \<Rightarrow> string \<Rightarrow> string option tx" where
  "waiting_reason sv env db spec requirements =
     (let rows = configured_workers db;
          capable = filter (\<lambda>(w, iv). iv_allocatable_cpu_millis iv \<ge> js_cpu_millis spec \<and>
            iv_allocatable_memory_bytes iv \<ge> js_memory_bytes spec \<and>
            iv_allocatable_gpu_count iv \<ge> js_gpu_count spec \<and> sv_supports sv iv requirements) rows in
      if rows = [] then
        if js_gpu_count spec \<noteq> 0
        then Inl (ApplicationError ''infeasible_request'' 422 ''No configured GPU can satisfy the request'')
        else Inr (Some ''waiting_for_worker'')
      else if capable = []
      then Inl (ApplicationError ''infeasible_request'' 422 ''No configured worker can satisfy the request'')
      else if list_ex (\<lambda>(w, iv). worker_is_ready w (started env)) capable then Inr None
      else Inr (Some ''waiting_for_worker''))"

definition exceeds_tenant_limit :: "tenant_policy_row \<Rightarrow> submit_spec \<Rightarrow> bool" where
  "exceeds_tenant_limit tp spec \<longleftrightarrow> js_cpu_millis spec > tp_cpu_limit_millis tp \<or>
     js_memory_bytes spec > tp_memory_limit_bytes tp \<or> js_gpu_count spec > tp_gpu_limit tp"

definition new_job ::
  "uuid \<Rightarrow> uuid \<Rightarrow> uuid \<Rightarrow> string option \<Rightarrow> uuid option \<Rightarrow> int \<Rightarrow> int \<Rightarrow> timestamp \<Rightarrow> job_row" where
  "new_job job_id tenant_id user_id waiting retry_of priority ready_sequence now =
     \<lparr>j_job_id = job_id, j_tenant_id = tenant_id, j_submitter_user_id = user_id, j_state = J_QUEUED,
      j_desired_state = D_RUNNING, j_waiting_reason = waiting, j_recovery_intent = None, j_version = 1,
      j_job_fence = 0, j_event_sequence = 1, j_checkpoint_sequence = 0, j_retry_count = 0, j_max_retries = 2,
      j_retry_of_job_id = retry_of, j_base_priority = priority, j_ready_sequence = ready_sequence,
      j_eligible_since = Some now, j_retry_ready_at = None, j_terminal_at = None, j_created_at = now,
      j_updated_at = now\<rparr>"

definition spec_references :: "uuid \<Rightarrow> uuid \<Rightarrow> uuid \<Rightarrow> uuid option \<Rightarrow> artifact_reference_row list" where
  "spec_references tenant_id job_id input model =
     \<lparr>af_tenant_id = tenant_id, af_artifact_id = input, af_owner = JOB_SPEC job_id, af_purpose = ''INPUT'',
      af_logical_name = ''input.data''\<rparr> #
     (case model of None \<Rightarrow> [] | Some m \<Rightarrow>
       [\<lparr>af_tenant_id = tenant_id, af_artifact_id = m, af_owner = JOB_SPEC job_id, af_purpose = ''MODEL'',
         af_logical_name = ''model.data''\<rparr>])"

text \<open>The statements that insert the job graph.\<close>

definition job_rows ::
  "db \<Rightarrow> job_row \<Rightarrow> uuid \<Rightarrow> submit_spec \<Rightarrow> uuid \<Rightarrow> uuid option \<Rightarrow> string \<Rightarrow> string \<Rightarrow> string \<Rightarrow> timestamp \<Rightarrow> db" where
  "job_rows db job session_id spec input model event_reason action audit_reason now =
     db\<lparr>jobs := jobs db @ [job],
        logical_sessions := logical_sessions db @ [\<lparr>ls_session_id = session_id, ls_tenant_id = j_tenant_id job,
          ls_job_id = j_job_id job\<rparr>],
        job_specs := job_specs db @ [\<lparr>sp_job_id = j_job_id job, sp_tenant_id = j_tenant_id job,
          sp_canonical_spec = js_payload spec, sp_spec_checksum = js_checksum spec,
          sp_template_id = js_template_id spec, sp_template_version = js_template_version spec,
          sp_input_artifact_id = Some (js_input_artifact_id spec), sp_model_artifact_id = js_model_artifact_id spec,
          sp_cpu_millis = js_cpu_millis spec, sp_memory_bytes = js_memory_bytes spec, sp_gpu_count = js_gpu_count spec,
          sp_runtime_limit_seconds = js_runtime_limit_seconds spec,
          sp_checkpoint_interval_seconds = js_checkpoint_interval_seconds spec\<rparr>],
        artifact_references := artifact_references db @
          spec_references (j_tenant_id job) (j_job_id job) input model,
        events := events db @ [\<lparr>e_tenant_id = j_tenant_id job, e_job_id = j_job_id job, e_sequence = 1,
          e_event_type = ''JOB_ACCEPTED'', e_reason = Some event_reason,
          e_actor = USER_ACTOR (j_submitter_user_id job), e_created_at = now\<rparr>],
        admission_counters := update_where (\<lambda>k. k_scope k \<in> set (counter_scopes job))
          (\<lambda>k. k\<lparr>k_outstanding := k_outstanding k + 1, k_version := k_version k + 1, k_updated_at := now\<rparr>)
          (admission_counters db),
        audit_records := audit_records db @ [\<lparr>u_actor = USER_ACTOR (j_submitter_user_id job),
          u_tenant_id = Some (j_tenant_id job), u_action = action, u_target_id = j_job_id job, u_before_version = None,
          u_after_version = 1, u_reason = Some audit_reason, u_created_at = now\<rparr>]\<rparr>"

definition create_job ::
  "services \<Rightarrow> env \<Rightarrow> db \<Rightarrow> Principal \<Rightarrow> uuid \<Rightarrow> uuid \<Rightarrow> uuid \<Rightarrow> submit_spec \<Rightarrow> tenant_policy_row \<Rightarrow> counter_row \<Rightarrow>
   uuid option \<Rightarrow> string \<Rightarrow> string \<Rightarrow> string \<Rightarrow> db tx" where
  "create_job sv env db live tenant_id job_id session_id spec tp global_counter retry_of event_reason action
     audit_reason =
     res_bind (sv_validate_spec sv db tenant_id spec) (\<lambda>(template, input, model).
     if exceeds_tenant_limit tp spec
     then Inl (ApplicationError ''infeasible_request'' 422 ''Requested resources exceed the tenant limit'')
     else res_bind (sv_requirements sv template) (\<lambda>requirements.
     res_bind (waiting_reason sv env db spec requirements) (\<lambda>waiting.
     Inr (job_rows db (new_job job_id tenant_id (user_of live) waiting retry_of (js_priority spec)
       (k_version global_counter) (started env)) session_id spec input model event_reason action audit_reason
       (started env)))))"

definition job_view_of :: "db \<Rightarrow> uuid \<Rightarrow> uuid \<Rightarrow> job_view tx" where
  "job_view_of db tenant_id job_id =
     one (concat (map (\<lambda>j. concat (map (\<lambda>sp. map (\<lambda>ls.
         \<lparr>v_job_id = j_job_id j, v_tenant_id = j_tenant_id j, v_user_id = j_submitter_user_id j,
          v_session_id = ls_session_id ls, v_state = j_state j, v_desired_state = j_desired_state j,
          v_waiting_reason = j_waiting_reason j, v_spec = sp_canonical_spec sp,
          v_spec_checksum = sp_spec_checksum sp, v_job_fence = j_job_fence j, v_retry_count = j_retry_count j,
          v_max_retries = j_max_retries j, v_retry_of_job_id = j_retry_of_job_id j, v_version = j_version j,
          v_event_sequence = j_event_sequence j, v_created_at = j_created_at j, v_updated_at = j_updated_at j\<rparr>)
         (filter (\<lambda>ls. ls_job_id ls = j_job_id j) (logical_sessions db)))
         (filter (\<lambda>sp. sp_job_id sp = j_job_id j) (job_specs db))))
       (filter (\<lambda>j. j_tenant_id j = tenant_id \<and> j_job_id j = job_id) (jobs db))))"

definition request_scope :: "uuid \<Rightarrow> Principal \<Rightarrow> string \<Rightarrow> string \<Rightarrow> idempotency_scope" where
  "request_scope tenant_id live operation_id key =
     \<lparr>is_context = tenant_id, is_principal_id = user_of live, is_operation_id = operation_id, is_key = key\<rparr>"

text \<open>\<open>ids env 0\<close> is the job, \<open>ids env 1\<close> its session and \<open>ids env 2\<close> the idempotency record.\<close>

definition submit ::
  "services \<Rightarrow> env \<Rightarrow> db \<Rightarrow> Principal \<Rightarrow> uuid \<Rightarrow> submit_spec \<Rightarrow> string \<Rightarrow> string \<Rightarrow> (stored_response \<times> db) tx" where
  "submit sv env db caller tenant_id spec idempotency_key request_hash =
     res_bind (authorize sv db caller tenant_id True) (\<lambda>live.
     res_bind (begin_idempotency db (ids env 2) (request_scope tenant_id live ''submitJob'' idempotency_key) request_hash
       (started env + days (terminal_retention_days env)) (sv_pending_wait_milliseconds sv)) (\<lambda>(record_id, replay, db1).
     case replay of Some response \<Rightarrow> Inr (response, db1)
     | None \<Rightarrow>
     res_bind (admit sv env db1 live tenant_id True) (\<lambda>(tp, global_counter, db2).
     res_bind (create_job sv env db2 live tenant_id (ids env 0) (ids env 1) spec tp global_counter None
       ''Job accepted'' ''job.submit'' ''Job accepted'') (\<lambda>db3.
     res_bind (job_view_of db3 tenant_id (ids env 0)) (\<lambda>body.
     let response = \<lparr>sr_status = 202, sr_body = Some (Job_body body),
           sr_headers = [(''Location'', ''/v1/jobs/'' @ ids env 0), (''ETag'', etag 1)]\<rparr> in
     res_bind (complete_idempotency db3 record_id response (Some (ids env 0)) False) (\<lambda>db4.
     Inr (response, db4)))))))"

end
