(* ===== verification/Coordinator_Recovery.thy ===== *)
theory Coordinator_Recovery
  imports Coordinator_Dispatch Job_Admission
begin

section \<open>Reaping leases, promoting retries, marking quotas\<close>

text \<open>
  \<^verbatim>\<open>src/src/nexa/coordinator/reaper.py\<close>, \<^verbatim>\<open>src/src/nexa/coordinator/retry.py\<close> and
  \<^verbatim>\<open>src/src/nexa/coordinator/artifact_quota.py\<close>: the maintenance steps a leading coordinator runs beside
  dispatch.  Whether a template runs on an inventory (\<^verbatim>\<open>JobService.template_runs_on\<close>) is an argument.
\<close>

subsection \<open>The lease reaper\<close>

definition reaper_batch_size :: nat where
  "reaper_batch_size = 16"

definition expired_leases :: "db \<Rightarrow> timestamp \<Rightarrow> nat \<Rightarrow> uuid list" where
  "expired_leases db now limit = take limit (map l_lease_id (sort_key (\<lambda>l. (l_expires_at l, l_lease_id l))
     (filter (\<lambda>l. l_revoked_at l = None \<and> l_expires_at l \<le> now) (attempt_leases db))))"

definition reaped_states :: "job_state set" where
  "reaped_states = {J_DISPATCHING, J_RUNNING, J_PAUSING}"

text \<open>\<open>now\<close> is the leadership check's reading of the clock after the row locks, or its error.\<close>

definition reap_lease_locked :: "db \<Rightarrow> uuid \<Rightarrow> uuid \<Rightarrow> timestamp tx \<Rightarrow> (bool \<times> db) tx" where
  "reap_lease_locked db lease_id holder_id now_fn =
     res_bind (one_or_none (filter (\<lambda>l. l_lease_id l = lease_id) (attempt_leases db))) (\<lambda>ref.
     case ref of None \<Rightarrow> Inr (False, db)
     | Some lease \<Rightarrow>
     res_bind (one (filter (\<lambda>j. j_job_id j = l_job_id lease) (jobs db))) (\<lambda>job.
     res_bind (one (filter (\<lambda>a. a_attempt_id a = l_attempt_id lease) (attempts db))) (\<lambda>attempt.
     res_bind now_fn (\<lambda>now.
     if l_revoked_at lease \<noteq> None \<or> l_expires_at lease > now then Inr (False, db)
     else if j_state job \<in> reaped_states \<and> a_job_fence attempt = j_job_fence job
     then Inr (True, coordinator_event
        (fence_attempt db (a_attempt_id attempt) now A_LOST INFRASTRUCTURE ''LEASE_EXPIRED'' ''LEASE_EXPIRED'')
        (Some job) now holder_id ''ATTEMPT_LOST'' (Some ''LEASE_EXPIRED'') False
        (\<lambda>j. j\<lparr>j_state := J_RECOVERING, j_job_fence := j_job_fence job + 1\<rparr>))
     else Inr (True, coordinator_event
        (revoke_leftover_authority db (a_attempt_id attempt) (l_allocation_id lease) now ''LEASE_EXPIRED'')
        (Some job) now holder_id ''LEASE_REVOKED'' (Some ''LEASE_EXPIRED'') True id)))))"

subsection \<open>Retry promotion\<close>

definition retry_batch_size :: nat where
  "retry_batch_size = 16"

definition blocked_reasons :: "string list" where
  "blocked_reasons = [''waiting_for_compatibility'', ''waiting_for_quota'']"

definition retry_due :: "timestamp \<Rightarrow> job_row \<Rightarrow> retry_row \<Rightarrow> bool" where
  "retry_due now j r \<longleftrightarrow> rs_closed_at r = None \<and> rs_ready_at r \<le> now \<and> rs_retry_number r = j_retry_count j \<and>
     j_state j = J_RETRY_WAIT \<and> (j_desired_state j, j_recovery_intent j) \<in> dispatchable"

text \<open>A reason that is \<^verbatim>\<open>NULL\<close> sorts last in the first column of the order.\<close>

definition retry_candidates :: "db \<Rightarrow> timestamp \<Rightarrow> nat \<Rightarrow> job_row list" where
  "retry_candidates db now limit = take limit (map fst
     (sort_key (\<lambda>(j, r). (case j_waiting_reason j of None \<Rightarrow> 2 :: nat
          | Some w \<Rightarrow> if w \<in> set blocked_reasons then 1 else 0, rs_ready_at r, rs_job_id r))
       (concat (map (\<lambda>j. map (\<lambda>r. (j, r)) (filter (\<lambda>r. rs_job_id r = j_job_id j \<and> retry_due now j r)
          (retry_schedules db))) (jobs db)))))"

definition sole_worker :: "db \<Rightarrow> (worker_row option \<times> inventory_row option) tx" where
  "sole_worker db = (case workers db of
     [w] \<Rightarrow> res_bind (one_or_none (filter (\<lambda>iv. iv_worker_id iv = w_worker_id w \<and>
         Some (iv_inventory_version iv) = w_current_inventory_version w \<and>
         Some (iv_worker_incarnation_id iv) = w_current_incarnation_id w) (worker_inventories db))) (\<lambda>iv.
         Inr (Some w, iv))
   | _ \<Rightarrow> Inr (None, None))"

definition template_with_flag :: "db \<Rightarrow> spec_row \<Rightarrow> (template_row \<times> bool) option tx" where
  "template_with_flag db sp = one_or_none (concat (map (\<lambda>tv. map (\<lambda>tm. (tv, tm_enabled tm))
     (filter (\<lambda>tm. tm_template_id tm = t_template_id tv) (templates db)))
     (filter (\<lambda>tv. t_template_id tv = sp_template_id sp \<and> t_version tv = sp_template_version sp)
       (template_versions db))))"

definition template_compatible_with ::
  "(template_row \<Rightarrow> inventory_row \<Rightarrow> bool) \<Rightarrow> (template_row \<times> bool) option \<Rightarrow> inventory_row option \<Rightarrow> bool" where
  "template_compatible_with runs_on template inventory = (case (template, inventory) of
     (Some (tv, enabled), Some iv) \<Rightarrow> enabled \<and> runs_on tv iv | _ \<Rightarrow> False)"

definition blocked_reason ::
  "(template_row \<Rightarrow> inventory_row \<Rightarrow> bool) \<Rightarrow> db \<Rightarrow> job_row \<Rightarrow> inventory_row option \<Rightarrow> string option tx" where
  "blocked_reason runs_on db job inventory =
     res_bind (one (filter (\<lambda>sp. sp_job_id sp = j_job_id job) (job_specs db))) (\<lambda>spec.
     res_bind (case inventory of None \<Rightarrow> Inr False
       | Some iv \<Rightarrow> res_bind (template_with_flag db spec) (\<lambda>template.
           Inr (sp_gpu_count spec \<noteq> 0 \<or> sp_cpu_millis spec > iv_allocatable_cpu_millis iv \<or>
             sp_memory_bytes spec > iv_allocatable_memory_bytes iv \<or>
             \<not> template_compatible_with runs_on template inventory))) (\<lambda>incompatible.
     if incompatible then Inr (Some ''waiting_for_compatibility'')
     else res_bind (one_or_none (filter (\<lambda>p. tp_tenant_id p = j_tenant_id job) (tenant_policies db))) (\<lambda>row.
     Inr (case row of None \<Rightarrow> Some ''waiting_for_quota''
       | Some p \<Rightarrow> if sp_cpu_millis spec > tp_cpu_limit_millis p \<or> sp_memory_bytes spec > tp_memory_limit_bytes p \<or>
           sp_gpu_count spec > tp_gpu_limit p then Some ''waiting_for_quota'' else None))))"

definition retry_actionable ::
  "(template_row \<Rightarrow> inventory_row \<Rightarrow> bool) \<Rightarrow> db \<Rightarrow> timestamp \<Rightarrow> nat \<Rightarrow> bool tx" where
  "retry_actionable runs_on db now limit =
     (let candidates = retry_candidates db now limit in
      if candidates = [] then Inr False
      else res_bind (sole_worker db) (\<lambda>(_, inventory).
        fold_result (\<lambda>found job. if found then Inr True
          else res_bind (blocked_reason runs_on db job inventory) (\<lambda>blocked.
            Inr (blocked = None \<or> blocked \<noteq> j_waiting_reason job))) False candidates))"

definition close_schedule :: "db \<Rightarrow> uuid \<Rightarrow> int \<Rightarrow> timestamp \<Rightarrow> db tx" where
  "close_schedule db jid number now =
     (let p = (\<lambda>r. rs_job_id r = jid \<and> rs_retry_number r = number \<and> rs_closed_at r = None) in
      if length (filter p (retry_schedules db)) \<noteq> 1
      then Inl (RuntimeError ''retry promotion lost its compare-and-set'')
      else Inr (db\<lparr>retry_schedules := update_where p (\<lambda>r. r\<lparr>rs_closed_at := Some now\<rparr>) (retry_schedules db)\<rparr>))"

text \<open>One turn of the promotion loop, over the store, the next ready sequence and the number promoted.\<close>

definition promote_one ::
  "(template_row \<Rightarrow> inventory_row \<Rightarrow> bool) \<Rightarrow> inventory_row option \<Rightarrow> bool \<Rightarrow> timestamp \<Rightarrow> uuid \<Rightarrow>
   db \<times> int \<times> int \<Rightarrow> uuid \<Rightarrow> (db \<times> int \<times> int) tx" where
  "promote_one runs_on inventory ready now holder_id st jid = (case st of (db, sequence, promoted) \<Rightarrow>
     res_bind (one (filter (\<lambda>j. j_job_id j = jid) (jobs db))) (\<lambda>job.
     res_bind (one_or_none (filter (\<lambda>r. rs_job_id r = jid \<and> rs_retry_number r = j_retry_count job)
       (retry_schedules db))) (\<lambda>schedule.
     case schedule of None \<Rightarrow> Inr st
     | Some sch \<Rightarrow>
     if rs_closed_at sch \<noteq> None \<or> rs_ready_at sch > now \<or> j_state job \<noteq> J_RETRY_WAIT \<or>
        (j_desired_state job, j_recovery_intent job) \<notin> dispatchable
     then Inr st
     else res_bind (blocked_reason runs_on db job inventory) (\<lambda>blocked.
     case blocked of
       Some reason \<Rightarrow> Inr (if j_waiting_reason job \<noteq> Some reason
         then coordinator_event db (Some job) now holder_id ''RETRY_BLOCKED'' (Some reason) False
                (\<lambda>j. j\<lparr>j_waiting_reason := Some reason\<rparr>)
         else db, sequence, promoted)
     | None \<Rightarrow> res_bind (close_schedule db jid (rs_retry_number sch) now) (\<lambda>db1.
         Inr (coordinator_event db1 (Some job) now holder_id ''RETRY_READY'' (Some ''BACKOFF_ELAPSED'') False
           (\<lambda>j. j\<lparr>j_state := J_QUEUED, j_ready_sequence := sequence,
                  j_waiting_reason := (if ready then None else Some ''waiting_for_worker'')\<rparr>),
           sequence + 1, promoted + 1))))))"

definition promote_due_locked ::
  "(template_row \<Rightarrow> inventory_row \<Rightarrow> bool) \<Rightarrow> env \<Rightarrow> db \<Rightarrow> timestamp \<Rightarrow> uuid \<Rightarrow> nat \<Rightarrow> (int \<times> db) tx" where
  "promote_due_locked runs_on env db now holder_id limit =
     (let jids = sort (map j_job_id (retry_candidates db now limit)) in
      if jids = [] then Inr (0, db)
      else res_bind (counter_lock env db GLOBAL) (\<lambda>(counter, db1).
      res_bind (sole_worker db1) (\<lambda>(worker, inventory).
      let ready = (case worker of None \<Rightarrow> False | Some w \<Rightarrow> worker_is_ready w now) in
      res_bind (fold_result (promote_one runs_on inventory ready now holder_id) (db1, k_version counter, 0) jids)
      (\<lambda>(db2, sequence, promoted).
      Inr (promoted, if promoted \<noteq> 0
        then db2\<lparr>admission_counters := update_where (\<lambda>k. k_scope k = GLOBAL)
               (\<lambda>k. k\<lparr>k_version := sequence, k_updated_at := now\<rparr>) (admission_counters db2)\<rparr>
        else db2)))))"

subsection \<open>Artifact quota marks\<close>

definition quota_batch_size :: nat where
  "quota_batch_size = 256"

definition quota_reason :: string where
  "quota_reason = ''waiting_for_quota''"

record storage_counter_row =
  sc_tenant_id :: uuid
  sc_committed_bytes :: int
  sc_reserved_bytes :: int

definition exhausted_tenants :: "storage_counter_row list \<Rightarrow> int \<Rightarrow> uuid set" where
  "exhausted_tenants counters quota_bytes =
     sc_tenant_id ` set (filter (\<lambda>c. sc_committed_bytes c + sc_reserved_bytes c \<ge> quota_bytes) counters)"

definition mark_target :: "db \<Rightarrow> uuid \<Rightarrow> bool \<Rightarrow> nat \<Rightarrow> uuid list" where
  "mark_target db tenant blocked limit = take limit (sort (map j_job_id (filter (\<lambda>j. j_tenant_id j = tenant \<and>
     j_state j = J_QUEUED \<and> (if blocked then j_waiting_reason j \<noteq> Some quota_reason
                            else j_waiting_reason j = Some quota_reason)) (jobs db))))"

definition mark_batch :: "db \<Rightarrow> uuid \<Rightarrow> bool \<Rightarrow> timestamp \<Rightarrow> nat \<Rightarrow> nat \<times> db" where
  "mark_batch db tenant blocked now limit =
     (let target = mark_target db tenant blocked limit in
      (length (filter (\<lambda>j. j_job_id j \<in> set target) (jobs db)),
       db\<lparr>jobs := update_where (\<lambda>j. j_job_id j \<in> set target)
            (\<lambda>j. j\<lparr>j_waiting_reason := (if blocked then Some quota_reason else None), j_version := j_version j + 1,
                   j_updated_at := now\<rparr>) (jobs db)\<rparr>))"

end
