(* ===== verification/Snapshot_Windows.thy ===== *)
theory Snapshot_Windows
  imports Coordinator_Recovery "HOL-Library.Multiset"
begin

section \<open>Candidate windows\<close>

text \<open>
  How \<^verbatim>\<open>src/src/nexa/coordinator/snapshot.py\<close> reads the candidates of a tenant: bounded streams for every
  base priority and every priority a job may have reached by waiting, merged into a window of sixteen,
  beside the oldest candidate.  Streams, age probes and groups only exist to stay on indexes; the
  lemmas show that each reader returns the head of one plain sort of all candidates.  A query is the
  list of its rows; \<^verbatim>\<open>GREATEST\<close> ignores nulls, and UUIDs compare like their canonical strings.
\<close>

record queue_row =
  qr_job_id :: uuid
  qr_submitter_user_id :: uuid
  qr_version :: int
  qr_ready_sequence :: int
  qr_eligible_since :: timestamp
  qr_retry_ready_at :: "timestamp option"
  qr_base_priority :: int
  qr_cpu_millis :: int
  qr_memory_bytes :: int
  qr_gpu_count :: int
  qr_template_version :: int
  qr_effective_since :: timestamp

type_synonym queue_cursor = "int \<times> int \<times> uuid"

text \<open>A row of a merged stream carries the priority of its stream.\<close>

type_synonym labelled_row = "int \<times> queue_row"

definition window_size :: nat where
  "window_size = 16"

definition ready_key :: "queue_row \<Rightarrow> int \<times> uuid" where
  "ready_key r = (qr_ready_sequence r, qr_job_id r)"

definition age_key :: "queue_row \<Rightarrow> timestamp \<times> int \<times> uuid" where
  "age_key r = (qr_effective_since r, ready_key r)"

definition window_key :: "labelled_row \<Rightarrow> int \<times> int \<times> uuid" where
  "window_key l = (- fst l, ready_key (snd l))"

definition first_row :: "'a list \<Rightarrow> 'a option" where
  "first_row rows = (case rows of [] \<Rightarrow> None | r # _ \<Rightarrow> Some r)"

definition ready_stream :: "(queue_row \<Rightarrow> bool) \<Rightarrow> queue_row list \<Rightarrow> queue_row list" where
  "ready_stream p rows = take window_size (sort_key ready_key (filter p rows))"

definition merge_streams :: "labelled_row list list \<Rightarrow> labelled_row list" where
  "merge_streams streams = take window_size (sort_key window_key (concat streams))"

subsection \<open>The reader with a cursor\<close>

text \<open>The age condition of the stream of one effective and one base priority; no value where the stream is
  left out because every row ages from the resume time.\<close>

definition aged_branch :: "timestamp \<Rightarrow> timestamp option \<Rightarrow> int \<Rightarrow> int \<Rightarrow> (queue_row \<Rightarrow> bool) option" where
  "aged_branch now resume_at effective base =
     (let minute = now - seconds 60; two_minutes = now - seconds 120;
          age = (\<lambda>r. case resume_at of None \<Rightarrow> qr_effective_since r | Some _ \<Rightarrow> qr_eligible_since r);
          after = (\<lambda>t. case resume_at of None \<Rightarrow> False | Some u \<Rightarrow> u > t);
          until = (\<lambda>t. case resume_at of None \<Rightarrow> True | Some u \<Rightarrow> u \<le> t) in
      if effective = 2 then
        (if base = 1 then (if after minute then None else Some (\<lambda>r. age r \<le> minute))
         else if base = 0 then (if after two_minutes then None else Some (\<lambda>r. age r \<le> two_minutes))
         else Some (\<lambda>_. True))
      else if effective = 1 then
        (if base = 1 then Some (\<lambda>r. until minute \<longrightarrow> age r > minute)
         else if after minute then None
         else Some (\<lambda>r. age r \<le> minute \<and> (until two_minutes \<longrightarrow> age r > two_minutes)))
      else Some (\<lambda>r. until minute \<longrightarrow> age r > minute))"

definition beyond :: "queue_cursor option \<Rightarrow> int \<Rightarrow> queue_row \<Rightarrow> bool" where
  "beyond cursor effective r = (case cursor of None \<Rightarrow> True
     | Some (p, position) \<Rightarrow> effective = p \<longrightarrow> ready_key r > position)"

definition priority_pairs :: "(int \<times> int) list" where
  "priority_pairs = concat (map (\<lambda>effective. map (Pair effective) (rev [0..effective])) [2, 1, 0])"

definition cursor_branch ::
  "timestamp \<Rightarrow> queue_cursor option \<Rightarrow> int set \<Rightarrow> timestamp option \<Rightarrow> queue_row list \<Rightarrow> int \<times> int \<Rightarrow> labelled_row list" where
  "cursor_branch now cursor priorities resume_at rows = (\<lambda>(effective, base).
     if (case cursor of None \<Rightarrow> False | Some (p, _) \<Rightarrow> effective > p) \<or> base \<notin> priorities then []
     else case aged_branch now resume_at effective base of None \<Rightarrow> []
       | Some p \<Rightarrow> map (Pair effective)
           (ready_stream (\<lambda>r. qr_base_priority r = base \<and> p r \<and> beyond cursor effective r) rows))"

definition clipped_age_exists :: "db \<Rightarrow> uuid \<Rightarrow> uuid list \<Rightarrow> int \<Rightarrow> timestamp \<Rightarrow> bool" where
  "clipped_age_exists db tenant users priority resume_at = list_ex (\<lambda>j. j_tenant_id j = tenant \<and>
     j_submitter_user_id j \<in> set users \<and> j_base_priority j = priority \<and> j_state j = J_QUEUED \<and>
     (case j_eligible_since j of None \<Rightarrow> False | Some e \<Rightarrow> e \<le> resume_at)) (jobs db)"

text \<open>The oldest candidate when all rows age from \<open>resume_at\<close> at the earliest, by the probe \<open>has\<close> for a
  priority: the rows before it tie, so they compete in ready order.\<close>

definition resumed_oldest :: "(int \<Rightarrow> bool) \<Rightarrow> timestamp \<Rightarrow> queue_row list \<Rightarrow> queue_row option" where
  "resumed_oldest has resume_at rows = first_row (sort_key age_key
     (concat (map (\<lambda>priority. take 1 (sort_key ready_key (filter (\<lambda>r. qr_base_priority r = priority \<and>
         qr_eligible_since r \<le> resume_at \<and> has priority) rows))) [0, 1, 2]) @
      take 1 (sort_key (\<lambda>r. (qr_eligible_since r, ready_key r)) (filter (\<lambda>r. qr_eligible_since r > resume_at) rows))))"

definition window_fetch ::
  "db \<Rightarrow> queue_row list \<Rightarrow> timestamp \<Rightarrow> int set \<Rightarrow> timestamp option \<Rightarrow> uuid \<Rightarrow> uuid list \<Rightarrow> queue_cursor option \<Rightarrow>
   labelled_row list \<times> queue_row option" where
  "window_fetch db rows now priorities resume_at tenant users cursor =
     (merge_streams (map (cursor_branch now cursor priorities resume_at rows) priority_pairs),
      case resume_at of None \<Rightarrow> first_row (sort_key age_key rows)
      | Some t \<Rightarrow> resumed_oldest (\<lambda>p. clipped_age_exists db tenant users p t) t rows)"

definition window_rows ::
  "db \<Rightarrow> queue_row list \<Rightarrow> timestamp \<Rightarrow> queue_cursor option \<Rightarrow> int set \<Rightarrow> timestamp option \<Rightarrow> uuid \<Rightarrow> uuid list \<Rightarrow>
   labelled_row list \<times> queue_row option" where
  "window_rows db rows now cursor priorities resume_at tenant users =
     (let found = window_fetch db rows now priorities resume_at tenant users cursor in
      if fst found \<noteq> [] \<or> cursor = None then found
      else window_fetch db rows now priorities resume_at tenant users None)"

subsection \<open>The batched reader\<close>

record descriptor =
  de_tenant_id :: uuid
  de_min_cpu :: int
  de_max_cpu :: int
  de_min_memory :: int
  de_max_memory :: int
  de_users :: "uuid list"
  de_resume_at :: "timestamp option"
  de_cursor :: "queue_cursor option"

text \<open>The join of jobs and specifications: the rows of one tenant that may be dispatched now, and those of
  them whose submitter and size qualify.\<close>

definition queue_row_of :: "(uuid \<Rightarrow> timestamp option) \<Rightarrow> job_row \<Rightarrow> timestamp \<Rightarrow> spec_row \<Rightarrow> queue_row" where
  "queue_row_of resume j since sp = \<lparr>qr_job_id = j_job_id j, qr_submitter_user_id = j_submitter_user_id j, qr_version = j_version j,
     qr_ready_sequence = j_ready_sequence j, qr_eligible_since = since, qr_retry_ready_at = j_retry_ready_at j,
     qr_base_priority = j_base_priority j, qr_cpu_millis = sp_cpu_millis sp, qr_memory_bytes = sp_memory_bytes sp,
     qr_gpu_count = sp_gpu_count sp, qr_template_version = sp_template_version sp,
     qr_effective_since = (case resume (j_submitter_user_id j) of None \<Rightarrow> since | Some t \<Rightarrow> max since t)\<rparr>"

definition in_cell :: "int \<times> int \<times> int \<times> int \<Rightarrow> int \<Rightarrow> int \<Rightarrow> bool" where
  "in_cell bounds cpu memory = (case bounds of (min_cpu, max_cpu, min_memory, max_memory) \<Rightarrow>
     min_cpu < cpu \<and> cpu \<le> max_cpu \<and> min_memory < memory \<and> memory \<le> max_memory)"

definition joined_rows :: "db \<Rightarrow> timestamp \<Rightarrow> (string \<times> int) list \<Rightarrow> uuid \<Rightarrow> (job_row \<times> timestamp \<times> spec_row) list" where
  "joined_rows db now compatible tenant =
     concat (map (\<lambda>j. case j_eligible_since j of None \<Rightarrow> []
       | Some since \<Rightarrow> map (\<lambda>sp. (j, since, sp))
          (filter (\<lambda>sp. sp_job_id sp = j_job_id j \<and> (sp_template_id sp, sp_template_version sp) \<in> set compatible \<and>
             sp_gpu_count sp = 0) (job_specs db)))
       (filter (\<lambda>j. j_tenant_id j = tenant \<and> j_state j = J_QUEUED \<and>
          (case j_retry_ready_at j of None \<Rightarrow> True | Some t \<Rightarrow> t \<le> now)) (jobs db)))"

definition queue_rows ::
  "db \<Rightarrow> timestamp \<Rightarrow> (string \<times> int) list \<Rightarrow> uuid \<Rightarrow> int \<times> int \<times> int \<times> int \<Rightarrow> (uuid \<Rightarrow> bool) \<Rightarrow>
   (uuid \<Rightarrow> timestamp option) \<Rightarrow> queue_row list" where
  "queue_rows db now compatible tenant bounds users resume =
     map (\<lambda>(j, since, sp). queue_row_of resume j since sp)
       (filter (\<lambda>(j, since, sp). users (j_submitter_user_id j) \<and> in_cell bounds (sp_cpu_millis sp) (sp_memory_bytes sp))
         (joined_rows db now compatible tenant))"

definition descriptor_rows :: "db \<Rightarrow> timestamp \<Rightarrow> (string \<times> int) list \<Rightarrow> descriptor \<Rightarrow> queue_row list" where
  "descriptor_rows db now compatible d = queue_rows db now compatible (de_tenant_id d)
     (de_min_cpu d, de_max_cpu d, de_min_memory d, de_max_memory d) (\<lambda>u. u \<in> set (de_users d)) (\<lambda>_. de_resume_at d)"

definition age_probe :: "db \<Rightarrow> descriptor \<Rightarrow> int \<Rightarrow> timestamp list" where
  "age_probe db d priority = List.map_filter j_eligible_since (filter (\<lambda>j. j_tenant_id j = de_tenant_id d \<and>
     j_submitter_user_id j \<in> set (de_users d) \<and> j_base_priority j = priority \<and> j_state j = J_QUEUED) (jobs db))"

definition has_age :: "db \<Rightarrow> descriptor \<Rightarrow> int \<Rightarrow> timestamp \<Rightarrow> bool" where
  "has_age db d priority cutoff = list_ex (\<lambda>e. e > cutoff) (age_probe db d priority)"

definition oldest_age_until :: "db \<Rightarrow> descriptor \<Rightarrow> timestamp \<Rightarrow> int \<Rightarrow> bool" where
  "oldest_age_until db d t priority = (case sort (age_probe db d priority) of [] \<Rightarrow> False | e # _ \<Rightarrow> e \<le> t)"

definition batched_age :: "db \<Rightarrow> timestamp \<Rightarrow> descriptor \<Rightarrow> int \<Rightarrow> int \<Rightarrow> queue_row \<Rightarrow> bool" where
  "batched_age db now d effective priority r =
     (let minute = now - seconds 60; two_minutes = now - seconds 120; e = qr_eligible_since r;
          until = (\<lambda>t. case de_resume_at d of None \<Rightarrow> True | Some u \<Rightarrow> u \<le> t);
          after = (\<lambda>t. case de_resume_at d of None \<Rightarrow> False | Some u \<Rightarrow> u > t);
          younger = (after minute \<or> e > minute) \<and> (after minute \<or> has_age db d priority minute) in
      if effective = 2 then
        (if priority = 1 then e \<le> minute \<and> until minute
         else if priority = 0 then e \<le> two_minutes \<and> until two_minutes
         else True)
      else if effective = 1 then
        (if priority = 1 then younger
         else e \<le> minute \<and> until minute \<and> (after two_minutes \<or> e > two_minutes) \<and>
           (after two_minutes \<or> has_age db d priority two_minutes))
      else younger)"

definition beyond_group :: "queue_cursor option \<Rightarrow> int \<Rightarrow> queue_row \<Rightarrow> bool" where
  "beyond_group cursor effective r = (case cursor of None \<Rightarrow> True
     | Some (p, position) \<Rightarrow> effective < p \<or> effective = p \<and> ready_key r > position)"

definition batched_window ::
  "db \<Rightarrow> timestamp \<Rightarrow> (string \<times> int) list \<Rightarrow> descriptor \<Rightarrow> labelled_row list \<times> queue_row option" where
  "batched_window db now compatible d =
     (let rows = descriptor_rows db now compatible d in
      (merge_streams (map (\<lambda>(effective, priority). map (Pair effective)
          (ready_stream (\<lambda>r. qr_base_priority r = priority \<and> beyond_group (de_cursor d) effective r \<and>
             batched_age db now d effective priority r) rows)) priority_pairs),
       case de_resume_at d of None \<Rightarrow> first_row (sort_key (\<lambda>r. (qr_eligible_since r, ready_key r)) rows)
       | Some t \<Rightarrow> resumed_oldest (oldest_age_until db d t) t rows))"

subsection \<open>Quota cells\<close>

type_synonym quota_step = "int \<times> timestamp option"

definition latest :: "timestamp option list \<Rightarrow> timestamp option" where
  "latest ts = (case List.map_filter id ts of [] \<Rightarrow> None | u # us \<Rightarrow> Some (fold max us u))"

fun quota_intervals_from ::
  "(int \<times> int \<times> timestamp option) list \<Rightarrow> int \<Rightarrow> quota_step list \<Rightarrow> int \<Rightarrow> (int \<times> int \<times> timestamp option) list" where
  "quota_intervals_from intervals low [] limit = intervals"
| "quota_intervals_from intervals low ((high, resumed_at) # steps) limit =
     (if low \<ge> limit then intervals
      else let up = min high limit in
        quota_intervals_from
          (if intervals \<noteq> [] \<and> snd (snd (last intervals)) = resumed_at
           then butlast intervals @ [(fst (last intervals), up, resumed_at)]
           else intervals @ [(low, up, resumed_at)]) up steps limit)"

definition quota_intervals :: "quota_step list \<Rightarrow> int \<Rightarrow> (int \<times> int \<times> timestamp option) list" where
  "quota_intervals steps limit = quota_intervals_from [] (- 1) steps limit"

type_synonym quota_cell = "(int \<times> int \<times> int \<times> int) \<times> timestamp option"

definition quota_cells :: "quota_step list \<Rightarrow> quota_step list \<Rightarrow> int \<Rightarrow> int \<Rightarrow> quota_cell list" where
  "quota_cells cpu_steps memory_steps max_cpu max_memory =
     concat (map (\<lambda>(cpu_lower, cpu_upper, cpu_at). map (\<lambda>(memory_lower, memory_upper, memory_at).
         ((cpu_lower, cpu_upper, memory_lower, memory_upper), latest [cpu_at, memory_at]))
       (quota_intervals memory_steps max_memory)) (quota_intervals cpu_steps max_cpu))"

text \<open>\<open>sizes\<close> are the request sizes of the queued jobs of the tenant.\<close>

definition populated_cells :: "(int \<times> int) list \<Rightarrow> quota_cell list \<Rightarrow> quota_cell list" where
  "populated_cells sizes cells = filter (\<lambda>(bounds, _). list_ex (\<lambda>(cpu, memory). in_cell bounds cpu memory) sizes) cells"

subsection \<open>Merging the groups of a tenant\<close>

definition merged_group :: "(labelled_row list \<times> queue_row option) list \<Rightarrow> labelled_row list \<times> queue_row option" where
  "merged_group groups =
     (take window_size (sort_key window_key (concat (map fst groups))),
      first_row (sort_key age_key (List.map_filter snd groups)))"


subsection \<open>The reference reader\<close>

text \<open>A row gains one priority for every minute it has waited since its age last restarted, up to two; the
  window is the head of all rows beyond the cursor, highest priority first, then in ready order.\<close>

definition aged_priority :: "timestamp \<Rightarrow> queue_row \<Rightarrow> int" where
  "aged_priority now r = min 2 (qr_base_priority r + max 0 ((now - qr_effective_since r) div seconds 60))"

definition reference_window :: "timestamp \<Rightarrow> queue_cursor option \<Rightarrow> queue_row list \<Rightarrow> labelled_row list" where
  "reference_window now cursor rows = take window_size (sort_key window_key
     (map (\<lambda>r. (aged_priority now r, r)) (filter (\<lambda>r. beyond_group cursor (aged_priority now r) r) rows)))"

definition reference_oldest :: "queue_row list \<Rightarrow> queue_row option" where
  "reference_oldest rows = first_row (sort_key age_key rows)"

definition reference_read :: "timestamp \<Rightarrow> queue_cursor option \<Rightarrow> queue_row list \<Rightarrow> labelled_row list \<times> queue_row option" where
  "reference_read now cursor rows = (reference_window now
     (if reference_window now cursor rows = [] then None else cursor) rows, reference_oldest rows)"

definition step_at :: "quota_step list \<Rightarrow> int \<Rightarrow> timestamp option" where
  "step_at steps n = (case filter (\<lambda>(high, _). n \<le> high) steps of [] \<Rightarrow> None | (_, t) # _ \<Rightarrow> t)"

subsection \<open>The first elements of merged streams\<close>

lemma sort_key_mset:
  assumes "mset xs = mset ys" "distinct (map k xs)"
  shows "sort_key k xs = sort_key k ys"
  by (rule sort_key_inj_key_eq) (use assms in \<open>auto simp: distinct_map\<close>)

lemma take_insort_key:
  assumes "sorted (map k l)" "n \<le> length (filter (\<lambda>a. k a < k b) l)"
  shows "take n (insort_key k b l) = take n l"
  using assms
proof (induction l arbitrary: n)
  case (Cons a l)
  show ?case
  proof (cases "k b \<le> k a")
    case True
    then have "filter (\<lambda>x. k x < k b) (a # l) = []" using Cons.prems(1) by (auto simp: filter_empty_conv not_less)
    with Cons.prems(2) show ?thesis by simp
  next
    case False
    then show ?thesis using Cons by (cases n) (auto simp: not_le)
  qed
qed simp

lemma take_foldr_insort:
  assumes "sorted (map k l)" "\<forall>b \<in> set bs. n \<le> length (filter (\<lambda>a. k a < k b) l)"
  shows "take n (foldr (insort_key k) bs l) = take n l \<and> sorted (map k (foldr (insort_key k) bs l)) \<and>
    (\<forall>x. length (filter (\<lambda>a. k a < x) l) \<le> length (filter (\<lambda>a. k a < x) (foldr (insort_key k) bs l)))"
  using assms
proof (induction bs)
  case (Cons b bs)
  let ?l = "foldr (insort_key k) bs l"
  have ih: "take n ?l = take n l" "sorted (map k ?l)"
    "\<And>x. length (filter (\<lambda>a. k a < x) l) \<le> length (filter (\<lambda>a. k a < x) ?l)" using Cons by simp_all
  have "n \<le> length (filter (\<lambda>a. k a < k b) ?l)" using ih(3) [of "k b"] Cons.prems(2) by (simp add: order.trans)
  then have t: "take n (insort_key k b ?l) = take n l" using take_insort_key [OF ih(2)] ih(1) by simp
  have "length (filter p ?l) \<le> length (filter p (insort_key k b ?l))" for p
  proof -
    have "mset (filter p (insort_key k b ?l)) = mset (filter p (b # ?l))" by (simp add: mset_filter)
    then show ?thesis by (metis filter.simps(2) le_SucI length_Cons order_refl size_mset)
  qed
  then show ?case using t ih(2) ih(3) by (auto simp: sorted_insort_key intro: order.trans)
qed simp

lemma take_sort_take:
  assumes "distinct (map k (xs @ ys))"
  shows "take n (sort_key k (take n (sort_key k xs) @ ys)) = take n (sort_key k (xs @ ys))"
proof -
  let ?A = "take n (sort_key k xs)" and ?B = "drop n (sort_key k xs)"
  have d: "distinct (map k (?A @ ?B))" using assms by (simp add: distinct_map)
  have s: "sorted (map k (?A @ ?B))" by simp
  have small: "k a < k b" if "a \<in> set ?A" "b \<in> set ?B" for a b
    using s d that unfolding map_append sorted_append distinct_append by (metis IntI empty_iff imageI list.set_map order.not_eq_order_implies_strict)
  have "n \<le> length (filter (\<lambda>a. k a < k b) (sort_key k (?A @ ys)))" if b: "b \<in> set ?B" for b
  proof -
    have "length ?A = n" using b by (cases "n \<le> length xs") auto
    moreover have "filter (\<lambda>a. k a < k b) ?A = ?A" using small [OF _ b] by (simp add: filter_id_conv)
    ultimately have "n \<le> length (filter (\<lambda>a. k a < k b) (?A @ ys))" by simp
    also have "\<dots> = length (filter (\<lambda>a. k a < k b) (sort_key k (?A @ ys)))"
      by (metis mset_filter mset_sort size_mset)
    finally show ?thesis .
  qed
  then have "take n (foldr (insort_key k) ?B (sort_key k (?A @ ys))) = take n (sort_key k (?A @ ys))"
    using take_foldr_insort [of k "sort_key k (?A @ ys)" ?B n] by simp
  moreover have "foldr (insort_key k) ?B (sort_key k (?A @ ys)) = sort_key k (?B @ ?A @ ys)"
    by (simp add: sort_key_def)
  moreover have "mset (?B @ ?A @ ys) = mset (xs @ ys)"
    by (metis append.assoc append_take_drop_id mset_append mset_sort union_commute)
  then have "sort_key k (xs @ ys) = sort_key k (?B @ ?A @ ys)"
    by (intro sort_key_mset) (use assms in simp_all)
  ultimately show ?thesis by simp
qed

lemma set_takes: "set (concat (map (\<lambda>xs. take n (sort_key k xs)) xss)) \<subseteq> set (concat xss)"
proof
  fix x assume "x \<in> set (concat (map (\<lambda>xs. take n (sort_key k xs)) xss))"
  then obtain xs where "xs \<in> set xss" "x \<in> set (take n (sort_key k xs))" by auto
  then show "x \<in> set (concat xss)" using in_set_takeD [of x n "sort_key k xs"] by auto
qed

lemma distinct_takes:
  "distinct (map k (concat xss)) \<Longrightarrow> distinct (map k (concat (map (\<lambda>xs. take n (sort_key k xs)) xss)))"
proof (induction xss)
  case (Cons xs xss)
  have "distinct (map k (take n (sort_key k xs)))" using Cons.prems by (simp add: distinct_map flip: take_map)
  moreover have "set (take n (sort_key k xs)) \<subseteq> set xs" using set_take_subset [of n "sort_key k xs"] by simp
  moreover note set_takes [of n k xss]
  ultimately show ?case using Cons by (simp only: list.map concat.simps map_append distinct_append set_map) blast
qed simp

lemma distinct_map_append_subset:
  assumes "distinct (map k (xs @ ys))" "distinct (map k zs)" "set zs \<subseteq> set ys"
  shows "distinct (map k (xs @ zs))" "distinct (map k (zs @ xs))"
proof -
  have "k ` set zs \<subseteq> k ` set ys" using assms(3) by (rule image_mono)
  then show "distinct (map k (xs @ zs))" "distinct (map k (zs @ xs))"
    using assms(1,2) unfolding map_append distinct_append set_map by blast+
qed

lemma take_sort_concat:
  assumes "distinct (map k (concat xss))"
  shows "take n (sort_key k (concat (map (\<lambda>xs. take n (sort_key k xs)) xss))) = take n (sort_key k (concat xss))"
  using assms
proof (induction xss)
  case (Cons xs xss)
  let ?C = "concat xss" and ?C' = "concat (map (\<lambda>xs. take n (sort_key k xs)) xss)"
  have ih: "take n (sort_key k ?C') = take n (sort_key k ?C)" using Cons by simp
  have d: "distinct (map k (xs @ ?C))" "distinct (map k (?C @ xs))" using Cons.prems by auto
  have "distinct (map k ?C')" using distinct_takes [of k xss n] d by simp
  then have d': "distinct (map k (xs @ ?C'))" "distinct (map k (?C' @ xs))"
    using distinct_map_append_subset [OF d(1) _ set_takes] by blast+
  have "take n (sort_key k (take n (sort_key k xs) @ ?C')) = take n (sort_key k (xs @ ?C'))" by (rule take_sort_take [OF d'(1)])
  also have "sort_key k (xs @ ?C') = sort_key k (?C' @ xs)" by (rule sort_key_mset) (use d'(1) in simp_all)
  also have "take n (sort_key k (?C' @ xs)) = take n (sort_key k (take n (sort_key k ?C') @ xs))"
    by (rule take_sort_take [OF d'(2), symmetric])
  also have "\<dots> = take n (sort_key k (?C @ xs))" unfolding ih by (rule take_sort_take [OF d(2)])
  also have "sort_key k (?C @ xs) = sort_key k (xs @ ?C)" by (rule sort_key_mset) (use d(2) in simp_all)
  finally show ?case by simp
qed simp

lemma take_sort_streams:
  assumes "distinct (map k ys)" "mset (concat xss) = mset ys"
  shows "take n (sort_key k (concat (map (\<lambda>xs. take n (sort_key k xs)) xss))) = take n (sort_key k ys)"
proof -
  have "mset (map k (concat xss)) = mset (map k ys)" by (simp only: mset_map assms(2))
  then have d: "distinct (map k (concat xss))" using assms(1) mset_eq_imp_distinct_iff by blast
  show ?thesis by (simp only: take_sort_concat [OF d] sort_key_mset [OF assms(2) d])
qed


lemma insort_map_Pair:
  "insort_key window_key (e, x) (map (Pair e) l) = map (Pair e) (insort_key ready_key x l)"
  by (induction l) (auto simp: window_key_def)

lemma sort_map_Pair: "sort_key window_key (map (Pair e) l) = map (Pair e) (sort_key ready_key l)"
  by (induction l) (simp_all add: sort_key_def insort_map_Pair)

lemma ready_stream_Pair:
  "map (Pair e) (ready_stream p rows) = take window_size (sort_key window_key (map (Pair e) (filter p rows)))"
  by (simp add: ready_stream_def sort_map_Pair take_map)

lemma mset_filter_partition:
  assumes "distinct ps"
  shows "mset (concat (map (\<lambda>p. map (g p) (filter (\<lambda>r. f r = p \<and> c r) rows)) ps)) =
    mset (map (\<lambda>r. g (f r) r) (filter (\<lambda>r. f r \<in> set ps \<and> c r) rows))"
  using assms
proof (induction ps)
  case (Cons p ps)
  have "mset (map (g p) (filter (\<lambda>r. f r = p \<and> c r) rows)) + mset (map (\<lambda>r. g (f r) r) (filter (\<lambda>r. f r \<in> set ps \<and> c r) rows)) =
    mset (map (\<lambda>r. g (f r) r) (filter (\<lambda>r. f r \<in> set (p # ps) \<and> c r) rows))"
    using Cons.prems by (induction rows) auto
  then show ?case using Cons by simp
qed simp

lemma distinct_keys:
  assumes "distinct (map qr_job_id rows)"
  shows "distinct (map age_key rows)" "distinct (map window_key (map (\<lambda>r. (f r, r)) (filter p rows)))"
    "distinct (map (\<lambda>r. (qr_eligible_since r, ready_key r)) rows)"
proof -
  have inj: "inj_on qr_job_id (set rows)" "distinct rows" using assms by (simp_all add: distinct_map)
  show "distinct (map age_key rows)" "distinct (map (\<lambda>r. (qr_eligible_since r, ready_key r)) rows)"
    unfolding distinct_map using inj by (auto simp: inj_on_def age_key_def ready_key_def)
  show "distinct (map window_key (map (\<lambda>r. (f r, r)) (filter p rows)))"
    unfolding map_map distinct_map using inj by (auto simp: inj_on_def window_key_def ready_key_def)
qed

lemma priority_pairs_props: "distinct priority_pairs" "set priority_pairs = {(2, 2), (2, 1), (2, 0), (1, 1), (1, 0), (0, 0)}"
proof -
  have "[0..2] = [0, 1, 2 :: int]" "[0..1] = [0, 1 :: int]" by (simp_all add: upto_rec1)
  then show "distinct priority_pairs" "set priority_pairs = {(2, 2), (2, 1), (2, 0), (1, 1), (1, 0), (0, 0)}"
    by (auto simp: priority_pairs_def)
qed

lemma aged_priority_cases:
  assumes "qr_base_priority r \<in> {0, 1, 2}"
  shows "aged_priority now r = (if qr_base_priority r = 2 then 2
    else if qr_base_priority r = 1 then (if qr_effective_since r \<le> now - seconds 60 then 2 else 1)
    else if qr_effective_since r \<le> now - seconds 120 then 2
    else if qr_effective_since r \<le> now - seconds 60 then 1 else 0)"
proof -
  let ?d = "(now - qr_effective_since r) div seconds 60"
  have "?d \<ge> 2 \<longleftrightarrow> qr_effective_since r \<le> now - seconds 120" "?d \<ge> 1 \<longleftrightarrow> qr_effective_since r \<le> now - seconds 60"
    by (auto simp: seconds_def)
  then show ?thesis using assms unfolding aged_priority_def by auto
qed

lemma aged_pair:
  assumes "qr_base_priority r \<in> {0, 1, 2}"
  shows "(aged_priority now r, qr_base_priority r) \<in> set priority_pairs"
  using assms by (auto simp: aged_priority_cases priority_pairs_props)

text \<open>Streams whose conditions select the rows of their priority pair read the reference window.\<close>

lemma streams_reference:
  assumes ids: "distinct (map qr_job_id rows)" and base: "\<forall>r \<in> set rows. qr_base_priority r \<in> {0, 1, 2}"
    and streams: "\<And>e b. (e, b) \<in> set priority_pairs \<Longrightarrow> stream (e, b) = map (Pair e) (ready_stream (q e b) rows)"
    and select: "\<And>e b r. (e, b) \<in> set priority_pairs \<Longrightarrow> r \<in> set rows \<Longrightarrow>
      q e b r \<longleftrightarrow> qr_base_priority r = b \<and> aged_priority now r = e \<and> beyond_group cursor e r"
  shows "merge_streams (map stream priority_pairs) = reference_window now cursor rows"
proof -
  let ?f = "\<lambda>r. (aged_priority now r, qr_base_priority r)" and ?c = "\<lambda>r. beyond_group cursor (aged_priority now r) r"
  let ?part = "\<lambda>p. map (Pair (fst p)) (filter (\<lambda>r. ?f r = p \<and> ?c r) rows)"
  have "stream p = take window_size (sort_key window_key (?part p))" if "p \<in> set priority_pairs" for p
  proof -
    obtain e b where p: "p = (e, b)" by (cases p)
    have "filter (q e b) rows = filter (\<lambda>r. ?f r = p \<and> ?c r) rows"
      by (rule filter_cong) (use select that in \<open>auto simp: p\<close>)
    then show ?thesis using streams [of e b] that by (simp add: p ready_stream_Pair)
  qed
  then have m: "map stream priority_pairs = map (\<lambda>xs. take window_size (sort_key window_key xs)) (map ?part priority_pairs)"
    by simp
  have "mset (concat (map ?part priority_pairs)) =
      mset (map (\<lambda>r. (aged_priority now r, r)) (filter (\<lambda>r. ?f r \<in> set priority_pairs \<and> ?c r) rows))"
    using mset_filter_partition [OF priority_pairs_props(1), of "\<lambda>p. Pair (fst p)" ?f ?c rows] by simp
  also have "filter (\<lambda>r. ?f r \<in> set priority_pairs \<and> ?c r) rows = filter ?c rows"
    by (rule filter_cong) (use base in \<open>auto simp: aged_pair simp del: insert_iff\<close>)
  finally show ?thesis
    unfolding merge_streams_def reference_window_def m by (rule take_sort_streams [OF distinct_keys(2) [OF ids]])
qed

lemma sort_key_cong:
  assumes "\<And>x y. x \<in> set xs \<Longrightarrow> y \<in> set xs \<Longrightarrow> k x \<le> k y \<longleftrightarrow> k' x \<le> k' y"
  shows "sort_key k xs = sort_key k' xs"
  using assms
proof (induction xs)
  case (Cons x xs)
  have "insort_key k x ys = insort_key k' x ys" if "set ys \<subseteq> set (x # xs)" for ys
    using that Cons.prems by (induction ys) auto
  moreover have "sort_key k xs = sort_key k' xs" using Cons by simp
  moreover have "set (sort_key k' xs) \<subseteq> set (x # xs)" by auto
  ultimately show ?case by simp
qed simp

lemma first_row_take: "first_row (take 1 l) = first_row l"
  by (cases l) (simp_all add: first_row_def)

lemma resumed_oldest_reference:
  assumes "distinct (map qr_job_id rows)" "\<forall>r \<in> set rows. qr_base_priority r \<in> {0, 1, 2}"
    and eff: "\<forall>r \<in> set rows. qr_effective_since r = max (qr_eligible_since r) t"
    and has: "\<forall>r \<in> set rows. qr_eligible_since r \<le> t \<longrightarrow> has (qr_base_priority r)"
  shows "resumed_oldest has t rows = reference_oldest rows"
proof -
  let ?early = "\<lambda>p. filter (\<lambda>r. qr_base_priority r = p \<and> qr_eligible_since r \<le> t \<and> has p) rows"
  let ?late = "filter (\<lambda>r. qr_eligible_since r > t) rows"
  have early: "sort_key ready_key (?early p) = sort_key age_key (?early p)" for p
    by (rule sort_key_cong) (use eff in \<open>auto simp: age_key_def max_def\<close>)
  have late: "sort_key (\<lambda>r. (qr_eligible_since r, ready_key r)) ?late = sort_key age_key ?late"
    by (rule sort_key_cong) (use eff in \<open>auto simp: age_key_def max_def\<close>)
  have "mset (concat (map ?early [0, 1, 2] @ [?late])) = mset rows"
    using assms(2) has by (induction rows) auto
  note top = take_sort_streams [OF distinct_keys(1) [OF assms(1)] this, of 1]
  have "resumed_oldest has t rows = first_row (sort_key age_key (concat (map (\<lambda>xs. take 1 (sort_key age_key xs))
      (map ?early [0, 1, 2] @ [?late]))))"
    unfolding resumed_oldest_def early late by simp
  also have "\<dots> = first_row (take 1 (sort_key age_key rows))" unfolding top [symmetric] by (rule first_row_take [symmetric])
  also have "\<dots> = first_row (sort_key age_key rows)" by (rule first_row_take)
  finally show ?thesis by (simp add: reference_oldest_def)
qed

lemma window_fetch_reference:
  assumes ids: "distinct (map qr_job_id rows)" and base: "\<forall>r \<in> set rows. qr_base_priority r \<in> {0, 1, 2} \<inter> priorities"
    and resume: "\<And>t. resume_at = Some t \<Longrightarrow> \<forall>r \<in> set rows. qr_effective_since r = max (qr_eligible_since r) t \<and>
      (qr_eligible_since r \<le> t \<longrightarrow> clipped_age_exists db tenant users (qr_base_priority r) t)"
  shows "window_fetch db rows now priorities resume_at tenant users cursor =
    (reference_window now cursor rows, reference_oldest rows)"
proof -
  let ?skip = "\<lambda>e b. (case cursor of None \<Rightarrow> False | Some (p, _) \<Rightarrow> e > p) \<or> b \<notin> priorities"
  let ?q = "\<lambda>e b r. \<not> ?skip e b \<and> (case aged_branch now resume_at e b of None \<Rightarrow> False
    | Some p \<Rightarrow> qr_base_priority r = b \<and> p r \<and> beyond cursor e r)"
  have b3: "\<forall>r \<in> set rows. qr_base_priority r \<in> {0, 1, 2}" using base by blast
  have "merge_streams (map (cursor_branch now cursor priorities resume_at rows) priority_pairs) = reference_window now cursor rows"
  proof (rule streams_reference [OF ids b3, where q = ?q])
    show "cursor_branch now cursor priorities resume_at rows (e, b) = map (Pair e) (ready_stream (?q e b) rows)" for e b
      by (simp add: cursor_branch_def ready_stream_def split: option.split)
  next
    fix e b r
    assume p: "(e, b) \<in> set priority_pairs" and r: "r \<in> set rows"
    have "qr_base_priority r \<in> {0, 1, 2}" "qr_base_priority r \<in> priorities" using base r by auto
    moreover have "(case aged_branch now resume_at e (qr_base_priority r) of None \<Rightarrow> False | Some q \<Rightarrow> q r) \<longleftrightarrow> aged_priority now r = e"
      if "b = qr_base_priority r"
      using p that resume r by (cases resume_at)
        (auto simp: priority_pairs_props aged_priority_cases aged_branch_def Let_def seconds_def max_def)
    ultimately show "?q e b r \<longleftrightarrow> qr_base_priority r = b \<and> aged_priority now r = e \<and> beyond_group cursor e r"
      by (cases "qr_base_priority r = b")
        (auto simp: beyond_def beyond_group_def split: option.splits)
  qed
  moreover have "(case resume_at of None \<Rightarrow> first_row (sort_key age_key rows)
      | Some t \<Rightarrow> resumed_oldest (\<lambda>p. clipped_age_exists db tenant users p t) t rows) = reference_oldest rows"
    using resumed_oldest_reference [OF ids b3] resume by (cases resume_at) (simp_all add: reference_oldest_def)
  ultimately show ?thesis by (simp add: window_fetch_def)
qed


lemma window_rows_reference:
  assumes "distinct (map qr_job_id rows)" "\<forall>r \<in> set rows. qr_base_priority r \<in> {0, 1, 2} \<inter> priorities"
    and "\<And>t. resume_at = Some t \<Longrightarrow> \<forall>r \<in> set rows. qr_effective_since r = max (qr_eligible_since r) t \<and>
      (qr_eligible_since r \<le> t \<longrightarrow> clipped_age_exists db tenant users (qr_base_priority r) t)"
  shows "window_rows db rows now cursor priorities resume_at tenant users = reference_read now cursor rows"
  by (simp add: window_rows_def window_fetch_reference [OF assms] reference_read_def)

subsection \<open>The rows of a query\<close>

lemma queue_rows_job:
  assumes "r \<in> set (queue_rows db now compatible tenant bounds users resume)"
  obtains j since sp where "r = queue_row_of resume j since sp" "j \<in> set (jobs db)" "j_tenant_id j = tenant"
    "j_state j = J_QUEUED" "users (j_submitter_user_id j)" "j_eligible_since j = Some since" "sp \<in> set (job_specs db)"
    "sp_job_id sp = j_job_id j" "sp_gpu_count sp = 0" "in_cell bounds (sp_cpu_millis sp) (sp_memory_bytes sp)"
    "case j_retry_ready_at j of None \<Rightarrow> True | Some t \<Rightarrow> t \<le> now" "(sp_template_id sp, sp_template_version sp) \<in> set compatible"
proof -
  obtain j since sp where r: "r = queue_row_of resume j since sp" "(j, since, sp) \<in> set (joined_rows db now compatible tenant)"
    "users (j_submitter_user_id j)" "in_cell bounds (sp_cpu_millis sp) (sp_memory_bytes sp)"
    using assms by (auto simp: queue_rows_def)
  from r(2) have "j_eligible_since j = Some since" by (auto simp: joined_rows_def split: option.splits)
  then show thesis using r that by (auto simp: joined_rows_def)
qed

lemma queue_row_of_simps [simp]:
  "qr_job_id (queue_row_of resume j since sp) = j_job_id j"
  "qr_submitter_user_id (queue_row_of resume j since sp) = j_submitter_user_id j"
  "qr_eligible_since (queue_row_of resume j since sp) = since"
  "qr_base_priority (queue_row_of resume j since sp) = j_base_priority j"
  "qr_cpu_millis (queue_row_of resume j since sp) = sp_cpu_millis sp"
  "qr_memory_bytes (queue_row_of resume j since sp) = sp_memory_bytes sp"
  "qr_effective_since (queue_row_of resume j since sp) =
     (case resume (j_submitter_user_id j) of None \<Rightarrow> since | Some t \<Rightarrow> max since t)"
  by (simp_all add: queue_row_of_def)

lemma distinct_concat_ids:
  assumes "distinct (map f xs)" "\<And>x. length (g x) \<le> 1" "\<And>x y. y \<in> set (g x) \<Longrightarrow> h y = f x"
  shows "distinct (map h (concat (map g xs)))"
  using assms(1)
proof (induction xs)
  case (Cons x xs)
  have "g x = [] \<or> (\<exists>y. g x = [y])" using assms(2) [of x] by (cases "g x") auto
  moreover have "f x \<notin> h ` set (concat (map g xs))" using Cons.prems assms(3) by fastforce
  ultimately show ?case using Cons assms(3) [of _ x] by auto
qed simp

lemma joined_rows_distinct:
  assumes "distinct (map j_job_id (jobs db))" "distinct (map sp_job_id (job_specs db))"
  shows "distinct (map (\<lambda>(j, _). j_job_id j) (joined_rows db now compatible tenant))"
proof -
  have one: "length (filter (\<lambda>sp. sp_job_id sp = x \<and> p sp) (job_specs db)) \<le> 1" for x p
  proof -
    let ?l = "map sp_job_id (filter (\<lambda>sp. sp_job_id sp = x \<and> p sp) (job_specs db))"
    have "card (set ?l) = length ?l" by (rule distinct_card) (rule distinct_map_filter [OF assms(2)])
    moreover have "card (set ?l) \<le> card {x}" by (rule card_mono) auto
    ultimately show ?thesis by simp
  qed
  show ?thesis unfolding joined_rows_def
    by (rule distinct_concat_ids [where f = j_job_id])
      (use assms(1) one in \<open>auto simp: distinct_map_filter split: option.splits\<close>)
qed

lemma queue_rows_distinct:
  assumes "distinct (map j_job_id (jobs db))" "distinct (map sp_job_id (job_specs db))"
  shows "distinct (map qr_job_id (queue_rows db now compatible tenant bounds users resume))"
proof -
  have "map qr_job_id (queue_rows db now compatible tenant bounds users resume) = map (\<lambda>(j, _). j_job_id j)
      (filter (\<lambda>(j, since, sp). users (j_submitter_user_id j) \<and> in_cell bounds (sp_cpu_millis sp) (sp_memory_bytes sp))
        (joined_rows db now compatible tenant))"
    by (auto simp: queue_rows_def)
  then show ?thesis using joined_rows_distinct [OF assms] by (simp add: distinct_map_filter)
qed

subsection \<open>The batched reader reads the reference window\<close>

lemma age_probe_row:
  assumes "r \<in> set (descriptor_rows db now compatible d)"
  shows "qr_eligible_since r \<in> set (age_probe db d (qr_base_priority r))"
  using assms unfolding descriptor_rows_def
  by (rule queue_rows_job) (force simp: age_probe_def map_filter_def)

lemma has_age_row: "r \<in> set (descriptor_rows db now compatible d) \<Longrightarrow> qr_eligible_since r > t \<Longrightarrow> has_age db d (qr_base_priority r) t"
  using age_probe_row by (auto simp: has_age_def list_ex_iff)

lemma oldest_age_row:
  assumes "r \<in> set (descriptor_rows db now compatible d)" "qr_eligible_since r \<le> t"
  shows "oldest_age_until db d t (qr_base_priority r)"
proof -
  have e: "qr_eligible_since r \<in> set (sort (age_probe db d (qr_base_priority r)))" using age_probe_row [OF assms(1)] by simp
  then obtain x xs where x: "sort (age_probe db d (qr_base_priority r)) = x # xs" by (cases "sort (age_probe db d (qr_base_priority r))") auto
  moreover have "sorted (x # xs)" using x by (metis sorted_sort)
  ultimately have "x \<le> qr_eligible_since r" using e by auto
  then show ?thesis using x assms(2) by (simp add: oldest_age_until_def)
qed

lemma batched_age_priority:
  assumes "(e, qr_base_priority r) \<in> set priority_pairs" "qr_base_priority r \<in> {0, 1, 2}"
    and eff: "qr_effective_since r = (case de_resume_at d of None \<Rightarrow> qr_eligible_since r | Some t \<Rightarrow> max (qr_eligible_since r) t)"
    and has: "\<And>t. qr_eligible_since r > t \<Longrightarrow> has_age db d (qr_base_priority r) t"
  shows "batched_age db now d e (qr_base_priority r) r \<longleftrightarrow> aged_priority now r = e"
proof -
  have "now - seconds 120 \<le> now - seconds 60" by (simp add: seconds_def)
  then have old: "x \<le> now - seconds 120 \<Longrightarrow> x \<le> now - seconds 60" for x by simp
  show ?thesis
    using assms(1) has unfolding aged_priority_cases [OF assms(2)] eff batched_age_def Let_def priority_pairs_props
    by (cases "de_resume_at d") (auto dest: old simp: not_le)
qed

lemma batched_window_reference:
  assumes ids: "distinct (map qr_job_id (descriptor_rows db now compatible d))"
    and base: "\<forall>r \<in> set (descriptor_rows db now compatible d). qr_base_priority r \<in> {0, 1, 2}"
  shows "batched_window db now compatible d =
    (reference_window now (de_cursor d) (descriptor_rows db now compatible d), reference_oldest (descriptor_rows db now compatible d))"
proof -
  let ?rows = "descriptor_rows db now compatible d"
  have eff: "qr_effective_since r = (case de_resume_at d of None \<Rightarrow> qr_eligible_since r | Some t \<Rightarrow> max (qr_eligible_since r) t)"
    if "r \<in> set ?rows" for r
    using that unfolding descriptor_rows_def by (rule queue_rows_job) (simp split: option.split)
  let ?q = "\<lambda>e b r. qr_base_priority r = b \<and> beyond_group (de_cursor d) e r \<and> batched_age db now d e b r"
  have "merge_streams (map (\<lambda>(e, b). map (Pair e) (ready_stream (?q e b) ?rows)) priority_pairs) =
    reference_window now (de_cursor d) ?rows"
  proof (rule streams_reference [OF ids base, where q = ?q])
    fix e b r
    assume p: "(e, b) \<in> set priority_pairs" and r: "r \<in> set ?rows"
    have "qr_base_priority r \<in> {0, 1, 2}" using base r by blast
    moreover have "batched_age db now d e b r \<longleftrightarrow> aged_priority now r = e" if "b = qr_base_priority r"
      using batched_age_priority [OF _ _ eff [OF r]] p that has_age_row [OF r] calculation by simp
    ultimately show "?q e b r \<longleftrightarrow> qr_base_priority r = b \<and> aged_priority now r = e \<and> beyond_group (de_cursor d) e r" by blast
  qed simp
  moreover have "resumed_oldest (oldest_age_until db d t) t ?rows = reference_oldest ?rows" if "de_resume_at d = Some t" for t
    by (rule resumed_oldest_reference [OF ids base]) (use that eff oldest_age_row in auto)
  moreover have "first_row (sort_key (\<lambda>r. (qr_eligible_since r, ready_key r)) ?rows) = reference_oldest ?rows" if "de_resume_at d = None"
    unfolding reference_oldest_def by (rule arg_cong [where f = first_row], rule sort_key_cong) (use that eff in \<open>auto simp: age_key_def\<close>)
  ultimately show ?thesis unfolding batched_window_def Let_def by (cases "de_resume_at d") simp_all
qed


subsection \<open>Groups\<close>

lemma reference_read_mset:
  assumes "mset rows = mset rows'" "distinct (map qr_job_id rows)"
  shows "reference_window now cursor rows = reference_window now cursor rows'" "reference_oldest rows = reference_oldest rows'"
proof -
  let ?c = "\<lambda>r. beyond_group cursor (aged_priority now r) r"
  have "mset (map (\<lambda>r. (aged_priority now r, r)) (filter ?c rows)) = mset (map (\<lambda>r. (aged_priority now r, r)) (filter ?c rows'))"
    using assms(1) by simp
  from sort_key_mset [OF this distinct_keys(2) [OF assms(2)]]
  show "reference_window now cursor rows = reference_window now cursor rows'" by (simp add: reference_window_def)
  show "reference_oldest rows = reference_oldest rows'"
    unfolding reference_oldest_def using sort_key_mset [OF assms(1) distinct_keys(1) [OF assms(2)]] by simp
qed

lemma merged_group_reference:
  assumes "distinct (map qr_job_id (concat gs))"
  shows "merged_group (map (\<lambda>g. (reference_window now cursor g, reference_oldest g)) gs) =
    (reference_window now cursor (concat gs), reference_oldest (concat gs))"
proof -
  let ?F = "\<lambda>g. map (\<lambda>r. (aged_priority now r, r)) (filter (\<lambda>r. beyond_group cursor (aged_priority now r) r) g)"
  have F: "concat (map ?F gs) = ?F (concat gs)" by (simp add: filter_concat map_concat comp_def)
  have d: "distinct (map window_key (?F (concat gs)))" by (rule distinct_keys(2) [OF assms])
  have w: "concat (map fst (map (\<lambda>g. (reference_window now cursor g, reference_oldest g)) gs)) =
      concat (map (\<lambda>xs. take window_size (sort_key window_key xs)) (map ?F gs))"
    by (simp add: reference_window_def comp_def)
  have o: "List.map_filter snd (map (\<lambda>g. (reference_window now cursor g, reference_oldest g)) gs) =
      concat (map (\<lambda>xs. take 1 (sort_key age_key xs)) gs)"
    by (induction gs) (auto simp: map_filter_def reference_oldest_def first_row_def split: list.splits)
  have top: "take 1 (sort_key age_key (concat (map (\<lambda>xs. take 1 (sort_key age_key xs)) gs))) = take 1 (sort_key age_key (concat gs))"
    by (rule take_sort_concat [OF distinct_keys(1) [OF assms]])
  have "first_row (sort_key age_key (concat (map (\<lambda>xs. take 1 (sort_key age_key xs)) gs))) = reference_oldest (concat gs)"
    unfolding reference_oldest_def by (subst (1 2) first_row_take [symmetric]) (simp only: top)
  moreover have "take window_size (sort_key window_key (concat (map (\<lambda>xs. take window_size (sort_key window_key xs)) (map ?F gs)))) =
      reference_window now cursor (concat gs)"
    unfolding reference_window_def by (rule take_sort_streams [OF d arg_cong [where f = mset, OF F]])
  ultimately show ?thesis unfolding merged_group_def w o by (simp only:)
qed

subsection \<open>Cells\<close>

fun chain :: "int \<Rightarrow> (int \<times> int \<times> 'a) list \<Rightarrow> int \<Rightarrow> bool" where
  "chain a [] b \<longleftrightarrow> a = b"
| "chain a ((l, h, _) # ivs) b \<longleftrightarrow> l = a \<and> l < h \<and> chain h ivs b"

lemma chain_append: "chain a (xs @ ys) c \<longleftrightarrow> (\<exists>b. chain a xs b \<and> chain b ys c)"
  by (induction a xs c rule: chain.induct) auto

lemma chain_le: "chain a ivs b \<Longrightarrow> a \<le> b"
  by (induction a ivs b rule: chain.induct) auto

lemma chain_bounds: "chain a ivs b \<Longrightarrow> (l, h, t) \<in> set ivs \<Longrightarrow> a \<le> l \<and> l < h \<and> h \<le> b"
  by (induction a ivs b rule: chain.induct) (auto dest: chain_le)

lemma chain_covers: "chain a ivs b \<Longrightarrow> a < n \<Longrightarrow> n \<le> b \<Longrightarrow> \<exists>l h t. (l, h, t) \<in> set ivs \<and> l < n \<and> n \<le> h"
  by (induction a ivs b rule: chain.induct) (force simp: not_le)+

lemma chain_unique:
  assumes "chain a ivs b" "(l, h, t) \<in> set ivs" "(l', h', t') \<in> set ivs" "l < n" "n \<le> h" "l' < n" "n \<le> h'"
  shows "(l, h, t) = (l', h', t')"
  using assms by (induction a ivs b rule: chain.induct) (auto dest: chain_bounds)

lemma chain_distinct: "chain a ivs b \<Longrightarrow> distinct ivs"
  by (induction a ivs b rule: chain.induct) (auto dest: chain_bounds)

lemma quota_intervals_from_chain:
  assumes "chain (- 1) ivs low" "\<forall>(l, h, t) \<in> set ivs. \<forall>n. l < n \<and> n \<le> h \<longrightarrow> A n = t"
    and "sorted_wrt (<) (map fst steps)" "\<forall>s \<in> set steps. low < fst s" "\<forall>n > low. n \<le> limit \<longrightarrow> A n = step_at steps n"
  shows "\<exists>b. chain (- 1) (quota_intervals_from ivs low steps limit) b \<and> b = max low (min limit (if steps = [] then low else fst (last steps))) \<and>
    (\<forall>(l, h, t) \<in> set (quota_intervals_from ivs low steps limit). \<forall>n. l < n \<and> n \<le> h \<longrightarrow> A n = t)"
  using assms
proof (induction ivs low steps limit rule: quota_intervals_from.induct)
  case (2 ivs low high t steps limit)
  show ?case
  proof (cases "low \<ge> limit")
    case False
    let ?up = "min high limit"
    let ?ivs = "if ivs \<noteq> [] \<and> snd (snd (last ivs)) = t then butlast ivs @ [(fst (last ivs), ?up, t)] else ivs @ [(low, ?up, t)]"
    have up: "low < ?up" using False 2(5) by simp
    have here: "A n = t" if "low < n" "n \<le> ?up" for n
      using 2(6) that by (simp add: step_at_def)
    have "chain (- 1) ?ivs ?up \<and> (\<forall>(l, h, t) \<in> set ?ivs. \<forall>n. l < n \<and> n \<le> h \<longrightarrow> A n = t)"
    proof (cases "ivs \<noteq> [] \<and> snd (snd (last ivs)) = t")
      case True
      then obtain bs l h where ivs: "ivs = bs @ [(l, h, t)]" by (cases ivs rule: rev_cases) auto
      then have "h = low" "l < low" "chain (- 1) bs l" using 2(2) by (auto simp: chain_append)
      moreover have "A n = t" if "l < n" "n \<le> ?up" for n
        using here that 2(3) ivs calculation(1) by (cases "n \<le> low") auto
      ultimately show ?thesis using True ivs up 2(3) by (auto simp: chain_append)
    next
      case False
      then show ?thesis using 2(2,3) up here by (auto simp: chain_append)
    qed
    moreover have "sorted_wrt (<) (map fst steps)" "\<forall>s \<in> set steps. ?up < fst s" using 2(4) by auto
    moreover have "\<forall>n > ?up. n \<le> limit \<longrightarrow> A n = step_at steps n" using 2(6) up by (auto simp: step_at_def)
    ultimately obtain b where "chain (- 1) (quota_intervals_from ?ivs ?up steps limit) b"
      "b = max ?up (min limit (if steps = [] then ?up else fst (last steps)))"
      "\<forall>(l, h, t) \<in> set (quota_intervals_from ?ivs ?up steps limit). \<forall>n. l < n \<and> n \<le> h \<longrightarrow> A n = t"
      using 2(1) [OF False refl] by blast
    moreover have "steps \<noteq> [] \<Longrightarrow> high < fst (last steps)" using 2(4) by simp
    ultimately have "b = max low (min limit (fst (last ((high, t) # steps))))" using up by auto
    moreover have "quota_intervals_from ivs low ((high, t) # steps) limit = quota_intervals_from ?ivs ?up steps limit"
      using False by (simp add: Let_def)
    ultimately show ?thesis using \<open>chain (- 1) (quota_intervals_from ?ivs ?up steps limit) b\<close>
      \<open>\<forall>(l, h, t) \<in> set (quota_intervals_from ?ivs ?up steps limit). \<forall>n. l < n \<and> n \<le> h \<longrightarrow> A n = t\<close> by simp
  qed (use 2 in simp)
qed simp

end
