(* ===== verification/Quota_Headroom.thy ===== *)
theory Quota_Headroom
  imports Snapshot_Windows
begin

section \<open>Quota headroom\<close>

text \<open>
  The trigger functions \<^verbatim>\<open>nexa_b13_quota_step\<close> and \<^verbatim>\<open>nexa_b13_set_quota_headroom\<close> of
  \<^verbatim>\<open>src/migrations/versions/20260925_0017_b13_quota_headroom.py\<close>: for each tenant and resource a staircase of
  steps, ordered by upper bound, that tells since when requests of a size fit beside the held
  allocations.  It replaces a time per queued job; the lemmas show that it stores exactly the time each
  size has fitted since, and that the cells a tick cuts from two staircases partition the fitting sizes.
\<close>

definition top_step :: "quota_step list \<Rightarrow> int" where
  "top_step steps = (if steps = [] then - 1 else fst (last steps))"

definition quota_step :: "quota_step list \<Rightarrow> int \<Rightarrow> timestamp option \<Rightarrow> quota_step list" where
  "quota_step steps headroom now =
     (let top = top_step steps; higher = filter (\<lambda>s. fst s > headroom) steps; kept = filter (\<lambda>s. fst s \<le> headroom) steps in
      if headroom = top then steps
      else if headroom > top then steps @ [(headroom, now)]
      else if headroom \<ge> 0 \<and> \<not> list_ex (\<lambda>s. fst s = headroom) kept
        then kept @ [(headroom, case higher of [] \<Rightarrow> None | s # _ \<Rightarrow> snd s)]
      else kept)"

text \<open>The staircases of a tenant, for CPU and memory.\<close>

record headroom =
  hr_cpu :: "quota_step list"
  hr_memory :: "quota_step list"

definition held_sum :: "(allocation_row \<Rightarrow> int) \<Rightarrow> db \<Rightarrow> uuid \<Rightarrow> int" where
  "held_sum f db tenant = sum_list (map f (filter (\<lambda>al. al_tenant_id al = tenant \<and> al_state al \<noteq> S_RELEASED) (allocations db)))"

definition set_quota_headroom :: "db \<Rightarrow> uuid \<Rightarrow> int \<Rightarrow> int \<Rightarrow> bool \<Rightarrow> timestamp \<Rightarrow> headroom \<Rightarrow> headroom" where
  "set_quota_headroom db tenant cpu_limit memory_limit initially now h =
     (let boundary = (if initially \<and> hr_cpu h = [] \<and> hr_memory h = [] then None else Some now) in
      h\<lparr>hr_cpu := quota_step (hr_cpu h) (cpu_limit - held_sum al_cpu_millis db tenant) boundary,
        hr_memory := quota_step (hr_memory h) (memory_limit - held_sum al_memory_bytes db tenant) boundary\<rparr>)"

text \<open>What the staircase stands for: for one size, whether it is blocked and when it last stopped being so.\<close>

definition track :: "int \<Rightarrow> bool \<times> timestamp option \<Rightarrow> int \<times> timestamp option \<Rightarrow> bool \<times> timestamp option" where
  "track n s change = (case change of (room, now) \<Rightarrow>
     if n \<le> room then (False, if fst s then now else snd s) else (True, snd s))"

definition staircase :: "quota_step list \<Rightarrow> int \<Rightarrow> bool" where
  "staircase steps room \<longleftrightarrow> sorted_wrt (<) (map fst steps) \<and> (\<forall>s \<in> set steps. 0 \<le> fst s) \<and> top_step steps = max (- 1) room"

subsection \<open>The staircase stores the history of every size\<close>

lemma staircase_Nil [simp]: "staircase [] room \<longleftrightarrow> room < 0"
  by (auto simp: staircase_def top_step_def)

lemma top_step_ge: "sorted_wrt (<) (map fst steps) \<Longrightarrow> s \<in> set steps \<Longrightarrow> fst s \<le> top_step steps"
  by (cases steps rule: rev_cases) (auto simp: top_step_def sorted_wrt_append)

lemma track_simps [simp]: "track n s (room, now) = (if n \<le> room then (False, if fst s then now else snd s) else (True, snd s))"
  by (simp add: track_def)

lemma step_at_append:
  "step_at (xs @ ys) n = (if list_ex (\<lambda>s. n \<le> fst s) xs then step_at xs n else step_at ys n)"
  by (induction xs) (auto simp: step_at_def)

lemma step_at_filter:
  assumes "list_ex (\<lambda>s. n \<le> fst s) (filter (\<lambda>s. fst s \<le> room) steps)" "sorted_wrt (<) (map fst steps)"
  shows "step_at (filter (\<lambda>s. fst s \<le> room) steps) n = step_at steps n"
  using assms
proof (induction steps)
  case (Cons s steps)
  then show ?case by (cases s) (force simp: step_at_def list_ex_iff)
qed simp

lemma step_at_higher:
  assumes "sorted_wrt (<) (map fst steps)" "n \<le> room" "\<not> list_ex (\<lambda>s. n \<le> fst s) (filter (\<lambda>s. fst s \<le> room) steps)"
  shows "step_at steps n = (case filter (\<lambda>s. fst s > room) steps of [] \<Rightarrow> None | s # _ \<Rightarrow> snd s)"
proof -
  have "filter (\<lambda>(high, _). n \<le> high) steps = filter (\<lambda>s. fst s > room) steps"
  proof (rule filter_cong [OF refl])
    fix x assume "x \<in> set steps"
    then have "n \<le> fst x \<longrightarrow> \<not> fst x \<le> room" using assms(3) unfolding list_ex_iff set_filter by blast
    then show "(case x of (high, _) \<Rightarrow> n \<le> high) = (room < fst x)" using assms(2) by (auto split: prod.split)
  qed
  then show ?thesis by (simp add: step_at_def case_prod_beta split: list.split)
qed

lemma quota_step_staircase:
  assumes "staircase steps room"
  shows "staircase (quota_step steps room' now) room'"
proof -
  have s: "sorted_wrt (<) (map fst steps)" "\<forall>x \<in> set steps. 0 \<le> fst x" using assms by (simp_all add: staircase_def)
  let ?kept = "filter (\<lambda>x. fst x \<le> room') steps"
  have k: "sorted_wrt (<) (map fst ?kept)" using s(1) by (metis sorted_wrt_filter sorted_wrt_map)
  consider "room' = top_step steps" | "room' > top_step steps" | "room' < top_step steps" by linarith
  then show ?thesis
  proof cases
    case 1
    then have "- 1 \<le> room'" using s(2) last_in_set [of steps] by (fastforce simp: top_step_def)
    then show ?thesis using 1 s by (simp add: quota_step_def staircase_def)
  next
    case 2
    then have "0 \<le> room'" using s(2) last_in_set [of steps] by (fastforce simp: top_step_def split: if_splits)
    then show ?thesis using 2 s top_step_ge [OF s(1)]
      by (auto simp: quota_step_def staircase_def sorted_wrt_append top_step_def [of "_ @ _"]) force
  next
    case 3
    then have q: "quota_step steps room' now = (if room' \<ge> 0 \<and> \<not> list_ex (\<lambda>x. fst x = room') ?kept
        then ?kept @ [(room', case filter (\<lambda>x. fst x > room') steps of [] \<Rightarrow> None | x # _ \<Rightarrow> snd x)] else ?kept)"
      by (simp add: quota_step_def Let_def)
    have "top_step ?kept = max (- 1) room'" if gone: "\<not> (room' \<ge> 0 \<and> \<not> list_ex (\<lambda>x. fst x = room') ?kept)"
    proof (cases "room' \<ge> 0")
      case True
      then obtain x where x: "x \<in> set ?kept" "fst x = room'" using gone unfolding list_ex_iff by blast
      then have "room' \<le> top_step ?kept" using top_step_ge [OF k x(1)] by simp
      moreover have "top_step ?kept \<le> room'" using x(1) True last_in_set [of ?kept] by (auto simp: top_step_def)
      ultimately show ?thesis using True by simp
    next
      case False
      then have "?kept = []" using s(2) by (auto simp: filter_empty_conv)
      then show ?thesis using False by (simp add: top_step_def)
    qed
    moreover have "\<forall>x \<in> set ?kept. fst x < room'" if "\<not> list_ex (\<lambda>x. fst x = room') ?kept"
    proof -
      have "\<forall>x \<in> set ?kept. fst x \<noteq> room'" using that unfolding list_ex_iff by blast
      then show ?thesis by (simp add: order.strict_iff_order)
    qed
    ultimately show ?thesis using k s(2) unfolding q staircase_def
      by (auto simp: sorted_wrt_append top_step_def [of "_ @ _"])
  qed
qed

lemma quota_step_at:
  assumes "staircase steps room" "n \<le> room'" "0 \<le> n"
  shows "step_at (quota_step steps room' now) n = (if n \<le> room then step_at steps n else now)"
proof -
  have s: "sorted_wrt (<) (map fst steps)" "top_step steps = max (- 1) room" using assms(1) by (simp_all add: staircase_def)
  have below: "list_ex (\<lambda>x. n \<le> fst x) steps \<longleftrightarrow> n \<le> room"
  proof
    assume "list_ex (\<lambda>x. n \<le> fst x) steps"
    then show "n \<le> room" using top_step_ge [OF s(1)] s(2) assms(3) by (force simp: list_ex_iff)
  next
    assume "n \<le> room"
    then show "list_ex (\<lambda>x. n \<le> fst x) steps"
      using s(2) assms(3) last_in_set [of steps] by (force simp: list_ex_iff top_step_def split: if_splits)
  qed
  let ?kept = "filter (\<lambda>x. fst x \<le> room') steps"
  consider "room' = top_step steps" | "room' > top_step steps" | "room' < top_step steps" by linarith
  then show ?thesis
  proof cases
    case 1
    then show ?thesis using assms(2,3) s(2) by (simp add: quota_step_def max_def split: if_splits)
  next
    case 2
    then show ?thesis using assms(2) below by (simp add: quota_step_def Let_def step_at_append) (simp add: step_at_def)
  next
    case 3
    then have r: "n \<le> room" using assms(2,3) s(2) by linarith
    have q: "quota_step steps room' now = (if room' \<ge> 0 \<and> \<not> list_ex (\<lambda>x. fst x = room') ?kept
        then ?kept @ [(room', case filter (\<lambda>x. fst x > room') steps of [] \<Rightarrow> None | x # _ \<Rightarrow> snd x)] else ?kept)"
      using 3 by (simp add: quota_step_def Let_def)
    show ?thesis
    proof (cases "list_ex (\<lambda>x. n \<le> fst x) ?kept")
      case True
      then show ?thesis using q r step_at_filter [OF True s(1)] by (simp add: step_at_append)
    next
      case False
      then have "\<not> list_ex (\<lambda>x. fst x = room') ?kept" using assms(2) by (auto simp: list_ex_iff)
      then show ?thesis using q r False assms(2,3) step_at_higher [OF s(1) assms(2) False]
        by (simp add: step_at_append) (simp add: step_at_def [of "[_]"])
    qed
  qed
qed

text \<open>C13: The staircase of a tenant replaces a time for every size of request.  After any series of changes of
  the headroom, a request of a given size fits exactly if its last tracked state says so, and the step
  it falls under holds the time since which it has fitted without interruption.\<close>

theorem headroom_tracks_sizes:
  assumes "0 \<le> n" "changes \<noteq> []"
  shows "(let steps = foldl (\<lambda>st (room, now). quota_step st room now) [] changes; (blocked, since) = foldl (track n) (True, None) changes in
    (blocked \<longleftrightarrow> fst (last changes) < n) \<and> (\<not> blocked \<longrightarrow> step_at steps n = since))"
proof -
  let ?st = "\<lambda>cs. foldl (\<lambda>st (room, now). quota_step st room now) [] cs" and ?tr = "\<lambda>cs. foldl (track n) (True, None) cs"
  have "staircase (?st cs) (if cs = [] then - 1 else fst (last cs)) \<and>
      (fst (?tr cs) \<longleftrightarrow> (if cs = [] then - 1 else fst (last cs)) < n) \<and> (\<not> fst (?tr cs) \<longrightarrow> step_at (?st cs) n = snd (?tr cs))" for cs
  proof (induction cs rule: rev_induct)
    case (snoc c cs)
    obtain room now where c: "c = (room, now)" by (cases c)
    note ih = snoc.IH
    have "staircase (?st (cs @ [c])) room" using quota_step_staircase [OF conjunct1 [OF ih]] by (simp add: c)
    moreover have "step_at (?st (cs @ [c])) n = snd (?tr (cs @ [c]))" if "n \<le> room"
      using that ih quota_step_at [OF conjunct1 [OF ih] that assms(1), of now] by (auto simp: c)
    ultimately show ?case by (auto simp: c)
  qed (use assms(1) in simp)
  from this [of changes] assms(2) show ?thesis by (auto simp: Let_def split: prod.split)
qed

theorem headroom_tracks_sizes_witness:
  "step_at (foldl (\<lambda>st (room, now). quota_step st room now) [] [(4, Some 1), (2, Some 2), (3, Some 3)]) 3 = Some 3"
  using headroom_tracks_sizes [of 3 "[(4, Some 1), (2, Some 2), (3, Some 3)]"] by (simp add: Let_def)


subsection \<open>Cells partition the fitting sizes\<close>

lemma quota_intervals_facts:
  assumes "staircase steps room"
  obtains b where "chain (- 1) (quota_intervals steps limit) b" "b = max (- 1) (min limit room)"
    "\<And>l h t n. (l, h, t) \<in> set (quota_intervals steps limit) \<Longrightarrow> l < n \<Longrightarrow> n \<le> h \<Longrightarrow> step_at steps n = t"
proof -
  have "\<exists>b. chain (- 1) (quota_intervals steps limit) b \<and> b = max (- 1) (min limit (top_step steps)) \<and>
      (\<forall>(l, h, t) \<in> set (quota_intervals steps limit). \<forall>n. l < n \<and> n \<le> h \<longrightarrow> step_at steps n = t)"
    unfolding quota_intervals_def top_step_def
    by (rule quota_intervals_from_chain) (use assms in \<open>auto simp: staircase_def\<close>)
  then obtain b where "chain (- 1) (quota_intervals steps limit) b" "b = max (- 1) (min limit (top_step steps))"
    "\<forall>(l, h, t) \<in> set (quota_intervals steps limit). \<forall>n. l < n \<and> n \<le> h \<longrightarrow> step_at steps n = t" by blast
  moreover have "max (- 1) (min limit (top_step steps)) = max (- 1) (min limit room)" using assms by (auto simp: staircase_def)
  ultimately show thesis by (intro that [of b]) auto
qed

definition cell_at :: "quota_cell list \<Rightarrow> int \<Rightarrow> int \<Rightarrow> quota_cell option" where
  "cell_at cells cpu memory = find (\<lambda>c. in_cell (fst c) cpu memory) cells"

lemma quota_cells_mem:
  "(bounds, at') \<in> set (quota_cells cs ms max_cpu max_memory) \<longleftrightarrow> (\<exists>l h t l' h' t'. (l, h, t) \<in> set (quota_intervals cs max_cpu) \<and>
     (l', h', t') \<in> set (quota_intervals ms max_memory) \<and> bounds = (l, h, l', h') \<and> at' = latest [t, t'])"
  by (force simp: quota_cells_def)

lemma quota_cells_facts:
  assumes "staircase cs cpu_room" "staircase ms memory_room"
  shows quota_cells_unique: "c \<in> set (quota_cells cs ms max_cpu max_memory) \<Longrightarrow> c' \<in> set (quota_cells cs ms max_cpu max_memory) \<Longrightarrow>
      in_cell (fst c) cpu memory \<Longrightarrow> in_cell (fst c') cpu memory \<Longrightarrow> c = c'"
    and quota_cells_time: "c \<in> set (quota_cells cs ms max_cpu max_memory) \<Longrightarrow> in_cell (fst c) cpu memory \<Longrightarrow>
      snd c = latest [step_at cs cpu, step_at ms memory] \<and> cpu \<le> max_cpu \<and> memory \<le> max_memory \<and> 0 \<le> cpu \<and> 0 \<le> memory"
    and quota_cells_cover: "0 \<le> cpu \<Longrightarrow> cpu \<le> max_cpu \<Longrightarrow> cpu \<le> cpu_room \<Longrightarrow> 0 \<le> memory \<Longrightarrow> memory \<le> max_memory \<Longrightarrow>
      memory \<le> memory_room \<Longrightarrow> \<exists>c \<in> set (quota_cells cs ms max_cpu max_memory). in_cell (fst c) cpu memory"
proof -
  obtain b where C: "chain (- 1) (quota_intervals cs max_cpu) b" "b = max (- 1) (min max_cpu cpu_room)"
    "\<And>l h t n. (l, h, t) \<in> set (quota_intervals cs max_cpu) \<Longrightarrow> l < n \<Longrightarrow> n \<le> h \<Longrightarrow> step_at cs n = t"
    using quota_intervals_facts [OF assms(1)] by blast
  obtain b' where M: "chain (- 1) (quota_intervals ms max_memory) b'" "b' = max (- 1) (min max_memory memory_room)"
    "\<And>l h t n. (l, h, t) \<in> set (quota_intervals ms max_memory) \<Longrightarrow> l < n \<Longrightarrow> n \<le> h \<Longrightarrow> step_at ms n = t"
    using quota_intervals_facts [OF assms(2)] by blast
  show "c = c'" if "c \<in> set (quota_cells cs ms max_cpu max_memory)" "c' \<in> set (quota_cells cs ms max_cpu max_memory)"
    "in_cell (fst c) cpu memory" "in_cell (fst c') cpu memory"
    by (cases c; cases c') (use that in \<open>auto simp: quota_cells_mem in_cell_def dest: chain_unique [OF C(1)] chain_unique [OF M(1)]\<close>)
  show "snd c = latest [step_at cs cpu, step_at ms memory] \<and> cpu \<le> max_cpu \<and> memory \<le> max_memory \<and> 0 \<le> cpu \<and> 0 \<le> memory"
    if c: "c \<in> set (quota_cells cs ms max_cpu max_memory)" "in_cell (fst c) cpu memory"
  proof -
    obtain l h t l' h' t' where i: "(l, h, t) \<in> set (quota_intervals cs max_cpu)" "(l', h', t') \<in> set (quota_intervals ms max_memory)"
      "fst c = (l, h, l', h')" "snd c = latest [t, t']"
      using c(1) unfolding quota_cells_mem [of "fst c" "snd c", simplified prod.collapse] by blast
    then have n: "l < cpu" "cpu \<le> h" "l' < memory" "memory \<le> h'" using c(2) by (auto simp: in_cell_def)
    show ?thesis using C(3) [OF i(1) n(1,2)] M(3) [OF i(2) n(3,4)] chain_bounds [OF C(1) i(1)] chain_bounds [OF M(1) i(2)] C(2) M(2) i(4) n
      by (auto simp: max_def min_def split: if_splits)
  qed
  assume r: "0 \<le> cpu" "cpu \<le> max_cpu" "cpu \<le> cpu_room" "0 \<le> memory" "memory \<le> max_memory" "memory \<le> memory_room"
  obtain l h t where "(l, h, t) \<in> set (quota_intervals cs max_cpu)" "l < cpu" "cpu \<le> h"
    using chain_covers [OF C(1), of cpu] C(2) r by auto
  moreover obtain l' h' t' where "(l', h', t') \<in> set (quota_intervals ms max_memory)" "l' < memory" "memory \<le> h'"
    using chain_covers [OF M(1), of memory] M(2) r by auto
  ultimately have "((l, h, l', h'), latest [t, t']) \<in> set (quota_cells cs ms max_cpu max_memory)"
    "in_cell (l, h, l', h') cpu memory" by (auto simp: quota_cells_mem in_cell_def)
  then show "\<exists>c \<in> set (quota_cells cs ms max_cpu max_memory). in_cell (fst c) cpu memory" by force
qed

lemma quota_cells_distinct:
  assumes "staircase cs cpu_room" "staircase ms memory_room"
  shows "distinct (quota_cells cs ms max_cpu max_memory)"
proof -
  obtain b where C: "chain (- 1) (quota_intervals cs max_cpu) b" using quota_intervals_facts [OF assms(1)] by blast
  obtain b' where M: "chain (- 1) (quota_intervals ms max_memory) b'" using quota_intervals_facts [OF assms(2)] by blast
  have inj: "h = h' \<and> t = t'" if "(l, h, t) \<in> set (quota_intervals xs m)" "(l, h', t') \<in> set (quota_intervals xs m)"
    "chain (- 1) (quota_intervals xs m) e" for l h t h' t' xs m e
    using chain_unique [OF that(3,1,2), of "l + 1"] chain_bounds [OF that(3)] that by fastforce
  have "distinct (map (\<lambda>((a, b', c, d), e). (a, c)) (quota_cells cs ms max_cpu max_memory))"
  proof -
    have 1: "map (\<lambda>((a, b', c, d), e). (a, c)) (quota_cells cs ms max_cpu max_memory) =
        List.product (map fst (quota_intervals cs max_cpu)) (map fst (quota_intervals ms max_memory))"
      by (simp add: quota_cells_def map_concat product_concat_map comp_def case_prod_beta)
    have 2: "distinct (map fst (quota_intervals cs max_cpu))" "distinct (map fst (quota_intervals ms max_memory))"
      using chain_distinct [OF C] chain_distinct [OF M] inj C M unfolding distinct_map inj_on_def by fastforce+
    show ?thesis unfolding 1 using 2 by (rule distinct_product)
  qed
  then show ?thesis by (simp only: distinct_map)
qed

end
