(* ===== verification/Eligibility_Replay.thy ===== *)
theory Eligibility_Replay
  imports Coordinator_Recovery "HOL-Library.Multiset"
begin

section \<open>Eligibility replay\<close>

text \<open>
  \<^verbatim>\<open>src/src/nexa/coordinator/eligibility.py\<close>: a change of a tenant's limits or of the inventory leaves an event
  with the state before and after it, and ticks replay the event on the queued jobs in pages of
  sixty-four.  The two caches of \<^verbatim>\<open>_possible\<close> only avoid repeated work.  Whether a template runs on an
  inventory is the argument \<open>runs_on\<close>.
\<close>

definition eligibility_batch_size :: nat where
  "eligibility_batch_size = 64"

record eligibility_state =
  es_enabled :: bool
  es_cpu :: int
  es_memory :: int
  es_inventory :: "inventory_row option"

record eligibility_event =
  ee_event_id :: int
  ee_tenant_id :: uuid
  ee_occurred_at :: timestamp
  ee_rebuild :: bool
  ee_old_state :: eligibility_state
  ee_new_state :: eligibility_state
  ee_last_job_id :: "uuid option"
  ee_last_processed_at :: "timestamp option"
  ee_completed_at :: "timestamp option"

definition possible ::
  "(template_row \<Rightarrow> inventory_row \<Rightarrow> bool) \<Rightarrow> db \<Rightarrow> eligibility_state \<Rightarrow> spec_row \<Rightarrow> bool" where
  "possible runs_on db state sp =
     (if \<not> es_enabled state \<or> sp_gpu_count sp \<noteq> 0 \<or> sp_cpu_millis sp > es_cpu state \<or> sp_memory_bytes sp > es_memory state
      then False
      else template_compatible_with runs_on
        (find (\<lambda>(tv, _). t_template_id tv = sp_template_id sp \<and> t_version tv = sp_template_version sp)
          (concat (map (\<lambda>tv. map (\<lambda>tm. (tv, tm_enabled tm)) (filter (\<lambda>tm. tm_template_id tm = t_template_id tv) (templates db)))
            (template_versions db))))
        (es_inventory state))"

definition pending_eligibility_tenants :: "eligibility_event list \<Rightarrow> uuid set" where
  "pending_eligibility_tenants evs = ee_tenant_id ` set (filter (\<lambda>e. ee_completed_at e = None) evs)"

text \<open>The age of a job after the event; no value keeps the one it has.\<close>

definition changed_age ::
  "(template_row \<Rightarrow> inventory_row \<Rightarrow> bool) \<Rightarrow> db \<Rightarrow> eligibility_event \<Rightarrow> job_row \<Rightarrow> spec_row \<Rightarrow> timestamp option option" where
  "changed_age runs_on db e j sp =
     (let restarted = max (ee_occurred_at e) (case j_retry_ready_at j of None \<Rightarrow> ee_occurred_at e | Some t \<Rightarrow> t);
          new_possible = possible runs_on db (ee_new_state e) sp in
      if ee_rebuild e
      then let age = (if new_possible then (case j_eligible_since j of None \<Rightarrow> Some restarted | Some t \<Rightarrow> Some t) else None) in
        if j_eligible_since j \<noteq> age then Some age else None
      else if possible runs_on db (ee_old_state e) sp = new_possible then None
      else let age = (if new_possible then Some restarted else None) in
        if j_eligible_since j \<noteq> age then Some age else None)"

definition replay_rows :: "db \<Rightarrow> eligibility_event \<Rightarrow> (job_row \<times> spec_row) list" where
  "replay_rows db e = sort_key (\<lambda>p. j_job_id (fst p)) (concat (map (\<lambda>j. map (Pair j) (filter (\<lambda>sp. sp_job_id sp = j_job_id j) (job_specs db)))
     (filter (\<lambda>j. j_tenant_id j = ee_tenant_id e \<and> j_state j = J_QUEUED \<and> j_created_at j \<le> ee_occurred_at e) (jobs db))))"

definition after_id :: "uuid option \<Rightarrow> uuid \<Rightarrow> bool" where
  "after_id last_id i = (case last_id of None \<Rightarrow> True | Some l \<Rightarrow> i > l)"

definition apply_ages :: "(uuid \<times> timestamp option) list \<Rightarrow> job_row list \<Rightarrow> job_row list" where
  "apply_ages changes js = map (\<lambda>j. case map_of changes (j_job_id j) of None \<Rightarrow> j | Some age \<Rightarrow> j\<lparr>j_eligible_since := age\<rparr>) js"

definition next_event :: "eligibility_event list \<Rightarrow> eligibility_event option" where
  "next_event evs = (case sort_key (\<lambda>e. (case ee_last_processed_at e of None \<Rightarrow> (0 :: nat, 0) | Some t \<Rightarrow> (1, t), ee_event_id e))
       (filter (\<lambda>e. ee_completed_at e = None \<and> \<not> list_ex (\<lambda>o'. ee_tenant_id o' = ee_tenant_id e \<and> ee_event_id o' < ee_event_id e \<and>
          ee_completed_at o' = None) evs) evs) of
     [] \<Rightarrow> None | e # _ \<Rightarrow> Some e)"

definition replay_page ::
  "(template_row \<Rightarrow> inventory_row \<Rightarrow> bool) \<Rightarrow> db \<Rightarrow> eligibility_event \<Rightarrow> timestamp \<Rightarrow> eligibility_event \<times> db" where
  "replay_page runs_on db e now =
     (let rows = take eligibility_batch_size (filter (\<lambda>p. after_id (ee_last_job_id e) (j_job_id (fst p))) (replay_rows db e));
          changes = List.map_filter (\<lambda>(j, sp). map_option (Pair (j_job_id j)) (changed_age runs_on db e j sp)) rows in
      (e\<lparr>ee_last_job_id := (if rows = [] then ee_last_job_id e else Some (j_job_id (fst (last rows)))),
         ee_last_processed_at := Some now,
         ee_completed_at := (if length rows < eligibility_batch_size then Some now else None)\<rparr>,
       db\<lparr>jobs := apply_ages changes (jobs db)\<rparr>))"

definition process_eligibility_batch ::
  "(template_row \<Rightarrow> inventory_row \<Rightarrow> bool) \<Rightarrow> db \<Rightarrow> eligibility_event list \<Rightarrow> timestamp \<Rightarrow> uuid set \<times> eligibility_event list \<times> db" where
  "process_eligibility_batch runs_on db evs now = (case next_event evs of
     None \<Rightarrow> (pending_eligibility_tenants evs, evs, db)
   | Some e \<Rightarrow> (case replay_page runs_on db e now of (e', db') \<Rightarrow>
       let evs' = update_where (\<lambda>x. ee_event_id x = ee_event_id e) (\<lambda>x. x\<lparr>ee_last_job_id := ee_last_job_id e',
             ee_last_processed_at := ee_last_processed_at e', ee_completed_at := ee_completed_at e'\<rparr>) evs in
       (pending_eligibility_tenants evs', evs', db')))"

text \<open>The reference: one pass over all jobs the event concerns.\<close>

definition replay_at_once :: "(template_row \<Rightarrow> inventory_row \<Rightarrow> bool) \<Rightarrow> db \<Rightarrow> eligibility_event \<Rightarrow> db" where
  "replay_at_once runs_on db e = db\<lparr>jobs := apply_ages
     (List.map_filter (\<lambda>(j, sp). map_option (Pair (j_job_id j)) (changed_age runs_on db e j sp)) (replay_rows db e)) (jobs db)\<rparr>"

fun replay_pages ::
  "(template_row \<Rightarrow> inventory_row \<Rightarrow> bool) \<Rightarrow> timestamp list \<Rightarrow> eligibility_event \<times> db \<Rightarrow> eligibility_event \<times> db" where
  "replay_pages runs_on [] st = st"
| "replay_pages runs_on (now # ts) (e, db) =
     (if ee_completed_at e \<noteq> None then (e, db) else replay_pages runs_on ts (replay_page runs_on db e now))"


subsection \<open>Pages replay the whole event\<close>

definition page_changes ::
  "(template_row \<Rightarrow> inventory_row \<Rightarrow> bool) \<Rightarrow> db \<Rightarrow> eligibility_event \<Rightarrow> (job_row \<times> spec_row) list \<Rightarrow> (uuid \<times> timestamp option) list" where
  "page_changes runs_on db e rows = List.map_filter (\<lambda>(j, sp). map_option (Pair (j_job_id j)) (changed_age runs_on db e j sp)) rows"

definition aged :: "(uuid \<times> timestamp option) list \<Rightarrow> job_row \<Rightarrow> job_row" where
  "aged changes j = (case map_of changes (j_job_id j) of None \<Rightarrow> j | Some age \<Rightarrow> j\<lparr>j_eligible_since := age\<rparr>)"

lemma aged_simps [simp]:
  "j_job_id (aged c j) = j_job_id j" "j_tenant_id (aged c j) = j_tenant_id j" "j_state (aged c j) = j_state j"
  "j_created_at (aged c j) = j_created_at j" "j_retry_ready_at (aged c j) = j_retry_ready_at j"
  by (simp_all add: aged_def split: option.split)

lemma apply_ages_aged: "apply_ages c js = map (aged c) js"
  by (simp add: apply_ages_def aged_def)

lemma aged_fresh: "j_job_id j \<notin> fst ` set c \<Longrightarrow> aged c j = j"
  by (simp add: aged_def map_of_eq_None_iff [THEN iffD2])

lemma aged_append:
  assumes "fst ` set c \<inter> fst ` set c' = {}"
  shows "aged c' (aged c j) = aged (c @ c') j"
proof (cases "j_job_id j \<in> fst ` set c")
  case True
  then have "map_of c' (j_job_id j) = None" using assms by (auto simp: map_of_eq_None_iff)
  then show ?thesis by (simp add: aged_def map_of_append map_add_def split: option.split)
next
  case False
  then have "map_of c (j_job_id j) = None" by (simp add: map_of_eq_None_iff)
  then show ?thesis by (simp add: aged_def map_of_append map_add_def split: option.split)
qed

lemma sort_key_map: "sort_key k (map f xs) = map f (sort_key (\<lambda>x. k (f x)) xs)"
proof (induction xs)
  case (Cons x xs)
  have "insort_key k (f x) (map f ys) = map f (insort_key (\<lambda>x. k (f x)) x ys)" for ys by (induction ys) auto
  with Cons show ?case by simp
qed simp

lemma replay_rows_aged:
  "replay_rows (db\<lparr>jobs := map (aged c) (jobs db)\<rparr>) (e\<lparr>ee_last_job_id := l, ee_last_processed_at := t, ee_completed_at := d\<rparr>) =
    map (\<lambda>(j, sp). (aged c j, sp)) (replay_rows db e)"
proof -
  let ?q = "\<lambda>j. j_tenant_id j = ee_tenant_id e \<and> j_state j = J_QUEUED \<and> j_created_at j \<le> ee_occurred_at e"
  let ?F = "\<lambda>j. map (Pair j) (filter (\<lambda>sp. sp_job_id sp = j_job_id j) (job_specs db))"
  have "concat (map ?F (filter ?q (map (aged c) (jobs db)))) = map (\<lambda>(j, sp). (aged c j, sp)) (concat (map ?F (filter ?q (jobs db))))"
    by (simp add: filter_map comp_def map_concat)
  then show ?thesis by (simp add: replay_rows_def sort_key_map case_prod_beta)
qed

lemma changed_age_cong:
  "changed_age runs_on (db\<lparr>jobs := js\<rparr>) (e\<lparr>ee_last_job_id := l, ee_last_processed_at := t, ee_completed_at := d\<rparr>) = changed_age runs_on db e"
proof -
  have "possible runs_on (db\<lparr>jobs := js\<rparr>) = possible runs_on db" by (intro ext) (simp add: possible_def)
  then show ?thesis by (intro ext) (simp add: changed_age_def Let_def cong: option.case_cong if_cong)
qed

lemma replay_rows_ids:
  assumes "distinct (map j_job_id (jobs db))" "distinct (map sp_job_id (job_specs db))"
  shows "sorted_wrt (<) (map (\<lambda>p. j_job_id (fst p)) (replay_rows db e))"
proof -
  let ?l = "concat (map (\<lambda>j. map (Pair j) (filter (\<lambda>sp. sp_job_id sp = j_job_id j) (job_specs db)))
     (filter (\<lambda>j. j_tenant_id j = ee_tenant_id e \<and> j_state j = J_QUEUED \<and> j_created_at j \<le> ee_occurred_at e) (jobs db)))"
  have "distinct (map (\<lambda>p. j_job_id (fst p)) (concat (map (\<lambda>j. map (Pair j) (filter (\<lambda>sp. sp_job_id sp = j_job_id j) (job_specs db))) js)))"
    if "distinct (map j_job_id js)" for js
    using that
  proof (induction js)
    case (Cons j js)
    have "distinct (map sp_job_id (filter (\<lambda>sp. sp_job_id sp = j_job_id j) (job_specs db)))"
      using assms(2) by (rule distinct_map_filter)
    then have "card (set (map sp_job_id (filter (\<lambda>sp. sp_job_id sp = j_job_id j) (job_specs db)))) =
        length (filter (\<lambda>sp. sp_job_id sp = j_job_id j) (job_specs db))" by (simp only: distinct_card length_map)
    moreover have "card (set (map sp_job_id (filter (\<lambda>sp. sp_job_id sp = j_job_id j) (job_specs db)))) \<le> card {j_job_id j}"
      by (rule card_mono) auto
    ultimately have "length (filter (\<lambda>sp. sp_job_id sp = j_job_id j) (job_specs db)) \<le> 1" by simp
    then have "distinct (map (\<lambda>p. j_job_id (fst p)) (map (Pair j) (filter (\<lambda>sp. sp_job_id sp = j_job_id j) (job_specs db))))"
      by (cases "filter (\<lambda>sp. sp_job_id sp = j_job_id j) (job_specs db)") auto
    then show ?case using Cons by auto
  qed simp
  then have "distinct (map (\<lambda>p. j_job_id (fst p)) ?l)" using distinct_map_filter [OF assms(1)] by blast
  then have "distinct (map (\<lambda>p. j_job_id (fst p)) (replay_rows db e))"
    unfolding replay_rows_def by (simp only: distinct_map distinct_sort set_sort)
  moreover have "sorted (map (\<lambda>p. j_job_id (fst p)) (replay_rows db e))" unfolding replay_rows_def by (rule sorted_sort_key)
  ultimately show ?thesis by (simp only: strict_sorted_iff)
qed


lemma after_last:
  fixes f :: "'a \<Rightarrow> 'b :: linorder"
  assumes "sorted_wrt (<) (map f rows)" "n < length rows"
  shows "filter (\<lambda>x. f x > f (rows ! n)) rows = drop (Suc n) rows"
  using assms
proof (induction rows arbitrary: n)
  case (Cons r rows)
  show ?case
  proof (cases n)
    case (Suc m)
    then have "f r < f (rows ! m)" using Cons.prems by simp
    then have "\<not> f (rows ! m) < f r" by simp
    then show ?thesis using Cons Suc by simp
  qed (use Cons.prems in \<open>simp add: filter_id_conv\<close>)
qed simp

text \<open>The state after replaying the first \<open>n\<close> rows.\<close>

definition after_rows ::
  "(template_row \<Rightarrow> inventory_row \<Rightarrow> bool) \<Rightarrow> db \<Rightarrow> eligibility_event \<Rightarrow> nat \<Rightarrow> timestamp option \<Rightarrow> timestamp option \<Rightarrow> eligibility_event \<times> db" where
  "after_rows runs_on db e n t d = (let rows = replay_rows db e in
     (e\<lparr>ee_last_job_id := (if n = 0 then None else Some (j_job_id (fst (rows ! (n - 1))))), ee_last_processed_at := t, ee_completed_at := d\<rparr>,
      db\<lparr>jobs := map (aged (page_changes runs_on db e (take n rows))) (jobs db)\<rparr>))"

lemma page_changes_keys: "fst ` set (page_changes runs_on db e rows) \<subseteq> (\<lambda>p. j_job_id (fst p)) ` set rows"
  by (force simp: page_changes_def map_filter_def)

lemma replay_page_step:
  assumes ids: "distinct (map j_job_id (jobs db))" "distinct (map sp_job_id (job_specs db))" and n: "n \<le> length (replay_rows db e)"
  shows "case_prod (\<lambda>e1 db1. replay_page runs_on db1 e1 now) (after_rows runs_on db e n t None) =
    after_rows runs_on db e (min (length (replay_rows db e)) (n + eligibility_batch_size)) (Some now)
      (if length (replay_rows db e) - n < eligibility_batch_size then Some now else None)"
proof -
  let ?rows = "replay_rows db e" and ?id = "\<lambda>p :: job_row \<times> spec_row. j_job_id (fst p)"
  let ?c = "page_changes runs_on db e (take n ?rows)" and ?b = eligibility_batch_size
  let ?l = "if n = 0 then None else Some (j_job_id (fst (?rows ! (n - 1))))"
  let ?e1 = "e\<lparr>ee_last_job_id := ?l, ee_last_processed_at := t, ee_completed_at := None\<rparr>"
  let ?db1 = "db\<lparr>jobs := map (aged ?c) (jobs db)\<rparr>" and ?page = "take ?b (drop n ?rows)"
  have s: "sorted_wrt (<) (map ?id ?rows)" by (rule replay_rows_ids [OF ids])
  then have d: "distinct (map ?id ?rows)" by (simp add: strict_sorted_iff)
  have disjoint: "?id ` set (take n ?rows) \<inter> ?id ` set (drop n ?rows) = {}"
  proof -
    have "distinct (map ?id (take n ?rows @ drop n ?rows))" using d by simp
    then show ?thesis by (simp only: map_append distinct_append set_map)
  qed
  have fresh: "aged ?c j = j" if "(j, sp) \<in> set (drop n ?rows)" for j sp
  proof -
    have "j_job_id j \<in> ?id ` set (drop n ?rows)" using that by (force intro: image_eqI [where x = "(j, sp)"])
    then have "j_job_id j \<notin> ?id ` set (take n ?rows)" using disjoint by blast
    then show ?thesis using page_changes_keys by (intro aged_fresh) blast
  qed
  have drop: "filter (\<lambda>p. after_id ?l (j_job_id (fst p))) ?rows = drop n ?rows"
  proof (cases n)
    case (Suc m)
    then show ?thesis using after_last [OF s, of m] n by (simp add: after_id_def case_prod_beta)
  qed (simp add: after_id_def)
  have "filter (\<lambda>p. after_id ?l (j_job_id (fst p))) (replay_rows ?db1 ?e1) = map (\<lambda>(j, sp). (aged ?c j, sp)) (drop n ?rows)"
    unfolding replay_rows_aged drop [symmetric] by (simp add: filter_map comp_def case_prod_beta)
  also have "\<dots> = drop n ?rows" by (rule map_idI) (use fresh in auto)
  finally have page: "take ?b (filter (\<lambda>p. after_id (ee_last_job_id ?e1) (j_job_id (fst p))) (replay_rows ?db1 ?e1)) = ?page" by simp
  have ch: "List.map_filter (\<lambda>(j, sp). map_option (Pair (j_job_id j)) (changed_age runs_on ?db1 ?e1 j sp)) ?page =
      page_changes runs_on db e ?page" unfolding changed_age_cong page_changes_def ..
  have join: "take (min (length ?rows) (n + ?b)) ?rows = take n ?rows @ ?page" by (simp add: take_add min_def)
  have J: "map (aged (page_changes runs_on db e ?page)) (map (aged ?c) (jobs db)) =
      map (aged (page_changes runs_on db e (take (min (length ?rows) (n + ?b)) ?rows))) (jobs db)"
  proof -
    have "fst ` set ?c \<inter> fst ` set (page_changes runs_on db e ?page) = {}"
      using disjoint page_changes_keys [of runs_on db e "take n ?rows"] page_changes_keys [of runs_on db e ?page]
        set_take_subset [of ?b "drop n ?rows"] by blast
    then show ?thesis unfolding join by (simp add: aged_append page_changes_def map_filter_def)
  qed
  have L: "(if ?page = [] then ?l else Some (j_job_id (fst (last ?page)))) =
      (if min (length ?rows) (n + ?b) = 0 then None else Some (j_job_id (fst (?rows ! (min (length ?rows) (n + ?b) - 1)))))"
  proof (cases "?page = []")
    case True
    then have "min (length ?rows) (n + ?b) = n" using n by (auto simp: eligibility_batch_size_def)
    then show ?thesis using True by simp
  next
    case False
    then have "last ?page = ?rows ! (min (length ?rows) (n + ?b) - 1)"
      by (simp add: last_conv_nth min_def) (auto simp: eligibility_batch_size_def)
    then show ?thesis using False by (auto simp: eligibility_batch_size_def)
  qed
  have Z: "length ?page < ?b \<longleftrightarrow> length ?rows - n < ?b" by auto
  have E: "ee_last_job_id ?e1 = ?l" "jobs ?db1 = map (aged ?c) (jobs db)" by simp_all
  show ?thesis unfolding after_rows_def Let_def prod.case replay_page_def page ch apply_ages_aged unfolding E unfolding J L Z by simp
qed


lemma replay_pages_completed: "ee_completed_at (fst st) \<noteq> None \<Longrightarrow> replay_pages runs_on ts st = st"
  by (cases ts; cases st) auto

lemma after_rows_completed [simp]: "ee_completed_at (fst (after_rows runs_on db e n t d)) = d"
  by (simp add: after_rows_def Let_def)

lemma replay_pages_from:
  assumes "distinct (map j_job_id (jobs db))" "distinct (map sp_job_id (job_specs db))" "n \<le> length (replay_rows db e)"
    and "length (replay_rows db e) - n < eligibility_batch_size * length ts"
  shows "\<exists>t d. replay_pages runs_on ts (after_rows runs_on db e n u None) = after_rows runs_on db e (length (replay_rows db e)) t (Some d)"
  using assms(3,4)
proof (induction ts arbitrary: n u)
  case (Cons now ts)
  let ?r = "length (replay_rows db e)" and ?b = eligibility_batch_size
  let ?st = "after_rows runs_on db e n u None" and ?m = "min ?r (n + ?b)"
  obtain e1 db1 where st: "?st = (e1, db1)" by (cases ?st)
  have "ee_completed_at e1 = None" using after_rows_completed [of runs_on db e n u None] st by simp
  then have "replay_pages runs_on (now # ts) ?st = replay_pages runs_on ts
      (after_rows runs_on db e ?m (Some now) (if ?r - n < ?b then Some now else None))"
    using replay_page_step [OF assms(1,2) Cons.prems(1), of runs_on now u] st by simp
  moreover have "replay_pages runs_on ts (after_rows runs_on db e ?m (Some now) (Some now)) = after_rows runs_on db e ?m (Some now) (Some now)"
    by (rule replay_pages_completed) simp
  moreover have "?m = ?r" if "?r - n < ?b" using that Cons.prems(1) by simp
  moreover have "?m \<le> ?r" "?r - ?m < ?b * length ts" if "\<not> ?r - n < ?b" using that Cons.prems by auto
  ultimately show ?case using Cons.IH [of ?m "Some now"] by (cases "?r - n < ?b") auto
qed simp

lemma replay_pages_reference:
  assumes "distinct (map j_job_id (jobs db))" "distinct (map sp_job_id (job_specs db))"
    and "ee_last_job_id e = None" "ee_completed_at e = None"
    and "length (replay_rows db e) < eligibility_batch_size * length ts"
  shows "ee_completed_at (fst (replay_pages runs_on ts (e, db))) \<noteq> None \<and>
    snd (replay_pages runs_on ts (e, db)) = replay_at_once runs_on db e"
proof -
  let ?rows = "replay_rows db e"
  have "aged (page_changes runs_on db e []) = (\<lambda>j. j)" by (intro ext) (simp add: aged_def page_changes_def map_filter_def)
  then have start: "after_rows runs_on db e 0 (ee_last_processed_at e) None = (e, db)"
    using assms(3,4) by (simp add: after_rows_def Let_def)
  obtain t d where "replay_pages runs_on ts (e, db) = after_rows runs_on db e (length ?rows) t (Some d)"
    using replay_pages_from [OF assms(1,2), of 0 e ts runs_on "ee_last_processed_at e"] assms(5) start by auto
  then show ?thesis
    by (simp add: after_rows_def Let_def replay_at_once_def apply_ages_aged page_changes_def)
qed

end
