(* ===== verification/Scheduler_Accounting.thy ===== *)
theory Scheduler_Accounting
  imports Scheduling_Domain
begin

section \<open>Scheduler accounting\<close>

text \<open>
  \<^verbatim>\<open>src/src/nexa/scheduler/accounting.py\<close>: validation of a snapshot, aggregation of held
  resources, and the weighted dominant resource-time charge that advances every tenant's virtual
  score.  Python's run-time type tests (\<^verbatim>\<open>isinstance\<close>, \<^verbatim>\<open>type(x) is int\<close>) are discharged by
  the types of the model.
\<close>

record AccountingState =
  acc_tenant_ledgers :: "TenantLedger list"
  acc_virtual_floor :: decimal
  held_resources_by_tenant :: "(string \<times> ResourceCapacity) list"
  dominant_shares :: "(string \<times> rat) list"
  eligible_tenant_ids :: "string list"

definition zero_resources :: ResourceCapacity where
  "zero_resources = \<lparr>cpu_millis = 0, memory_bytes = 0, gpu_count = 0\<rparr>"

definition add_resources :: "ResourceCapacity \<Rightarrow> resource_vector \<Rightarrow> ResourceCapacity" where
  "add_resources left right =
     \<lparr>cpu_millis = cpu_millis left + cpu_millis right,
      memory_bytes = memory_bytes left + memory_bytes right,
      gpu_count = gpu_count left + gpu_count right\<rparr>"

definition fits :: "resource_vector \<Rightarrow> ResourceCapacity \<Rightarrow> bool" where
  "fits request capacity \<longleftrightarrow>
     cpu_millis request \<le> cpu_millis capacity \<and>
     memory_bytes request \<le> memory_bytes capacity \<and>
     gpu_count request \<le> gpu_count capacity"

definition dominant_share :: "ResourceCapacity \<Rightarrow> ResourceCapacity \<Rightarrow> rat" where
  "dominant_share rs capacity =
     max_default 0
       (map (\<lambda>(used, available). dec_div (of_int used) (of_int available))
         (filter (\<lambda>(used, available). 0 < available)
           [(cpu_millis rs, cpu_millis capacity),
            (memory_bytes rs, memory_bytes capacity),
            (gpu_count rs, gpu_count capacity)]))"

definition candidate_ineligibility_reason ::
  "Candidate \<Rightarrow> int \<Rightarrow> ResourceCapacity \<Rightarrow> ResourceCapacity \<Rightarrow> TenantPolicySnapshot \<Rightarrow> string option" where
  "candidate_ineligibility_reason c now_ms capacity held limits =
     (if cand_state c \<noteq> Candidate_QUEUED then Some ''cancelled''
      else if retry_ready_at_ms c > now_ms then Some ''retry_not_ready''
      else if \<not> template_compatible c then Some ''template_incompatible''
      else if \<not> capabilities_compatible c then Some ''capability_incompatible''
      else if \<not> policy_compatible c then Some ''policy_incompatible''
      else if \<not> artifact_quota_available limits then Some ''artifact_quota_exhausted''
      else if \<not> fits (resources c) capacity then Some ''request_exceeds_capacity''
      else if \<not> fits (add_resources held (resources c)) (resource_quota limits)
        then Some ''request_exceeds_quota''
      else if tenant_active_attempts c \<ge> max_active_attempts limits then Some ''tenant_concurrency''
      else if user_active_attempts c \<ge> max_user_active_attempts limits then Some ''user_concurrency''
      else None)"

definition invalid_resource_capacity :: "ResourceCapacity \<Rightarrow> bool" where
  "invalid_resource_capacity c \<longleftrightarrow> cpu_millis c < 0 \<or> memory_bytes c < 0 \<or> gpu_count c < 0"

definition invalid_request :: "ResourceRequest \<Rightarrow> bool" where
  "invalid_request r \<longleftrightarrow> cpu_millis r \<le> 0 \<or> memory_bytes r \<le> 0 \<or> gpu_count r \<notin> {0, 1}"

text \<open>The two validation loops over ledgers and limits, one iteration each.\<close>

definition validate_ledger :: "string \<times> TenantLedger \<Rightarrow> PolicyError option" where
  "validate_ledger p = (case p of (t, l) \<Rightarrow>
     if \<not> is_finite (virtual_score l) \<or> dec_val (virtual_score l) < 0
     then Some (InvalidSnapshot (''tenant '' @ t @ '' virtual_score must be finite and non-negative''))
     else if accounted_through_ms l < 0
     then Some (InvalidSnapshot (''tenant '' @ t @ '' accounted_through_ms must be non-negative''))
     else None)"

definition validate_limit :: "string \<times> TenantPolicySnapshot \<Rightarrow> PolicyError option" where
  "validate_limit p = (case p of (t, l) \<Rightarrow>
     if \<not> is_finite (weight l) \<or> dec_val (weight l) \<le> 0 then Some (NonPositiveWeight t (weight l))
     else if invalid_resource_capacity (resource_quota l)
     then Some (InvalidSnapshot (''tenant '' @ t @ '' quota must be non-negative''))
     else if max_active_attempts l \<le> 0 \<or> max_user_active_attempts l \<le> 0
     then Some (InvalidSnapshot (''tenant '' @ t @ '' concurrency limits must be positive''))
     else None)"

text \<open>The GPU loop of one allocation, and one iteration of the aggregation loop over
  \<open>held_allocations\<close> with state \<open>(held, total, seen_gpu_uuids)\<close>.\<close>

definition add_gpu :: "string list \<Rightarrow> string \<Rightarrow> (PolicyError, string list) result" where
  "add_gpu seen g = (if g \<in> set seen then Inl (DuplicateGpuUuid g) else Inr (g # seen))"

type_synonym aggregate = "(string, ResourceCapacity) dict \<times> ResourceCapacity \<times> string list"

definition add_allocation :: "aggregate \<Rightarrow> HeldAllocation \<Rightarrow> (PolicyError, aggregate) result" where
  "add_allocation st a = (case st of (held, held_total, seen) \<Rightarrow>
     if alloc_tenant_id a \<notin> set (dict_keys held)
     then Inl (InvalidSnapshot ''held allocation references an unknown tenant'')
     else if invalid_request (alloc_resources a)
     then Inl (InvalidSnapshot ''held allocation contains an invalid resource vector'')
     else if int (length (gpu_uuids a)) \<noteq> gpu_count (alloc_resources a)
     then Inl (InvalidSnapshot ''held allocation GPU UUID count does not match request'')
     else res_bind (fold_result add_gpu seen (gpu_uuids a)) (\<lambda>seen'.
       Inr (AList.update (alloc_tenant_id a)
              (add_resources (dict_the held (alloc_tenant_id a)) (alloc_resources a)) held,
            add_resources held_total (alloc_resources a),
            seen')))"

definition validate_held ::
  "(string, TenantPolicySnapshot) dict \<Rightarrow> string \<times> ResourceCapacity \<Rightarrow> PolicyError option" where
  "validate_held limits p = (case p of (t, r) \<Rightarrow>
     if \<not> fits r (resource_quota (dict_the limits t))
     then Some (InvalidSnapshot (''tenant '' @ t @ '' held resources exceed quota''))
     else None)"

definition validate_and_aggregate ::
  "SchedulingSnapshot \<Rightarrow> (PolicyError, (string, TenantLedger) dict \<times>
     (string, TenantPolicySnapshot) dict \<times> (string, ResourceCapacity) dict) result" where
  "validate_and_aggregate s =
     (if policy_version s \<le> 0 then Inl (InvalidSnapshot ''policy_version must be positive'')
      else if \<not> is_finite (virtual_floor s) \<or> dec_val (virtual_floor s) < 0
      then Inl (InvalidSnapshot ''virtual_floor must be finite and non-negative'')
      else if invalid_resource_capacity (allocatable_capacity s)
      then Inl (InvalidSnapshot ''allocatable capacity must be non-negative'')
      else
        let ledgers = dict_of (map (\<lambda>l. (ledger_tenant_id l, l)) (tenant_ledgers s));
            limits = dict_of (map (\<lambda>l. (limit_tenant_id l, l)) (tenant_limits s))
        in if length ledgers \<noteq> length (tenant_ledgers s)
           then Inl (InvalidSnapshot ''tenant ledgers contain duplicate tenant IDs'')
           else if length limits \<noteq> length (tenant_limits s)
           then Inl (InvalidSnapshot ''tenant limits contain duplicate tenant IDs'')
           else if set (dict_keys ledgers) \<noteq> set (dict_keys limits)
           then Inl (InvalidSnapshot ''tenant ledger and limit sets differ'')
           else case first_error validate_ledger ledgers of Some e \<Rightarrow> Inl e | None \<Rightarrow>
             (case first_error validate_limit limits of Some e \<Rightarrow> Inl e | None \<Rightarrow>
               res_bind
                 (fold_result add_allocation
                    (map (\<lambda>(t, _). (t, zero_resources)) ledgers, zero_resources, [])
                    (held_allocations s))
                 (\<lambda>(held, held_total, seen).
                   if \<not> fits held_total (allocatable_capacity s)
                   then Inl (InvalidSnapshot ''held allocations exceed allocatable capacity'')
                   else case first_error (validate_held limits) held of Some e \<Rightarrow> Inl e | None \<Rightarrow>
                     Inr (ledgers, limits, held))))"

text \<open>One iteration of the charging loop: the tenant's dominant share over the elapsed time,
  divided by its weight, each operation rounded to fifty digits in the order of the source.\<close>

definition charge :: "rat \<Rightarrow> int \<Rightarrow> rat \<Rightarrow> rat" where
  "charge share elapsed_ms w = dec_div (dec_div (dec_mul share (of_int elapsed_ms)) 1000) w"

definition charged_ledger ::
  "int \<Rightarrow> (string, rat) dict \<Rightarrow> (string, TenantPolicySnapshot) dict \<Rightarrow>
   string \<Rightarrow> TenantLedger \<Rightarrow> TenantLedger" where
  "charged_ledger now_ms shares limits t l =
     l\<lparr>virtual_score := Finite (dec_add (dec_val (virtual_score l))
          (charge (dict_the shares t) (now_ms - accounted_through_ms l)
             (dec_val (weight (dict_the limits t))))),
       accounted_through_ms := now_ms\<rparr>"

definition charge_ledger ::
  "int \<Rightarrow> (string, rat) dict \<Rightarrow> (string, TenantPolicySnapshot) dict \<Rightarrow>
   (string, TenantLedger) dict \<Rightarrow> string \<times> TenantLedger \<Rightarrow>
   (PolicyError, (string, TenantLedger) dict) result" where
  "charge_ledger now_ms shares limits updated p = (case p of (t, l) \<Rightarrow>
     if now_ms < accounted_through_ms l
     then Inl (AccountingRegression t (accounted_through_ms l) now_ms)
     else Inr (AList.update t (charged_ledger now_ms shares limits t l) updated))"

definition add_window ::
  "(string, TenantPolicySnapshot) dict \<Rightarrow> (string, CandidateWindow) dict \<Rightarrow>
   string \<times> CandidateWindow \<Rightarrow> (PolicyError, (string, CandidateWindow) dict) result" where
  "add_window limits windows p = (case p of (t, w) \<Rightarrow>
     if t \<in> set (dict_keys windows)
     then Inl (InvalidSnapshot ''candidate windows contain duplicate tenant IDs'')
     else if t \<notin> set (dict_keys limits)
     then Inl (InvalidSnapshot ''candidate window references an unknown tenant'')
     else Inr (AList.update t w windows))"

text \<open>The candidates of a window keyed by job, the oldest eligible one last, as both the
  accounting and the policy build them.\<close>

definition unique_candidates :: "CandidateWindow \<Rightarrow> (string, Candidate) dict" where
  "unique_candidates w = dict_of (map (\<lambda>c. (job_id c, c))
     (normal w @ (case oldest_eligible w of None \<Rightarrow> [] | Some c \<Rightarrow> [c])))"

definition has_eligible_candidate ::
  "CandidateWindow \<Rightarrow> int \<Rightarrow> ResourceCapacity \<Rightarrow> ResourceCapacity \<Rightarrow> TenantPolicySnapshot \<Rightarrow> bool" where
  "has_eligible_candidate w now_ms capacity held limits =
     list_ex (\<lambda>c. candidate_ineligibility_reason c now_ms capacity held limits = None)
       (dict_values (unique_candidates w))"

text \<open>Demand transition of one ledger: a tenant that becomes eligible again starts at the floor.\<close>

definition apply_demand :: "decimal \<Rightarrow> bool \<Rightarrow> TenantLedger \<Rightarrow> TenantLedger" where
  "apply_demand vfloor has_demand l =
     l\<lparr>virtual_score :=
         (if has_demand \<and> \<not> had_eligible_demand l
          then Finite (max (dec_val (virtual_score l)) (dec_val vfloor)) else virtual_score l),
       had_eligible_demand := has_demand\<rparr>"

definition advance_accounting ::
  "SchedulingSnapshot \<Rightarrow> int \<Rightarrow> (PolicyError, AccountingState) result" where
  "advance_accounting s now_ms =
     (if now_ms < 0 then Inl (InvalidSnapshot ''now_ms must be a non-negative integer'')
      else res_bind (validate_and_aggregate s) (\<lambda>(ledgers, limits, held).
        let shares = map (\<lambda>(t, r). (t, dominant_share r (allocatable_capacity s))) held
        in res_bind (fold_result (charge_ledger now_ms shares limits) [] ledgers) (\<lambda>charged.
           res_bind (fold_result (add_window limits) [] (candidates_by_tenant s)) (\<lambda>windows.
             let eligible = map fst (filter (\<lambda>(t, w). has_eligible_candidate w now_ms
                    (allocatable_capacity s) (dict_the held t) (dict_the limits t)) windows);
                 updated = map (\<lambda>(t, l). (t, apply_demand (virtual_floor s) (t \<in> set eligible) l)) charged;
                 vfloor = (if eligible = [] then virtual_floor s
                   else Finite (max (dec_val (virtual_floor s))
                     (min_list (map (\<lambda>t. dec_val (virtual_score (dict_the updated t))) eligible))));
                 tenant_order = sort (dict_keys updated)
             in Inr \<lparr>acc_tenant_ledgers = map (dict_the updated) tenant_order,
                     acc_virtual_floor = vfloor,
                     held_resources_by_tenant = map (\<lambda>t. (t, dict_the held t)) tenant_order,
                     dominant_shares = map (\<lambda>t. (t, dict_the shares t)) tenant_order,
                     eligible_tenant_ids = sort eligible\<rparr>))))"

text \<open>
  The declarative reading of the validation: what a snapshot has to satisfy at time \<open>now_ms\<close> for the
  accounting to succeed.  \<open>allocated\<close> is what all held allocations occupy together and
  \<open>allocated_to\<close> what those of one tenant do.
\<close>

definition allocated :: "SchedulingSnapshot \<Rightarrow> resource_vector" where
  "allocated s = foldl add_resources zero_resources (map alloc_resources (held_allocations s))"

definition allocated_to :: "SchedulingSnapshot \<Rightarrow> string \<Rightarrow> resource_vector" where
  "allocated_to s t = foldl add_resources zero_resources
     (map alloc_resources (filter (\<lambda>a. alloc_tenant_id a = t) (held_allocations s)))"

definition valid_ledger :: "int \<Rightarrow> TenantLedger \<Rightarrow> bool" where
  "valid_ledger now_ms l \<longleftrightarrow>
     (\<exists>q. virtual_score l = Finite q \<and> 0 \<le> q) \<and>
     0 \<le> accounted_through_ms l \<and> accounted_through_ms l \<le> now_ms"

definition valid_limit :: "TenantPolicySnapshot \<Rightarrow> bool" where
  "valid_limit l \<longleftrightarrow>
     (\<exists>q. weight l = Finite q \<and> 0 < q) \<and> fits zero_resources (resource_quota l) \<and>
     0 < max_active_attempts l \<and> 0 < max_user_active_attempts l"

definition valid_allocation :: "HeldAllocation \<Rightarrow> bool" where
  "valid_allocation a \<longleftrightarrow> \<not> invalid_request (alloc_resources a) \<and>
     int (length (gpu_uuids a)) = gpu_count (alloc_resources a)"

definition wf_snapshot :: "SchedulingSnapshot \<Rightarrow> int \<Rightarrow> bool" where
  "wf_snapshot s now_ms \<longleftrightarrow>
     0 \<le> now_ms \<and> 0 < policy_version s \<and>
     (\<exists>q. virtual_floor s = Finite q \<and> 0 \<le> q) \<and>
     fits zero_resources (allocatable_capacity s) \<and>
     distinct (map ledger_tenant_id (tenant_ledgers s)) \<and>
     distinct (map limit_tenant_id (tenant_limits s)) \<and>
     ledger_tenant_id ` set (tenant_ledgers s) = limit_tenant_id ` set (tenant_limits s) \<and>
     (\<forall>l \<in> set (tenant_ledgers s). valid_ledger now_ms l) \<and>
     (\<forall>l \<in> set (tenant_limits s). valid_limit l \<and>
        fits (allocated_to s (limit_tenant_id l)) (resource_quota l)) \<and>
     (\<forall>a \<in> set (held_allocations s). valid_allocation a \<and>
        alloc_tenant_id a \<in> limit_tenant_id ` set (tenant_limits s)) \<and>
     distinct (concat (map gpu_uuids (held_allocations s))) \<and>
     fits (allocated s) (allocatable_capacity s) \<and>
     distinct (map fst (candidates_by_tenant s)) \<and>
     fst ` set (candidates_by_tenant s) \<subseteq> limit_tenant_id ` set (tenant_limits s)"

subsection \<open>Resource vectors\<close>

lemma resource_eqI:
  "cpu_millis a = cpu_millis b \<Longrightarrow> memory_bytes a = memory_bytes b \<Longrightarrow> gpu_count a = gpu_count b \<Longrightarrow>
   a = (b :: resource_vector)"
  by (cases a, cases b) simp

lemma add_resources_simps [simp]:
  "cpu_millis (add_resources a b) = cpu_millis a + cpu_millis b"
  "memory_bytes (add_resources a b) = memory_bytes a + memory_bytes b"
  "gpu_count (add_resources a b) = gpu_count a + gpu_count b"
  by (simp_all add: add_resources_def)

lemma zero_resources_simps [simp]:
  "cpu_millis zero_resources = 0" "memory_bytes zero_resources = 0" "gpu_count zero_resources = 0"
  by (simp_all add: zero_resources_def)

lemma add_resources_assoc: "add_resources (add_resources a b) c = add_resources a (add_resources b c)"
  by (rule resource_eqI) simp_all

lemma add_resources_commute: "add_resources a b = add_resources b a"
  by (rule resource_eqI) simp_all

lemma add_zero_resources [simp]: "add_resources zero_resources a = a" "add_resources a zero_resources = a"
  by (rule resource_eqI; simp)+

lemma foldl_add_resources:
  "foldl add_resources z rs = add_resources z (foldl add_resources zero_resources rs)"
proof (induction rs arbitrary: z)
  case (Cons r rs)
  show ?case
    using Cons.IH [of "add_resources z r"] Cons.IH [of r] by (simp add: add_resources_assoc)
qed simp

lemma foldl_add_components:
  "cpu_millis (foldl add_resources z rs) = cpu_millis z + sum_list (map cpu_millis rs)"
  "memory_bytes (foldl add_resources z rs) = memory_bytes z + sum_list (map memory_bytes rs)"
  "gpu_count (foldl add_resources z rs) = gpu_count z + sum_list (map gpu_count rs)"
  by (induction rs arbitrary: z) simp_all

lemma fits_refl [simp]: "fits a a"
  by (simp add: fits_def)

lemma fits_trans: "fits a b \<Longrightarrow> fits b c \<Longrightarrow> fits a c"
  by (auto simp: fits_def)

lemma fits_zero_iff: "fits zero_resources c \<longleftrightarrow> \<not> invalid_resource_capacity c"
  by (auto simp: fits_def invalid_resource_capacity_def)

subsection \<open>The validation loops\<close>

lemma fold_add_gpu:
  "fold_result add_gpu seen gs = Inr seen' \<longleftrightarrow>
     distinct gs \<and> set gs \<inter> set seen = {} \<and> seen' = rev gs @ seen"
  by (induction gs arbitrary: seen) (auto simp: add_gpu_def)

lemma add_allocation_Inr:
  "add_allocation (held, held_total, seen) a = Inr (held', total', seen') \<longleftrightarrow>
     alloc_tenant_id a \<in> set (dict_keys held) \<and> valid_allocation a \<and>
     distinct (gpu_uuids a) \<and> set (gpu_uuids a) \<inter> set seen = {} \<and>
     held' = AList.update (alloc_tenant_id a)
       (add_resources (dict_the held (alloc_tenant_id a)) (alloc_resources a)) held \<and>
     total' = add_resources held_total (alloc_resources a) \<and>
     seen' = rev (gpu_uuids a) @ seen"
  by (auto simp: add_allocation_def valid_allocation_def res_simps fold_add_gpu)

lemma fold_add_allocation:
  assumes "fold_result add_allocation (held, held_total, seen) as = Inr (held', total', seen')"
  shows "dict_keys held' = dict_keys held"
    and "\<forall>a \<in> set as. valid_allocation a \<and> alloc_tenant_id a \<in> set (dict_keys held)"
    and "total' = foldl add_resources held_total (map alloc_resources as)"
    and "\<And>t. dict_the held' t = foldl add_resources (dict_the held t)
           (map alloc_resources (filter (\<lambda>a. alloc_tenant_id a = t) as))"
    and "distinct (concat (map gpu_uuids as))" "set (concat (map gpu_uuids as)) \<inter> set seen = {}"
proof -
  have "dict_keys held' = dict_keys held \<and>
    (\<forall>a \<in> set as. valid_allocation a \<and> alloc_tenant_id a \<in> set (dict_keys held)) \<and>
    total' = foldl add_resources held_total (map alloc_resources as) \<and>
    (\<forall>t. dict_the held' t = foldl add_resources (dict_the held t)
           (map alloc_resources (filter (\<lambda>a. alloc_tenant_id a = t) as))) \<and>
    distinct (concat (map gpu_uuids as)) \<and> set (concat (map gpu_uuids as)) \<inter> set seen = {}"
    using assms
  proof (induction as arbitrary: held held_total seen)
    case (Cons a as)
    from Cons.prems obtain h1 t1 s1 where
      a: "add_allocation (held, held_total, seen) a = Inr (h1, t1, s1)" and
      r: "fold_result add_allocation (h1, t1, s1) as = Inr (held', total', seen')"
      by (auto split: sum.splits)
    note a' = a [unfolded add_allocation_Inr]
    then have k: "dict_keys h1 = dict_keys held" "fst ` set h1 = fst ` set held"
      by (auto simp: keys_update)
    have "set (gpu_uuids a) \<inter> set (concat (map gpu_uuids as)) = {}"
      "set (concat (map gpu_uuids as)) \<inter> set seen = {}"
      using Cons.IH [OF r] a' by auto
    then show ?case using Cons.IH [OF r] a' unfolding k set_map by (simp add: Int_Un_distrib2)
  qed auto
  then show "dict_keys held' = dict_keys held"
    "\<forall>a \<in> set as. valid_allocation a \<and> alloc_tenant_id a \<in> set (dict_keys held)"
    "total' = foldl add_resources held_total (map alloc_resources as)"
    "\<And>t. dict_the held' t = foldl add_resources (dict_the held t)
           (map alloc_resources (filter (\<lambda>a. alloc_tenant_id a = t) as))"
    "distinct (concat (map gpu_uuids as))" "set (concat (map gpu_uuids as)) \<inter> set seen = {}"
    by simp_all
qed

lemma fold_add_allocation_total:
  assumes "\<forall>a \<in> set as. valid_allocation a \<and> alloc_tenant_id a \<in> set (dict_keys held)"
    and "distinct (concat (map gpu_uuids as))" "set (concat (map gpu_uuids as)) \<inter> set seen = {}"
  shows "\<exists>r. fold_result add_allocation (held, held_total, seen) as = Inr r"
  using assms
proof (induction as arbitrary: held held_total seen)
  case (Cons a as)
  from Cons.prems have "set (gpu_uuids a) \<inter> set seen = {}" "distinct (gpu_uuids a)" by auto
  with Cons.prems obtain h1 t1 s1 where
    a: "add_allocation (held, held_total, seen) a = Inr (h1, t1, s1)"
    by (simp add: add_allocation_Inr)
  note a' = a [unfolded add_allocation_Inr]
  then have k: "fst ` set h1 = fst ` set held" by auto
  have "\<exists>r. fold_result add_allocation (h1, t1, s1) as = Inr r"
  proof (rule Cons.IH)
    show "\<forall>a \<in> set as. valid_allocation a \<and> alloc_tenant_id a \<in> set (dict_keys h1)"
      using Cons.prems(1) unfolding set_map k by simp
    show "distinct (concat (map gpu_uuids as))" using Cons.prems(2) by simp
    show "set (concat (map gpu_uuids as)) \<inter> set s1 = {}" using Cons.prems(2,3) a' by auto
  qed
  with a show ?case by auto
qed simp

lemma validate_ledger_None:
  "validate_ledger (t, l) = None \<longleftrightarrow>
     (\<exists>q. virtual_score l = Finite q \<and> 0 \<le> q) \<and> 0 \<le> accounted_through_ms l"
  by (cases "virtual_score l") (auto simp: validate_ledger_def is_finite_def dec_val_def)

lemma validate_limit_None: "validate_limit (t, l) = None \<longleftrightarrow> valid_limit l"
  by (cases "weight l")
    (auto simp: validate_limit_def valid_limit_def is_finite_def dec_val_def fits_zero_iff)

lemma fold_charge_ledger_from:
  assumes "distinct (dict_keys (d @ ls))"
  shows "fold_result (charge_ledger now_ms shares limits) d ls = Inr charged \<longleftrightarrow>
    (\<forall>(t, l) \<in> set ls. accounted_through_ms l \<le> now_ms) \<and>
    charged = d @ map (\<lambda>(t, l). (t, charged_ledger now_ms shares limits t l)) ls"
  using assms
proof (induction ls arbitrary: d)
  case (Cons p ls)
  obtain t l where p: "p = (t, l)" by (cases p)
  let ?q = "(t, charged_ledger now_ms shares limits t l)"
  have "distinct (dict_keys ((d @ [?q]) @ ls))" using Cons.prems p by auto
  from Cons.IH [OF this] Cons.prems p show ?case
    by (auto simp: charge_ledger_def update_fresh)
qed auto

lemmas fold_charge_ledger = fold_charge_ledger_from [of "[]", simplified]

lemma fold_add_window_from:
  "fold_result (add_window limits) d ws = Inr r \<and> distinct (dict_keys d) \<longleftrightarrow>
     r = d @ ws \<and> distinct (dict_keys (d @ ws)) \<and> fst ` set ws \<subseteq> fst ` set limits"
proof (induction ws arbitrary: d)
  case (Cons p ws)
  obtain t w where p: "p = (t, w)" by (cases p)
  show ?case
  proof (cases "t \<in> fst ` set d \<or> t \<notin> fst ` set limits")
    case True
    then show ?thesis using p by (auto simp: add_window_def)
  next
    case False
    then have "add_window limits d p = Inr (d @ [p])"
      using p by (auto simp: add_window_def update_fresh)
    then show ?thesis using Cons.IH [of "d @ [p]"] False p by auto
  qed
qed auto

lemma fold_add_window:
  "fold_result (add_window limits) [] ws = Inr r \<longleftrightarrow>
     r = ws \<and> distinct (dict_keys ws) \<and> fst ` set ws \<subseteq> fst ` set limits"
  using fold_add_window_from [of limits "[]" ws r] by simp

subsection \<open>What validation accepts\<close>

abbreviation ledger_dict :: "SchedulingSnapshot \<Rightarrow> (string, TenantLedger) dict" where
  "ledger_dict s \<equiv> map (\<lambda>l. (ledger_tenant_id l, l)) (tenant_ledgers s)"

abbreviation limit_dict :: "SchedulingSnapshot \<Rightarrow> (string, TenantPolicySnapshot) dict" where
  "limit_dict s \<equiv> map (\<lambda>l. (limit_tenant_id l, l)) (tenant_limits s)"

text \<open>The time-independent part of \<open>wf_snapshot\<close> that does not concern the windows.\<close>

definition wf_static :: "SchedulingSnapshot \<Rightarrow> bool" where
  "wf_static s \<longleftrightarrow>
     0 < policy_version s \<and> (\<exists>q. virtual_floor s = Finite q \<and> 0 \<le> q) \<and>
     fits zero_resources (allocatable_capacity s) \<and>
     distinct (map ledger_tenant_id (tenant_ledgers s)) \<and>
     distinct (map limit_tenant_id (tenant_limits s)) \<and>
     ledger_tenant_id ` set (tenant_ledgers s) = limit_tenant_id ` set (tenant_limits s) \<and>
     (\<forall>l \<in> set (tenant_ledgers s). (\<exists>q. virtual_score l = Finite q \<and> 0 \<le> q) \<and>
        0 \<le> accounted_through_ms l) \<and>
     (\<forall>l \<in> set (tenant_limits s). valid_limit l \<and>
        fits (allocated_to s (limit_tenant_id l)) (resource_quota l)) \<and>
     (\<forall>a \<in> set (held_allocations s). valid_allocation a \<and>
        alloc_tenant_id a \<in> limit_tenant_id ` set (tenant_limits s)) \<and>
     distinct (concat (map gpu_uuids (held_allocations s))) \<and>
     fits (allocated s) (allocatable_capacity s)"

lemma wf_snapshot_static:
  "wf_snapshot s now_ms \<longleftrightarrow> wf_static s \<and> 0 \<le> now_ms \<and>
     (\<forall>l \<in> set (tenant_ledgers s). accounted_through_ms l \<le> now_ms) \<and>
     distinct (map fst (candidates_by_tenant s)) \<and>
     fst ` set (candidates_by_tenant s) \<subseteq> limit_tenant_id ` set (tenant_limits s)"
  by (simp add: wf_snapshot_def wf_static_def valid_ledger_def ball_conj_distrib conj_ac)

text \<open>The dictionary of held resources the aggregation computes.\<close>

definition held_dict :: "SchedulingSnapshot \<Rightarrow> (string, ResourceCapacity) dict" where
  "held_dict s = map (\<lambda>l. (ledger_tenant_id l, allocated_to s (ledger_tenant_id l))) (tenant_ledgers s)"

lemma ledger_dict_the:
  "l \<in> set (tenant_ledgers s) \<Longrightarrow> distinct (map ledger_tenant_id (tenant_ledgers s)) \<Longrightarrow>
   dict_the (ledger_dict s) (ledger_tenant_id l) = l"
  by (rule dict_the_keyed)

lemma limit_dict_the:
  "l \<in> set (tenant_limits s) \<Longrightarrow> distinct (map limit_tenant_id (tenant_limits s)) \<Longrightarrow>
   dict_the (limit_dict s) (limit_tenant_id l) = l"
  by (rule dict_the_keyed)

lemma held_dict_the:
  "t \<in> ledger_tenant_id ` set (tenant_ledgers s) \<Longrightarrow>
   distinct (map ledger_tenant_id (tenant_ledgers s)) \<Longrightarrow> dict_the (held_dict s) t = allocated_to s t"
  unfolding held_dict_def
  using dict_the_keyed [of _ "tenant_ledgers s" ledger_tenant_id
      "\<lambda>l. allocated_to s (ledger_tenant_id l)"] by fastforce

lemma held_dict_eqI:
  assumes fold: "fold_result add_allocation (map (\<lambda>(t, _). (t, zero_resources)) (ledger_dict s),
      zero_resources, []) (held_allocations s) = Inr (held, held_total, seen)"
    and dist: "distinct (map ledger_tenant_id (tenant_ledgers s))"
  shows "held = held_dict s" "held_total = allocated s"
proof -
  note f = fold_add_allocation [OF fold]
  show "held_total = allocated s" using f(3) by (simp add: allocated_def)
  have keys: "dict_keys held = map ledger_tenant_id (tenant_ledgers s)"
    using f(1) by (simp add: comp_def)
  show "held = held_dict s"
  proof (rule dict_eqI)
    show "dict_keys held = dict_keys (held_dict s)" by (simp add: keys held_dict_def comp_def)
    show "distinct (dict_keys held)" using dist by (simp add: keys)
    fix k assume "k \<in> fst ` set held"
    then obtain l where l: "l \<in> set (tenant_ledgers s)" "k = ledger_tenant_id l"
      using keys by (metis imageE list.set_map)
    then have z: "dict_the (map (\<lambda>(t, _). (t, zero_resources)) (ledger_dict s)) k = zero_resources"
      by (simp add: comp_def dict_the_const)
    have "dict_the held k = allocated_to s k"
      using f(4) [of k] unfolding z by (simp add: allocated_to_def)
    with l dist show "dict_the held k = dict_the (held_dict s) k" by (simp add: held_dict_the)
  qed
qed

lemma validate_held_None:
  assumes "ledger_tenant_id ` set (tenant_ledgers s) = limit_tenant_id ` set (tenant_limits s)"
    and "distinct (map limit_tenant_id (tenant_limits s))"
  shows "first_error (validate_held (limit_dict s)) (held_dict s) = None \<longleftrightarrow>
    (\<forall>l \<in> set (tenant_limits s). fits (allocated_to s (limit_tenant_id l)) (resource_quota l))"
proof -
  have "first_error (validate_held (limit_dict s)) (held_dict s) = None \<longleftrightarrow>
      (\<forall>t \<in> ledger_tenant_id ` set (tenant_ledgers s).
         fits (allocated_to s t) (resource_quota (dict_the (limit_dict s) t)))"
    by (auto simp: res_simps held_dict_def validate_held_def split: if_splits)
  then show ?thesis using assms by (simp add: limit_dict_the)
qed

lemma validate_and_aggregate_Inr:
  "validate_and_aggregate s = Inr r \<longleftrightarrow> wf_static s \<and> r = (ledger_dict s, limit_dict s, held_dict s)"
proof -
  let ?init = "(map (\<lambda>(t, _). (t, zero_resources)) (ledger_dict s), zero_resources, [])"
  let ?dl = "distinct (map ledger_tenant_id (tenant_ledgers s))"
  let ?dm = "distinct (map limit_tenant_id (tenant_limits s))"
  let ?eq = "ledger_tenant_id ` set (tenant_ledgers s) = limit_tenant_id ` set (tenant_limits s)"
  let ?A = "\<forall>a \<in> set (held_allocations s). valid_allocation a \<and>
        alloc_tenant_id a \<in> limit_tenant_id ` set (tenant_limits s)"
  let ?G = "distinct (concat (map gpu_uuids (held_allocations s)))"
  have dl: "length (dict_of (ledger_dict s)) = length (tenant_ledgers s) \<longleftrightarrow> ?dl"
    "length (dict_of (limit_dict s)) = length (tenant_limits s) \<longleftrightarrow> ?dm"
    using length_dict_of_iff [of "ledger_dict s"] length_dict_of_iff [of "limit_dict s"]
    by (simp_all add: comp_def)
  have eqs: "dict_of (ledger_dict s) = ledger_dict s" if ?dl
    using that by (intro dict_of_distinct) (simp add: comp_def)
  have eqm: "dict_of (limit_dict s) = limit_dict s" if ?dm
    using that by (intro dict_of_distinct) (simp add: comp_def)
  have fold_iff: "(\<exists>x. fold_result add_allocation ?init (held_allocations s) = Inr x) \<longleftrightarrow> ?A \<and> ?G" if ?eq
  proof
    assume "\<exists>x. fold_result add_allocation ?init (held_allocations s) = Inr x"
    then obtain x where x: "fold_result add_allocation ?init (held_allocations s) = Inr x" ..
    obtain h t g where "x = (h, t, g)" by (cases x)
    with x have "fold_result add_allocation ?init (held_allocations s) = Inr (h, t, g)" by simp
    from fold_add_allocation [OF this] that show "?A \<and> ?G" by (auto simp: image_image comp_def)
  next
    assume "?A \<and> ?G"
    then show "\<exists>x. fold_result add_allocation ?init (held_allocations s) = Inr x"
      using that by (intro fold_add_allocation_total) (auto simp: comp_def image_image)
  qed
  have led: "first_error validate_ledger (ledger_dict s) = None \<longleftrightarrow>
      (\<forall>l \<in> set (tenant_ledgers s). (\<exists>q. virtual_score l = Finite q \<and> 0 \<le> q) \<and> 0 \<le> accounted_through_ms l)"
    by (auto simp: res_simps validate_ledger_None)
  have lim: "first_error validate_limit (limit_dict s) = None \<longleftrightarrow> (\<forall>l \<in> set (tenant_limits s). valid_limit l)"
    by (auto simp: res_simps validate_limit_None)
  show ?thesis
  proof
    assume va: "validate_and_aggregate s = Inr r"
    have d: ?dl ?dm
      using va unfolding dl [symmetric] validate_and_aggregate_def Let_def
      by (simp_all add: res_simps split: if_splits)
    note va' = va [unfolded validate_and_aggregate_def Let_def eqs [OF d(1)] eqm [OF d(2)] res_simps]
    have eq: ?eq using va' by (simp add: image_image split: if_splits)
    have checks: "0 < policy_version s" "is_finite (virtual_floor s) \<and> 0 \<le> dec_val (virtual_floor s)"
      "\<not> invalid_resource_capacity (allocatable_capacity s)"
      "first_error validate_ledger (ledger_dict s) = None"
      "first_error validate_limit (limit_dict s) = None"
      using va' by (simp_all split: if_splits option.splits)
    from va' checks(4,5) obtain h t g where
      f: "fold_result add_allocation ?init (held_allocations s) = Inr (h, t, g)"
      and fits: "fits t (allocatable_capacity s)"
      and held: "first_error (validate_held (limit_dict s)) h = None"
      and r: "r = (ledger_dict s, limit_dict s, h)"
      by (auto simp: res_simps split: if_splits option.splits)
    note h = held_dict_eqI [OF f d(1)]
    have "?A \<and> ?G" using f fold_iff [OF eq] by blast
    moreover have "\<forall>l \<in> set (tenant_limits s). fits (allocated_to s (limit_tenant_id l)) (resource_quota l)"
      using held validate_held_None [OF eq d(2)] by (simp add: h)
    moreover have "\<exists>q. virtual_floor s = Finite q \<and> 0 \<le> q"
      using checks(2) by (cases "virtual_floor s") (simp_all add: is_finite_def dec_val_def)
    moreover note checks(1,3) checks(4) [unfolded led] checks(5) [unfolded lim] fits r
    ultimately show "wf_static s \<and> r = (ledger_dict s, limit_dict s, held_dict s)"
      using d eq unfolding wf_static_def h fits_zero_iff ball_conj_distrib by (elim conjE; intro conjI)
  next
    assume "wf_static s \<and> r = (ledger_dict s, limit_dict s, held_dict s)"
    then have wf: "wf_static s" and r: "r = (ledger_dict s, limit_dict s, held_dict s)" by auto
    then have d: ?dl ?dm ?eq ?A ?G by (auto simp: wf_static_def)
    from fold_iff [OF d(3)] d(4,5) obtain x where
      x: "fold_result add_allocation ?init (held_allocations s) = Inr x" by blast
    obtain h t g where "x = (h, t, g)" by (cases x)
    with x have f: "fold_result add_allocation ?init (held_allocations s) = Inr (h, t, g)" by simp
    note h = held_dict_eqI [OF f d(1)]
    have checks: "\<not> policy_version s \<le> 0"
      "is_finite (virtual_floor s)" "\<not> dec_val (virtual_floor s) < 0"
      "\<not> invalid_resource_capacity (allocatable_capacity s)"
      "first_error validate_ledger (ledger_dict s) = None"
      "first_error validate_limit (limit_dict s) = None"
      "fits (allocated s) (allocatable_capacity s)"
      "first_error (validate_held (limit_dict s)) (held_dict s) = None"
      using wf lim led validate_held_None [OF d(3,2)]
      by (auto simp: wf_static_def fits_zero_iff is_finite_def dec_val_def)
    show "validate_and_aggregate s = Inr r"
      using checks dl d(1-3) r
      unfolding validate_and_aggregate_def Let_def eqs [OF d(1)] eqm [OF d(2)] f [unfolded h]
      by (simp add: image_image)
  qed
qed

subsection \<open>The result of a successful advance\<close>

definition share_dict :: "SchedulingSnapshot \<Rightarrow> (string, rat) dict" where
  "share_dict s = map (\<lambda>(t, r). (t, dominant_share r (allocatable_capacity s))) (held_dict s)"

definition eligible_tenants :: "SchedulingSnapshot \<Rightarrow> int \<Rightarrow> string list" where
  "eligible_tenants s now_ms = map fst (filter (\<lambda>(t, w). has_eligible_candidate w now_ms
     (allocatable_capacity s) (dict_the (held_dict s) t) (dict_the (limit_dict s) t))
     (candidates_by_tenant s))"

definition advanced_ledger :: "SchedulingSnapshot \<Rightarrow> int \<Rightarrow> TenantLedger \<Rightarrow> TenantLedger" where
  "advanced_ledger s now_ms l = (let t = ledger_tenant_id l in
     apply_demand (virtual_floor s) (t \<in> set (eligible_tenants s now_ms))
       (charged_ledger now_ms (share_dict s) (limit_dict s) t l))"

definition advanced_dict :: "SchedulingSnapshot \<Rightarrow> int \<Rightarrow> (string, TenantLedger) dict" where
  "advanced_dict s now_ms =
     map (\<lambda>l. (ledger_tenant_id l, advanced_ledger s now_ms l)) (tenant_ledgers s)"

definition advanced_floor :: "SchedulingSnapshot \<Rightarrow> int \<Rightarrow> decimal" where
  "advanced_floor s now_ms = (if eligible_tenants s now_ms = [] then virtual_floor s
     else Finite (max (dec_val (virtual_floor s))
       (min_list (map (\<lambda>t. dec_val (virtual_score (dict_the (advanced_dict s now_ms) t)))
         (eligible_tenants s now_ms)))))"

definition accounting_result :: "SchedulingSnapshot \<Rightarrow> int \<Rightarrow> AccountingState" where
  "accounting_result s now_ms =
     (let order = sort (map ledger_tenant_id (tenant_ledgers s)) in
      \<lparr>acc_tenant_ledgers = map (dict_the (advanced_dict s now_ms)) order,
       acc_virtual_floor = advanced_floor s now_ms,
       held_resources_by_tenant = map (\<lambda>t. (t, dict_the (held_dict s) t)) order,
       dominant_shares = map (\<lambda>t. (t, dict_the (share_dict s) t)) order,
       eligible_tenant_ids = sort (eligible_tenants s now_ms)\<rparr>)"

lemma wf_static_distinct:
  "wf_static s \<Longrightarrow> distinct (map ledger_tenant_id (tenant_ledgers s))"
  "wf_static s \<Longrightarrow> distinct (map limit_tenant_id (tenant_limits s))"
  "wf_static s \<Longrightarrow> ledger_tenant_id ` set (tenant_ledgers s) = limit_tenant_id ` set (tenant_limits s)"
  by (simp_all add: wf_static_def)

lemma advance_accounting_wf:
  assumes "wf_snapshot s now_ms"
  shows "advance_accounting s now_ms = Inr (accounting_result s now_ms)"
proof -
  have wf: "wf_static s" "\<not> now_ms < 0" using assms by (simp_all add: wf_snapshot_static)
  have va: "validate_and_aggregate s = Inr (ledger_dict s, limit_dict s, held_dict s)"
    using wf by (simp add: validate_and_aggregate_Inr)
  let ?charged = "map (\<lambda>(t, l). (t, charged_ledger now_ms (share_dict s) (limit_dict s) t l)) (ledger_dict s)"
  have dist: "distinct (dict_keys (ledger_dict s))"
    using wf_static_distinct(1) [OF wf(1)] by (simp add: comp_def)
  have fc: "fold_result (charge_ledger now_ms (share_dict s) (limit_dict s)) [] (ledger_dict s) = Inr ?charged"
    using assms by (auto simp: fold_charge_ledger [OF dist] wf_snapshot_static)
  have fw: "fold_result (add_window (limit_dict s)) [] (candidates_by_tenant s)
      = Inr (candidates_by_tenant s)"
    using assms by (auto simp: fold_add_window wf_snapshot_static image_image)
  have upd: "map (\<lambda>(t, l). (t, apply_demand (virtual_floor s)
      (t \<in> set (eligible_tenants s now_ms)) l)) ?charged = advanced_dict s now_ms"
    by (simp add: advanced_dict_def advanced_ledger_def Let_def)
  have keys: "dict_keys (advanced_dict s now_ms) = map ledger_tenant_id (tenant_ledgers s)"
    by (simp add: advanced_dict_def)
  show ?thesis
    unfolding advance_accounting_def va Let_def
    unfolding res_bind_simps prod.case share_dict_def [symmetric] fc fw eligible_tenants_def [symmetric]
    unfolding upd keys accounting_result_def advanced_floor_def Let_def
    using wf(2) by simp
qed

lemma advance_accounting_Inr_wf:
  assumes "advance_accounting s now_ms = Inr st"
  shows "wf_snapshot s now_ms"
proof -
  have wf: "wf_static s" "0 \<le> now_ms"
    using assms by (auto simp: advance_accounting_def res_simps validate_and_aggregate_Inr split: if_splits)
  then have va: "validate_and_aggregate s = Inr (ledger_dict s, limit_dict s, held_dict s)"
    by (simp add: validate_and_aggregate_Inr)
  have dist: "distinct (dict_keys (ledger_dict s))"
    using wf_static_distinct(1) [OF wf(1)] by (simp add: comp_def)
  have "\<exists>c. fold_result (charge_ledger now_ms (share_dict s) (limit_dict s)) [] (ledger_dict s) = Inr c"
    "\<exists>w. fold_result (add_window (limit_dict s)) [] (candidates_by_tenant s) = Inr w"
    using assms wf unfolding advance_accounting_def va Let_def
    by (auto simp: res_simps share_dict_def [symmetric] split: if_splits)
  then show ?thesis
    using wf by (auto simp: fold_charge_ledger [OF dist] fold_add_window wf_snapshot_static image_image)
qed

lemma advance_accounting_Inr:
  "advance_accounting s now_ms = Inr st \<longleftrightarrow> wf_snapshot s now_ms \<and> st = accounting_result s now_ms"
  using advance_accounting_wf [of s now_ms] advance_accounting_Inr_wf [of s now_ms st] by auto

subsection \<open>Shares, charges and scores\<close>

lemma sum_list_nonneg_int: "(\<And>x. x \<in> set xs \<Longrightarrow> 0 \<le> f x) \<Longrightarrow> 0 \<le> sum_list (map f xs)"
  for f :: "'a \<Rightarrow> int"
  by (induction xs) (auto intro: add_nonneg_nonneg)

lemma valid_allocation_nonneg: "valid_allocation a \<Longrightarrow> fits zero_resources (alloc_resources a)"
  by (auto simp: valid_allocation_def invalid_request_def fits_def)

lemma foldl_add_nonneg:
  "(\<And>r. r \<in> set rs \<Longrightarrow> fits zero_resources r) \<Longrightarrow>
   fits zero_resources (foldl add_resources zero_resources rs)"
  by (auto simp: fits_def foldl_add_components intro!: sum_list_nonneg_int)

lemma foldl_add_filter_le:
  "(\<And>x. x \<in> set xs \<Longrightarrow> fits zero_resources (f x)) \<Longrightarrow>
   fits (foldl add_resources zero_resources (map f (filter P xs)))
     (foldl add_resources zero_resources (map f xs))"
  unfolding fits_def foldl_add_components
  by (induction xs) (auto simp: add_increasing)

lemma allocated_to_nonneg: "wf_static s \<Longrightarrow> fits zero_resources (allocated_to s t)"
  unfolding allocated_to_def
  by (rule foldl_add_nonneg) (auto simp: wf_static_def valid_allocation_nonneg)

lemma allocated_to_le: "wf_static s \<Longrightarrow> fits (allocated_to s t) (allocated s)"
  unfolding allocated_to_def allocated_def
  by (rule foldl_add_filter_le) (auto simp: wf_static_def valid_allocation_nonneg)

lemma allocated_to_fits: "wf_static s \<Longrightarrow> fits (allocated_to s t) (allocatable_capacity s)"
  by (rule fits_trans [OF allocated_to_le]) (simp_all add: wf_static_def)

lemma dominant_share_bounds:
  assumes "fits zero_resources r"
  shows "0 \<le> dominant_share r cap"
    and "fits r cap \<Longrightarrow> dominant_share r cap \<le> 1"
proof -
  have nn: "0 \<le> dec_div (of_int u) (of_int v)" if "0 \<le> u" "0 < v" for u v :: int
    using that by (simp add: dec_ops_nonneg)
  have le: "dec_div (of_int u) (of_int v) \<le> 1" if "u \<le> v" "0 < v" for u v :: int
  proof -
    have "rnd50 (of_int u / of_int v) \<le> rnd50 1"
      using that by (intro dec50.rnd_mono) simp
    then show ?thesis using rnd50_of_int [of 1] by (simp add: dec_div_def)
  qed
  show "0 \<le> dominant_share r cap"
    unfolding dominant_share_def
    by (rule max_default_ge) (use assms nn in \<open>auto simp: fits_def split: if_splits\<close>)
  show "dominant_share r cap \<le> 1" if "fits r cap"
    unfolding dominant_share_def
    by (rule max_default_le) (use that le in \<open>auto simp: fits_def split: if_splits\<close>)
qed

lemma charge_nonneg: "0 \<le> share \<Longrightarrow> 0 \<le> elapsed \<Longrightarrow> 0 \<le> w \<Longrightarrow> 0 \<le> charge share elapsed w"
  by (simp add: charge_def dec_ops_nonneg)

lemma charge_mono:
  assumes "share \<le> share'" "elapsed \<le> elapsed'" "0 \<le> share" "0 \<le> elapsed" "0 < w'" "w' \<le> w"
  shows "charge share elapsed w \<le> charge share' elapsed' w'"
proof -
  have "share * of_int elapsed \<le> share' * of_int elapsed'"
    using assms by (intro mult_mono) simp_all
  then have "dec_mul share (of_int elapsed) \<le> dec_mul share' (of_int elapsed')"
    unfolding dec_mul_def by (rule dec50.rnd_mono)
  then have m: "dec_div (dec_mul share (of_int elapsed)) 1000 \<le> dec_div (dec_mul share' (of_int elapsed')) 1000"
    (is "?x \<le> ?y") unfolding dec_div_def by (intro dec50.rnd_div_mono) simp_all
  have "0 \<le> ?x" using assms by (simp add: dec_ops_nonneg)
  then have "?x / w \<le> ?y / w'" using m assms by (intro frac_le) simp_all
  then show ?thesis unfolding charge_def dec_div_def [of _ w] dec_div_def [of _ w']
    by (rule dec50.rnd_mono)
qed

lemma share_dict_the:
  assumes "wf_static s" "t \<in> ledger_tenant_id ` set (tenant_ledgers s)"
  shows "dict_the (share_dict s) t = dominant_share (allocated_to s t) (allocatable_capacity s)"
proof -
  have "t \<in> set (dict_keys (held_dict s))" using assms(2) by (auto simp: held_dict_def)
  then show ?thesis
    using held_dict_the [OF assms(2) wf_static_distinct(1) [OF assms(1)]]
    by (simp add: share_dict_def dict_the_map_snd)
qed

lemma share_bounds:
  assumes "wf_static s" "t \<in> ledger_tenant_id ` set (tenant_ledgers s)"
  shows "0 \<le> dict_the (share_dict s) t" "dict_the (share_dict s) t \<le> 1"
  using dominant_share_bounds allocated_to_nonneg allocated_to_fits assms
  by (simp_all add: share_dict_the)

text \<open>The new score of a ledger, in terms of the old one.\<close>

lemma advanced_ledger_score:
  assumes "wf_snapshot s now_ms" "l \<in> set (tenant_ledgers s)"
  obtains c where "0 \<le> c"
    and "virtual_score (advanced_ledger s now_ms l) =
      Finite (let q = dec_add (dec_val (virtual_score l)) c in
        if ledger_tenant_id l \<in> set (eligible_tenants s now_ms) \<and> \<not> had_eligible_demand l
        then max q (dec_val (virtual_floor s)) else q)"
proof
  have wf: "wf_static s" using assms(1) by (simp add: wf_snapshot_static)
  let ?t = "ledger_tenant_id l"
  let ?c = "charge (dict_the (share_dict s) ?t) (now_ms - accounted_through_ms l)
             (dec_val (weight (dict_the (limit_dict s) ?t)))"
  have "?t \<in> limit_tenant_id ` set (tenant_limits s)"
    using assms(2) wf_static_distinct(3) [OF wf] by blast
  then obtain m where m: "m \<in> set (tenant_limits s)" "limit_tenant_id m = ?t" by auto
  then have "dict_the (limit_dict s) ?t = m"
    using limit_dict_the [OF m(1) wf_static_distinct(2) [OF wf]] by simp
  moreover have "valid_limit m" using m(1) wf by (simp add: wf_static_def)
  ultimately have "0 \<le> dec_val (weight (dict_the (limit_dict s) ?t))"
    by (auto simp: valid_limit_def dec_val_def)
  then show "0 \<le> ?c"
    using assms share_bounds(1) [OF wf, of ?t] by (intro charge_nonneg) (auto simp: wf_snapshot_static)
  show "virtual_score (advanced_ledger s now_ms l) =
      Finite (let q = dec_add (dec_val (virtual_score l)) ?c in
        if ?t \<in> set (eligible_tenants s now_ms) \<and> \<not> had_eligible_demand l
        then max q (dec_val (virtual_floor s)) else q)"
    by (simp add: advanced_ledger_def Let_def apply_demand_def charged_ledger_def dec_val_def)
qed

lemma advanced_ledger_simps [simp]:
  "ledger_tenant_id (advanced_ledger s now_ms l) = ledger_tenant_id l"
  "accounted_through_ms (advanced_ledger s now_ms l) = now_ms"
  "had_eligible_demand (advanced_ledger s now_ms l) \<longleftrightarrow>
     ledger_tenant_id l \<in> set (eligible_tenants s now_ms)"
  by (simp_all add: advanced_ledger_def Let_def apply_demand_def charged_ledger_def)

lemma advanced_dict_the:
  "l \<in> set (tenant_ledgers s) \<Longrightarrow> distinct (map ledger_tenant_id (tenant_ledgers s)) \<Longrightarrow>
   dict_the (advanced_dict s now_ms) (ledger_tenant_id l) = advanced_ledger s now_ms l"
  unfolding advanced_dict_def by (rule dict_the_keyed)

lemma acc_ledgers_set:
  assumes "wf_snapshot s now_ms"
  shows "set (acc_tenant_ledgers (accounting_result s now_ms)) =
    advanced_ledger s now_ms ` set (tenant_ledgers s)"
proof -
  have "distinct (map ledger_tenant_id (tenant_ledgers s))"
    using assms by (simp add: wf_snapshot_def)
  then show ?thesis
    by (force simp: accounting_result_def Let_def image_image advanced_dict_the)
qed

lemma advanced_score_ge:
  assumes "wf_snapshot s now_ms" "l \<in> set (tenant_ledgers s)"
  shows "0 \<le> dec_val (virtual_score (advanced_ledger s now_ms l))"
    and "rnd50 (dec_val (virtual_score l)) = dec_val (virtual_score l) \<Longrightarrow>
      dec_val (virtual_score l) \<le> dec_val (virtual_score (advanced_ledger s now_ms l))"
proof -
  obtain c where c: "0 \<le> c"
    "virtual_score (advanced_ledger s now_ms l) =
      Finite (let q = dec_add (dec_val (virtual_score l)) c in
        if ledger_tenant_id l \<in> set (eligible_tenants s now_ms) \<and> \<not> had_eligible_demand l
        then max q (dec_val (virtual_floor s)) else q)"
    using advanced_ledger_score [OF assms] by blast
  have "0 \<le> dec_val (virtual_score l)"
    using assms by (auto simp: wf_snapshot_def valid_ledger_def dec_val_def)
  then have q: "0 \<le> dec_add (dec_val (virtual_score l)) c" using c(1) by (rule dec_ops_nonneg(1))
  then show "0 \<le> dec_val (virtual_score (advanced_ledger s now_ms l))"
    by (simp add: c(2) Let_def le_max_iff_disj)
  show "dec_val (virtual_score l) \<le> dec_val (virtual_score (advanced_ledger s now_ms l))"
    if "rnd50 (dec_val (virtual_score l)) = dec_val (virtual_score l)"
    using dec50.accumulate_ge [OF that c(1)] by (simp add: c(2) dec_add_def Let_def le_max_iff_disj)
qed

subsection \<open>The advanced snapshot\<close>

text \<open>The snapshot whose ledgers and floor are those the accounting returned.\<close>

definition accounted_snapshot :: "SchedulingSnapshot \<Rightarrow> AccountingState \<Rightarrow> SchedulingSnapshot" where
  "accounted_snapshot s st =
     s\<lparr>tenant_ledgers := acc_tenant_ledgers st, virtual_floor := acc_virtual_floor st\<rparr>"

lemma eligible_tenants_subset:
  "wf_snapshot s now_ms \<Longrightarrow>
   set (eligible_tenants s now_ms) \<subseteq> ledger_tenant_id ` set (tenant_ledgers s)"
  by (auto simp: eligible_tenants_def wf_snapshot_def)

lemma advanced_floor_ge:
  assumes "wf_snapshot s now_ms"
  shows "\<exists>q. advanced_floor s now_ms = Finite q \<and> dec_val (virtual_floor s) \<le> q"
proof -
  obtain q where "virtual_floor s = Finite q" using assms by (auto simp: wf_snapshot_def)
  then show ?thesis by (simp add: advanced_floor_def)
qed

lemma advanced_valid_ledger:
  assumes "wf_snapshot s now_ms" "l \<in> set (tenant_ledgers s)" "now_ms \<le> now'"
  shows "valid_ledger now' (advanced_ledger s now_ms l)"
proof -
  obtain q where "virtual_score (advanced_ledger s now_ms l) = Finite q"
    using advanced_ledger_score [OF assms(1,2)] by metis
  moreover have "0 \<le> now_ms" using assms(1) by (simp add: wf_snapshot_def)
  ultimately show ?thesis
    using advanced_score_ge(1) [OF assms(1,2)] assms(3) by (simp add: valid_ledger_def)
qed

lemma acc_ledger_ids:
  assumes "wf_snapshot s now_ms"
  shows "map ledger_tenant_id (acc_tenant_ledgers (accounting_result s now_ms)) =
    sort (map ledger_tenant_id (tenant_ledgers s))"
proof -
  have d: "distinct (map ledger_tenant_id (tenant_ledgers s))" using assms by (simp add: wf_snapshot_def)
  have "ledger_tenant_id (dict_the (advanced_dict s now_ms) t) = t"
    if "t \<in> ledger_tenant_id ` set (tenant_ledgers s)" for t
    using that d by (auto simp: advanced_dict_the)
  then show ?thesis
    by (auto simp: accounting_result_def Let_def comp_def intro!: map_idI)
qed

lemma accounted_snapshot_wf:
  assumes "wf_snapshot s now_ms" "now_ms \<le> now'"
  shows "wf_snapshot (accounted_snapshot s (accounting_result s now_ms)) now'"
proof -
  let ?s = "accounted_snapshot s (accounting_result s now_ms)"
  have same: "policy_version ?s = policy_version s" "allocatable_capacity ?s = allocatable_capacity s"
    "tenant_limits ?s = tenant_limits s" "held_allocations ?s = held_allocations s"
    "candidates_by_tenant ?s = candidates_by_tenant s" "allocated ?s = allocated s"
    "allocated_to ?s = allocated_to s"
    by (simp_all add: accounted_snapshot_def allocated_def allocated_to_def fun_eq_iff)
  have led: "tenant_ledgers ?s = acc_tenant_ledgers (accounting_result s now_ms)"
    "virtual_floor ?s = advanced_floor s now_ms"
    by (simp_all add: accounted_snapshot_def accounting_result_def Let_def)
  have fl: "\<exists>q. advanced_floor s now_ms = Finite q \<and> 0 \<le> q"
    using advanced_floor_ge [OF assms(1)] assms(1) by (force simp: wf_snapshot_def)
  have v: "\<forall>l \<in> set (tenant_ledgers ?s). valid_ledger now' l"
    using advanced_valid_ledger [OF assms(1) _ assms(2)] by (auto simp: led acc_ledgers_set [OF assms(1)])
  have ids: "distinct (map ledger_tenant_id (tenant_ledgers ?s))"
    "ledger_tenant_id ` set (tenant_ledgers ?s) = limit_tenant_id ` set (tenant_limits s)"
    using assms(1) unfolding led acc_ledger_ids [OF assms(1)]
    by (simp_all add: wf_snapshot_def acc_ledgers_set [OF assms(1)] image_image)
  show ?thesis
    unfolding wf_snapshot_def same led(2)
    using assms fl v ids by (simp add: wf_snapshot_def same)
qed

lemma returning_tenant_at_floor:
  assumes "wf_snapshot s now_ms" "l \<in> set (tenant_ledgers s)"
    and "ledger_tenant_id l \<in> set (eligible_tenants s now_ms)" "\<not> had_eligible_demand l"
  shows "dec_val (virtual_floor s) \<le> dec_val (virtual_score (advanced_ledger s now_ms l))"
proof -
  obtain c where "virtual_score (advanced_ledger s now_ms l) =
      Finite (let q = dec_add (dec_val (virtual_score l)) c in
        if ledger_tenant_id l \<in> set (eligible_tenants s now_ms) \<and> \<not> had_eligible_demand l
        then max q (dec_val (virtual_floor s)) else q)"
    using advanced_ledger_score [OF assms(1,2)] by blast
  then show ?thesis using assms(3,4) by (simp add: Let_def)
qed

subsection \<open>Advancing twice at one instant\<close>

lemma accounted_simps [simp]:
  "policy_version (accounted_snapshot s st) = policy_version s"
  "allocatable_capacity (accounted_snapshot s st) = allocatable_capacity s"
  "tenant_limits (accounted_snapshot s st) = tenant_limits s"
  "held_allocations (accounted_snapshot s st) = held_allocations s"
  "candidates_by_tenant (accounted_snapshot s st) = candidates_by_tenant s"
  "tenant_ledgers (accounted_snapshot s st) = acc_tenant_ledgers st"
  "virtual_floor (accounted_snapshot s st) = acc_virtual_floor st"
  "allocated_to (accounted_snapshot s st) = allocated_to s"
  by (simp_all add: accounted_snapshot_def allocated_to_def fun_eq_iff)

lemma advanced_score_representable:
  assumes "wf_snapshot s now_ms" "l \<in> set (tenant_ledgers s)" "rnd50 (dec_val (virtual_floor s)) = dec_val (virtual_floor s)"
  shows "rnd50 (dec_val (virtual_score (advanced_ledger s now_ms l))) = dec_val (virtual_score (advanced_ledger s now_ms l))"
proof -
  obtain c where "virtual_score (advanced_ledger s now_ms l) =
      Finite (let q = dec_add (dec_val (virtual_score l)) c in
        if ledger_tenant_id l \<in> set (eligible_tenants s now_ms) \<and> \<not> had_eligible_demand l
        then max q (dec_val (virtual_floor s)) else q)"
    using advanced_ledger_score [OF assms(1,2)] by blast
  then show ?thesis using assms(3) by (simp add: Let_def max_def dec_ops_representable)
qed

lemma eligible_tenants_accounted:
  assumes "wf_snapshot s now_ms"
  shows "eligible_tenants (accounted_snapshot s (accounting_result s now_ms)) now_ms = eligible_tenants s now_ms"
proof -
  let ?s = "accounted_snapshot s (accounting_result s now_ms)"
  have wf: "wf_snapshot ?s now_ms" by (rule accounted_snapshot_wf [OF assms order_refl])
  have "dict_the (held_dict ?s) t = dict_the (held_dict s) t" if "(t, w) \<in> set (candidates_by_tenant s)" for t w
  proof -
    have "t \<in> ledger_tenant_id ` set (tenant_ledgers s)" "t \<in> ledger_tenant_id ` set (tenant_ledgers ?s)"
      using that assms wf by (force simp: wf_snapshot_def)+
    then show ?thesis using assms wf by (simp add: held_dict_the wf_snapshot_def del: accounted_simps(6))
  qed
  then have "filter (\<lambda>(t, w). has_eligible_candidate w now_ms (allocatable_capacity s)
      (dict_the (held_dict ?s) t) (dict_the (limit_dict s) t)) (candidates_by_tenant s) =
    filter (\<lambda>(t, w). has_eligible_candidate w now_ms (allocatable_capacity s)
      (dict_the (held_dict s) t) (dict_the (limit_dict s) t)) (candidates_by_tenant s)"
    by (intro filter_cong refl) auto
  then show ?thesis by (simp add: eligible_tenants_def)
qed

lemma charge_zero: "charge share 0 w = 0"
  by (simp add: charge_def dec_ops dec50.rnd_zero)

lemma advanced_ledger_again:
  assumes "wf_snapshot s now_ms" "l \<in> set (tenant_ledgers s)" "rnd50 (dec_val (virtual_floor s)) = dec_val (virtual_floor s)"
  shows "advanced_ledger (accounted_snapshot s (accounting_result s now_ms)) now_ms (advanced_ledger s now_ms l) =
    advanced_ledger s now_ms l"
proof -
  let ?l = "advanced_ledger s now_ms l"
  have r: "rnd50 (dec_val (virtual_score ?l)) = dec_val (virtual_score ?l)" by (rule advanced_score_representable [OF assms])
  obtain q where q: "virtual_score ?l = Finite q" using advanced_ledger_score [OF assms(1,2)] by metis
  have "dec_add (dec_val (virtual_score ?l)) 0 = dec_val (virtual_score ?l)"
    using r by (simp add: dec_ops)
  with q show ?thesis
    unfolding advanced_ledger_def [of "accounted_snapshot _ _"] Let_def eligible_tenants_accounted [OF assms(1)]
    by (simp add: apply_demand_def charged_ledger_def charge_zero)
qed

lemma accounting_again:
  assumes wf: "wf_snapshot s now_ms" and fl: "rnd50 (dec_val (virtual_floor s)) = dec_val (virtual_floor s)"
  shows "accounting_result (accounted_snapshot s (accounting_result s now_ms)) now_ms = accounting_result s now_ms"
proof -
  let ?st = "accounting_result s now_ms"
  let ?s = "accounted_snapshot s ?st"
  let ?ts = "sort (map ledger_tenant_id (tenant_ledgers s))"
  have wf': "wf_snapshot ?s now_ms" by (rule accounted_snapshot_wf [OF wf order_refl])
  have st: "wf_static s" "wf_static ?s" using wf wf' by (simp_all add: wf_snapshot_static)
  note d = wf_static_distinct(1) [OF st(1)] wf_static_distinct(1) [OF st(2)]
  have ids: "map ledger_tenant_id (acc_tenant_ledgers ?st) = ?ts" by (rule acc_ledger_ids [OF wf])
  then have ids': "ledger_tenant_id ` set (tenant_ledgers ?s) = ledger_tenant_id ` set (tenant_ledgers s)"
    by (metis accounted_simps(6) list.set_map set_sort)
  have led: "dict_the (advanced_dict ?s now_ms) t = dict_the (advanced_dict s now_ms) t"
    if t: "t \<in> ledger_tenant_id ` set (tenant_ledgers s)" for t
  proof -
    obtain l where l: "l \<in> set (tenant_ledgers s)" "t = ledger_tenant_id l" using t by blast
    have m: "advanced_ledger s now_ms l \<in> set (tenant_ledgers ?s)"
      using l(1) by (simp add: acc_ledgers_set [OF wf])
    have "dict_the (advanced_dict ?s now_ms) (ledger_tenant_id (advanced_ledger s now_ms l)) =
        advanced_ledger ?s now_ms (advanced_ledger s now_ms l)"
      by (rule advanced_dict_the [OF m d(2)])
    also have "\<dots> = dict_the (advanced_dict s now_ms) (ledger_tenant_id l)"
      unfolding advanced_ledger_again [OF wf l(1) fl] advanced_dict_the [OF l(1) d(1)] ..
    finally show ?thesis by (simp add: l(2))
  qed
  have held: "dict_the (held_dict ?s) t = dict_the (held_dict s) t"
    and share: "dict_the (share_dict ?s) t = dict_the (share_dict s) t"
    if t: "t \<in> ledger_tenant_id ` set (tenant_ledgers s)" for t
  proof -
    have t': "t \<in> ledger_tenant_id ` set (tenant_ledgers ?s)" using t ids' by simp
    show "dict_the (held_dict ?s) t = dict_the (held_dict s) t"
      by (simp add: held_dict_the [OF t' d(2)] held_dict_the [OF t d(1)])
    show "dict_the (share_dict ?s) t = dict_the (share_dict s) t"
      by (simp add: share_dict_the [OF st(2) t'] share_dict_the [OF st(1) t])
  qed
  have el: "eligible_tenants ?s now_ms = eligible_tenants s now_ms" by (rule eligible_tenants_accounted [OF wf])
  have scores: "map (\<lambda>t. dec_val (virtual_score (dict_the (advanced_dict ?s now_ms) t))) (eligible_tenants s now_ms) =
      map (\<lambda>t. dec_val (virtual_score (dict_the (advanced_dict s now_ms) t))) (eligible_tenants s now_ms)"
    using led eligible_tenants_subset [OF wf] by (intro map_cong refl) (metis subsetD)
  have f: "acc_virtual_floor ?st = advanced_floor s now_ms" by (simp add: accounting_result_def Let_def)
  have floor: "advanced_floor ?s now_ms = advanced_floor s now_ms"
    unfolding advanced_floor_def [of ?s] el scores by (simp add: f) (simp add: advanced_floor_def)
  have maps: "map (dict_the (advanced_dict ?s now_ms)) ?ts = map (dict_the (advanced_dict s now_ms)) ?ts"
    "map (\<lambda>t. (t, dict_the (held_dict ?s) t)) ?ts = map (\<lambda>t. (t, dict_the (held_dict s) t)) ?ts"
    "map (\<lambda>t. (t, dict_the (share_dict ?s) t)) ?ts = map (\<lambda>t. (t, dict_the (share_dict s) t)) ?ts"
    using led held share by simp_all
  have ss: "sort ?ts = ?ts" by (simp add: sorted_sort_id)
  show ?thesis
    unfolding accounting_result_def [of ?s] Let_def el floor accounted_simps(6) ids ss maps
    by (simp add: accounting_result_def Let_def)
qed

subsection \<open>Properties of the accounting\<close>

text \<open>C34: whatever the accounting accepts at one time it accepts again, with the ledgers and the
  floor it returned, at every later time; so a ledger that was advanced once never makes the accounting
  fail as long as time does not run backwards.\<close>

theorem accounting_continues:
  assumes "advance_accounting s now_ms = Inr st" "now_ms \<le> later_ms"
  shows "\<exists>st'. advance_accounting (accounted_snapshot s st) later_ms = Inr st'"
  using assms accounted_snapshot_wf by (auto simp: advance_accounting_Inr)

text \<open>C35: accounting twice at the same instant is accounting once: the second pass charges nothing,
  lifts no score and returns the same ledgers, floor, shares and eligible tenants.\<close>

theorem accounting_idempotent:
  assumes "advance_accounting s now_ms = Inr st"
    and "rnd50 (dec_val (virtual_floor s)) = dec_val (virtual_floor s)"
  shows "advance_accounting (accounted_snapshot s st) now_ms = Inr st"
proof -
  have wf: "wf_snapshot s now_ms" and st: "st = accounting_result s now_ms"
    using assms(1) by (simp_all add: advance_accounting_Inr)
  show ?thesis
    unfolding advance_accounting_Inr st
    using accounted_snapshot_wf [OF wf order_refl] accounting_again [OF wf assms(2)] by simp
qed

text \<open>C36: accounting never lowers a score or the floor, and leaves every tenant accounted up to the
  given time with a finite, nonnegative score.\<close>

theorem accounting_monotone:
  assumes "advance_accounting s now_ms = Inr st" "l \<in> set (tenant_ledgers s)"
    and "rnd50 (dec_val (virtual_score l)) = dec_val (virtual_score l)"
  shows "(\<exists>l' \<in> set (acc_tenant_ledgers st). ledger_tenant_id l' = ledger_tenant_id l \<and>
      valid_ledger now_ms l' \<and> accounted_through_ms l' = now_ms \<and>
      dec_val (virtual_score l) \<le> dec_val (virtual_score l')) \<and>
    dec_val (virtual_floor s) \<le> dec_val (acc_virtual_floor st)"
proof -
  have wf: "wf_snapshot s now_ms" and st: "st = accounting_result s now_ms"
    using assms(1) by (simp_all add: advance_accounting_Inr)
  have "advanced_ledger s now_ms l \<in> set (acc_tenant_ledgers st)"
    using assms(2) by (simp add: st acc_ledgers_set [OF wf])
  moreover have "valid_ledger now_ms (advanced_ledger s now_ms l)"
    by (rule advanced_valid_ledger [OF wf assms(2) order_refl])
  moreover have "acc_virtual_floor st = advanced_floor s now_ms" by (simp add: st accounting_result_def Let_def)
  ultimately show ?thesis
    using advanced_score_ge(2) [OF wf assms(2,3)] advanced_floor_ge [OF wf]
    by (intro conjI bexI [of _ "advanced_ledger s now_ms l"]) auto
qed

text \<open>C37: a tenant that becomes eligible again after a pause cannot use the time it was idle: its
  new score is at least the virtual floor.\<close>

theorem accounting_returning_tenant:
  assumes "advance_accounting s now_ms = Inr st" "l' \<in> set (acc_tenant_ledgers st)"
    and "l \<in> set (tenant_ledgers s)" "ledger_tenant_id l = ledger_tenant_id l'"
    and "\<not> had_eligible_demand l" "had_eligible_demand l'"
  shows "dec_val (virtual_floor s) \<le> dec_val (virtual_score l')"
proof -
  have wf: "wf_snapshot s now_ms" and st: "st = accounting_result s now_ms"
    using assms(1) by (simp_all add: advance_accounting_Inr)
  obtain m where m: "m \<in> set (tenant_ledgers s)" "l' = advanced_ledger s now_ms m"
    using assms(2) by (auto simp: st acc_ledgers_set [OF wf])
  have "m = l" using assms(3,4) m wf by (auto simp: wf_snapshot_def distinct_map dest: inj_onD)
  with returning_tenant_at_floor [OF wf m(1)] assms(5,6) m show ?thesis by simp
qed

text \<open>the time charge grows with the share and with the elapsed time and shrinks with the
  tenant's weight, after every rounding to fifty digits.\<close>

theorem charge_monotone:
  assumes "0 \<le> share" "share \<le> share'" "0 \<le> elapsed" "elapsed \<le> elapsed'" "0 < w'" "w' \<le> w"
  shows "0 \<le> charge share elapsed w \<and> charge share elapsed w \<le> charge share' elapsed' w'"
  using assms charge_mono [of share share' elapsed elapsed' w' w] charge_nonneg [of share elapsed w] by simp

definition ex_accounting :: SchedulingSnapshot where
  "ex_accounting = \<lparr>policy_version = 1,
     allocatable_capacity = \<lparr>cpu_millis = 4, memory_bytes = 8, gpu_count = 0\<rparr>,
     held_allocations = [],
     tenant_ledgers = [\<lparr>ledger_tenant_id = ''t'', virtual_score = Finite 0, accounted_through_ms = 0,
       had_eligible_demand = False\<rparr>],
     tenant_limits = [\<lparr>limit_tenant_id = ''t'', weight = Finite 1,
       resource_quota = \<lparr>cpu_millis = 4, memory_bytes = 8, gpu_count = 1\<rparr>,
       max_active_attempts = 4, max_user_active_attempts = 2, artifact_quota_available = True\<rparr>],
     candidates_by_tenant = [(''t'', \<lparr>normal = [\<lparr>job_id = ''j'', cand_tenant_id = ''t'', user_id = ''u'',
       job_version = 1, ready_sequence = 1,
       resources = \<lparr>cpu_millis = 1, memory_bytes = 1, gpu_count = 0\<rparr>, base_priority = 1,
       eligible_wait_seconds = 0, retry_ready_at_ms = 0, template_version = 1, required_capabilities = {},
       tenant_active_attempts = 0, user_active_attempts = 0, cand_state = Candidate_QUEUED,
       template_compatible = True, capabilities_compatible = True, policy_compatible = True\<rparr>],
       oldest_eligible = None, continuation_cursor = None\<rparr>)],
     active_reservation = None, virtual_floor = Finite 7\<rparr>"

lemma ex_accounting_result:
  "advance_accounting ex_accounting 5 = Inr \<lparr>
     acc_tenant_ledgers = [\<lparr>ledger_tenant_id = ''t'', virtual_score = Finite 7, accounted_through_ms = 5,
       had_eligible_demand = True\<rparr>],
     acc_virtual_floor = Finite 7,
     held_resources_by_tenant = [(''t'', \<lparr>cpu_millis = 0, memory_bytes = 0, gpu_count = 0\<rparr>)],
     dominant_shares = [(''t'', 0)], eligible_tenant_ids = [''t'']\<rparr>"
  by code_simp

lemma rnd50_7: "rnd50 7 = 7"
  using rnd50_of_int [of 7] by simp

theorem accounting_continues_witness:
  "\<exists>st st'. advance_accounting ex_accounting 5 = Inr st \<and>
     advance_accounting (accounted_snapshot ex_accounting st) 9 = Inr st'"
  using accounting_continues [OF ex_accounting_result, of 9] ex_accounting_result by simp

theorem accounting_idempotent_witness:
  "\<exists>st. advance_accounting ex_accounting 5 = Inr st \<and> acc_virtual_floor st = Finite 7 \<and>
     advance_accounting (accounted_snapshot ex_accounting st) 5 = Inr st"
proof -
  have "rnd50 (dec_val (virtual_floor ex_accounting)) = dec_val (virtual_floor ex_accounting)"
    by (simp add: ex_accounting_def dec_val_def rnd50_7)
  from accounting_idempotent [OF ex_accounting_result this] ex_accounting_result show ?thesis by simp
qed

theorem accounting_monotone_witness:
  "\<exists>st. advance_accounting ex_accounting 5 = Inr st \<and>
     dec_val (virtual_floor ex_accounting) \<le> dec_val (acc_virtual_floor st)"
proof -
  have l: "hd (tenant_ledgers ex_accounting) \<in> set (tenant_ledgers ex_accounting)"
    "rnd50 (dec_val (virtual_score (hd (tenant_ledgers ex_accounting)))) =
      dec_val (virtual_score (hd (tenant_ledgers ex_accounting)))"
    by (simp_all add: ex_accounting_def dec_val_def dec50.rnd_zero)
  from accounting_monotone [OF ex_accounting_result l] ex_accounting_result show ?thesis by blast
qed

theorem accounting_returning_tenant_witness:
  "\<exists>st l'. advance_accounting ex_accounting 5 = Inr st \<and> l' \<in> set (acc_tenant_ledgers st) \<and>
     dec_val (virtual_floor ex_accounting) \<le> dec_val (virtual_score l')"
proof -
  let ?l' = "\<lparr>ledger_tenant_id = ''t'', virtual_score = Finite 7, accounted_through_ms = 5,
       had_eligible_demand = True\<rparr>"
  have "dec_val (virtual_floor ex_accounting) \<le> dec_val (virtual_score ?l')"
    by (rule accounting_returning_tenant [OF ex_accounting_result, of _ "hd (tenant_ledgers ex_accounting)"])
      (simp_all add: ex_accounting_def)
  with ex_accounting_result show ?thesis by auto
qed

theorem charge_monotone_witness: "charge 0 5 2 \<le> charge 1 9 1 \<and> 0 \<le> charge 0 5 2"
  using charge_monotone [of 0 1 5 9 1 2] by simp

end
