(* ===== verification/Scheduler_Policy.thy ===== *)
theory Scheduler_Policy
  imports Scheduler_Accounting
begin

section \<open>The weighted dominant resource-time policy\<close>

text \<open>
  \<^verbatim>\<open>src/src/nexa/scheduler/policy.py\<close>: window validation, and the \<^verbatim>\<open>decide\<close> method of
  \<^verbatim>\<open>WeightedDominantResourceTimePolicy\<close>.  The tenant heap is popped in ascending order of
  \<open>(virtual score, weighted share, oldest ready sequence, tenant)\<close>; the tuples are pairwise distinct
  because the tenant is their last component, so popping the heap is traversing the sorted list.
\<close>

definition max_normal_candidates :: nat where
  "max_normal_candidates = 16"

definition effective_priority :: "Candidate \<Rightarrow> int" where
  "effective_priority c = min 2 (base_priority c + eligible_wait_seconds c div 60)"

definition subtract_resources :: "ResourceCapacity \<Rightarrow> ResourceCapacity \<Rightarrow> ResourceCapacity" where
  "subtract_resources left right =
     \<lparr>cpu_millis = cpu_millis left - cpu_millis right,
      memory_bytes = memory_bytes left - memory_bytes right,
      gpu_count = gpu_count left - gpu_count right\<rparr>"

definition validate_candidate :: "Candidate \<Rightarrow> string \<Rightarrow> PolicyError option" where
  "validate_candidate c tenant_id =
     (let msg = (\<lambda>m. Some (InvalidSnapshot (''candidate '' @ job_id c @ m))) in
      if cand_tenant_id c \<noteq> tenant_id then msg '' has mismatched tenant_id''
      else if job_version c \<le> 0 then msg '' has invalid job_version''
      else if ready_sequence c < 0 then msg '' has invalid ready_sequence''
      else if cpu_millis (resources c) \<le> 0 \<or> memory_bytes (resources c) \<le> 0
        then msg '' has invalid resources''
      else if gpu_count (resources c) \<notin> {0, 1} then msg '' has invalid resources''
      else if base_priority c \<notin> {0, 1, 2} then msg '' has invalid base_priority''
      else if eligible_wait_seconds c < 0 then msg '' has invalid eligible_wait_seconds''
      else if retry_ready_at_ms c < 0 then msg '' has invalid retry_ready_at_ms''
      else if template_version c \<le> 0 then msg '' has invalid template_version''
      else if tenant_active_attempts c < 0 \<or> user_active_attempts c < 0
        then msg '' has invalid active attempts''
      else None)"

text \<open>One iteration of the loop over a window's normal candidates, with state
  \<open>(normal_ids, candidates_by_id)\<close>.\<close>

definition add_normal_candidate ::
  "string \<Rightarrow> string list \<times> (string, Candidate) dict \<Rightarrow> Candidate \<Rightarrow>
   (PolicyError, string list \<times> (string, Candidate) dict) result" where
  "add_normal_candidate t st c = (case st of (normal_ids, by_id) \<Rightarrow>
     case validate_candidate c t of Some e \<Rightarrow> Inl e | None \<Rightarrow>
       if job_id c \<in> set normal_ids
       then Inl (InvalidSnapshot (''candidate window '' @ t @ '' contains duplicate job IDs''))
       else case map_of by_id (job_id c) of
         Some previous \<Rightarrow>
           if previous \<noteq> c then Inl (InvalidSnapshot ''candidate job ID is not globally unique'')
           else Inr (job_id c # normal_ids, AList.update (job_id c) c by_id)
       | None \<Rightarrow> Inr (job_id c # normal_ids, AList.update (job_id c) c by_id))"

text \<open>One iteration of the loop over the candidate windows, with state
  \<open>(windows, candidates_by_id)\<close>.\<close>

definition add_validated_window ::
  "(string, CandidateWindow) dict \<times> (string, Candidate) dict \<Rightarrow> string \<times> CandidateWindow \<Rightarrow>
   (PolicyError, (string, CandidateWindow) dict \<times> (string, Candidate) dict) result" where
  "add_validated_window st p = (case st of (windows, by_id) \<Rightarrow> case p of (t, w) \<Rightarrow>
     if t \<in> set (dict_keys windows)
     then Inl (InvalidSnapshot ''candidate windows contain duplicate tenant IDs'')
     else if max_normal_candidates < length (normal w)
     then Inl (CandidateBoundExceeded t (length (normal w)))
     else let windows' = AList.update t w windows in
       res_bind (fold_result (add_normal_candidate t) ([], by_id) (normal w)) (\<lambda>(normal_ids, by_id').
         case oldest_eligible w of None \<Rightarrow> Inr (windows', by_id')
         | Some c \<Rightarrow>
             (case validate_candidate c t of Some e \<Rightarrow> Inl e | None \<Rightarrow>
               (case map_of by_id' (job_id c) of
                  Some previous \<Rightarrow>
                    if previous \<noteq> c
                    then Inl (InvalidSnapshot
                      (''oldest candidate '' @ job_id c @ '' disagrees with normal window''))
                    else Inr (windows', AList.update (job_id c) c by_id')
                | None \<Rightarrow> Inr (windows', AList.update (job_id c) c by_id')))))"

definition validate_windows ::
  "SchedulingSnapshot \<Rightarrow> (PolicyError, (string, CandidateWindow) dict) result" where
  "validate_windows s =
     res_bind (fold_result add_validated_window ([], []) (candidates_by_tenant s)) (\<lambda>st. Inr (fst st))"

definition continuation_cursors :: "(string, CandidateWindow) dict \<Rightarrow> (string \<times> string) list" where
  "continuation_cursors windows =
     concat (map (\<lambda>(t, w). case continuation_cursor w of None \<Rightarrow> [] | Some c \<Rightarrow> [(t, c)])
       (sort_key fst windows))"

text \<open>The candidates of a tenant that pass every eligibility test.\<close>

definition eligible_of ::
  "int \<Rightarrow> ResourceCapacity \<Rightarrow> ResourceCapacity \<Rightarrow> TenantPolicySnapshot \<Rightarrow> Candidate list \<Rightarrow> Candidate list" where
  "eligible_of now_ms capacity held limits cs =
     filter (\<lambda>c. candidate_ineligibility_reason c now_ms capacity held limits = None) cs"

definition reservation_invalidation :: "string \<Rightarrow> string" where
  "reservation_invalidation r =
     (if r \<in> {''cancelled'', ''capability_incompatible'', ''template_incompatible'', ''policy_incompatible''}
      then r else ''no_longer_eligible'')"

text \<open>The branch of \<^verbatim>\<open>decide\<close> taken while a reservation is active.\<close>

definition decide_reserved ::
  "SchedulingSnapshot \<Rightarrow> int \<Rightarrow> ResourceCapacity \<Rightarrow> (string, Candidate) dict \<Rightarrow>
   (string, ResourceCapacity) dict \<Rightarrow> (string, TenantPolicySnapshot) dict \<Rightarrow> ReservationSnapshot \<Rightarrow>
   SchedulingDecision" where
  "decide_reserved s now_ms free by_id held limits r =
     (case invalid_reason r of Some reason \<Rightarrow> InvalidateReservation (reservation_id r) reason
      | None \<Rightarrow>
        if res_policy_version r \<noteq> policy_version s
        then InvalidateReservation (reservation_id r) ''policy_incompatible''
        else case map_of by_id (res_job_id r) of
          None \<Rightarrow> InvalidateReservation (reservation_id r) ''no_longer_eligible''
        | Some c \<Rightarrow>
            if cand_tenant_id c \<noteq> res_tenant_id r
            then InvalidateReservation (reservation_id r) ''no_longer_eligible''
            else case candidate_ineligibility_reason c now_ms (allocatable_capacity s)
                   (dict_the held (res_tenant_id r)) (dict_the limits (res_tenant_id r)) of
              Some reason \<Rightarrow>
                InvalidateReservation (reservation_id r) (reservation_invalidation reason)
            | None \<Rightarrow>
                if fits (resources c) free
                then Dispatch (job_id c) (job_version c) (policy_version s) (Some (reservation_id r))
                else DrainForReservation (reservation_id r) (job_id c))"

definition tenant_key ::
  "(string, TenantLedger) dict \<Rightarrow> (string, rat) dict \<Rightarrow> (string, TenantPolicySnapshot) dict \<Rightarrow>
   string \<Rightarrow> Candidate list \<Rightarrow> rat \<times> rat \<times> int \<times> string" where
  "tenant_key ledgers shares limits t items =
     (dec_val (virtual_score (dict_the ledgers t)),
      dec_div (dict_the shares t) (dec_val (weight (dict_the limits t))),
      min_list (map ready_sequence items),
      t)"

definition candidate_key :: "Candidate \<Rightarrow> int \<times> int \<times> string" where
  "candidate_key c = (- effective_priority c, ready_sequence c, job_id c)"

text \<open>The pop loop over the tenant heap.\<close>

fun pop_tenants ::
  "SchedulingSnapshot \<Rightarrow> ResourceCapacity \<Rightarrow> (string, CandidateWindow) dict \<Rightarrow>
   (string, Candidate list) dict \<Rightarrow> (string, Candidate list) dict \<Rightarrow>
   (rat \<times> rat \<times> int \<times> string) list \<Rightarrow> SchedulingDecision option" where
  "pop_tenants s free windows eligible_all eligible_normal [] = None"
| "pop_tenants s free windows eligible_all eligible_normal ((_, _, _, t) # heap) =
     (let oldest = oldest_eligible (dict_the windows t);
          fitting = filter (\<lambda>c. fits (resources c) free) (dict_the eligible_normal t)
      in if (case oldest of None \<Rightarrow> False | Some c \<Rightarrow>
               120 \<le> eligible_wait_seconds c \<and>
               list_ex (\<lambda>d. job_id d = job_id c) (dict_the eligible_all t))
         then Some (CreateReservation (job_id (the oldest)) t ''eligible_wait_threshold'')
         else if fitting = [] then pop_tenants s free windows eligible_all eligible_normal heap
         else let c = arg_min_list candidate_key fitting
              in Some (Dispatch (job_id c) (job_version c) (policy_version s) None))"

definition decide :: "SchedulingSnapshot \<Rightarrow> int \<Rightarrow> (PolicyError, SchedulingDecision) result" where
  "decide s now_ms =
     res_bind (validate_windows s) (\<lambda>windows.
     res_bind (advance_accounting s now_ms) (\<lambda>state.
       let ledgers = dict_of (map (\<lambda>l. (ledger_tenant_id l, l)) (acc_tenant_ledgers state));
           limits = dict_of (map (\<lambda>l. (limit_tenant_id l, l)) (tenant_limits s));
           held = dict_of (held_resources_by_tenant state);
           shares = dict_of (dominant_shares state);
           total_held = foldl add_resources zero_resources (dict_values held);
           free = subtract_resources (allocatable_capacity s) total_held
       in if list_ex (\<lambda>t. t \<notin> set (dict_keys limits)) (dict_keys windows)
          then Inl (InvalidSnapshot ''candidate window references an unknown tenant'')
          else
            let el = (\<lambda>t. eligible_of now_ms (allocatable_capacity s) (dict_the held t) (dict_the limits t));
                eligible_all = map (\<lambda>(t, w). (t, el t (dict_values (unique_candidates w)))) windows;
                eligible_normal = map (\<lambda>(t, w). (t, el t (normal w))) windows;
                by_id = dict_of (concat (map (\<lambda>(t, w). unique_candidates w) windows))
            in case active_reservation s of
                 Some r \<Rightarrow> Inr (decide_reserved s now_ms free by_id held limits r)
               | None \<Rightarrow>
                   (let heap = sort (map (\<lambda>(t, items). tenant_key ledgers shares limits t items)
                           (filter (\<lambda>(t, items). items \<noteq> []) eligible_all))
                    in Inr (case pop_tenants s free windows eligible_all eligible_normal heap of
                         Some d \<Rightarrow> d
                       | None \<Rightarrow> NoDecision
                           (if heap \<noteq> [] then ''no_candidate_fits_free_resources''
                            else ''no_eligible_candidate'')
                           (continuation_cursors windows)))))"

text \<open>Declarative vocabulary for the properties: what a window offers, the limits of a tenant, and
  what is free.\<close>

definition window_candidates :: "CandidateWindow \<Rightarrow> Candidate set" where
  "window_candidates w = set (normal w) \<union> set_option (oldest_eligible w)"

definition limit_of :: "SchedulingSnapshot \<Rightarrow> string \<Rightarrow> TenantPolicySnapshot" where
  "limit_of s t = dict_the (limit_dict s) t"

definition free_capacity :: "SchedulingSnapshot \<Rightarrow> ResourceCapacity" where
  "free_capacity s = subtract_resources (allocatable_capacity s) (allocated s)"

definition eligible_candidate :: "SchedulingSnapshot \<Rightarrow> int \<Rightarrow> string \<Rightarrow> Candidate \<Rightarrow> bool" where
  "eligible_candidate s now_ms t c \<longleftrightarrow>
     candidate_ineligibility_reason c now_ms (allocatable_capacity s) (allocated_to s t) (limit_of s t) = None"

definition valid_windows :: "SchedulingSnapshot \<Rightarrow> bool" where
  "valid_windows s \<longleftrightarrow>
     distinct (map fst (candidates_by_tenant s)) \<and>
     (\<forall>(t, w) \<in> set (candidates_by_tenant s).
        length (normal w) \<le> max_normal_candidates \<and> distinct (map job_id (normal w)) \<and>
        (\<forall>c \<in> window_candidates w. validate_candidate c t = None)) \<and>
     inj_on job_id (\<Union>(t, w) \<in> set (candidates_by_tenant s). window_candidates w)"

subsection \<open>Window validation\<close>

text \<open>The dictionary of candidates seen so far binds every job to its candidate.\<close>

definition bound :: "(string, Candidate) dict \<Rightarrow> Candidate set \<Rightarrow> bool" where
  "bound by_id cs \<longleftrightarrow> (\<forall>j c. map_of by_id j = Some c \<longleftrightarrow> c \<in> cs \<and> job_id c = j)"

lemma bound_inj: "bound by_id cs \<Longrightarrow> inj_on job_id cs"
  unfolding bound_def by (metis inj_onI option.inject)

lemma bound_update:
  assumes "bound by_id cs" "inj_on job_id (insert c cs)"
  shows "bound (AList.update (job_id c) c by_id) (insert c cs)"
  unfolding bound_def
proof (intro allI)
  fix j d
  have "d = c" if "d \<in> insert c cs" "job_id d = job_id c"
    using inj_onD [OF assms(2) that(2) that(1)] by simp
  moreover have "map_of by_id j = Some d \<longleftrightarrow> d \<in> cs \<and> job_id d = j"
    using assms(1) by (simp add: bound_def)
  ultimately show "map_of (AList.update (job_id c) c by_id) j = Some d \<longleftrightarrow>
      d \<in> insert c cs \<and> job_id d = j"
    by (cases "j = job_id c") auto
qed

lemma bound_fresh:
  assumes "bound by_id cs"
  shows "map_of by_id (job_id c) \<in> {None, Some c} \<longleftrightarrow> inj_on job_id (insert c cs)"
proof
  assume l: "map_of by_id (job_id c) \<in> {None, Some c}"
  have "d = c" if "d \<in> cs" "job_id d = job_id c" for d
    using that l assms unfolding bound_def by (metis insertE option.distinct(1) option.inject singletonD)
  with bound_inj [OF assms] show "inj_on job_id (insert c cs)"
    by (auto simp: inj_on_insert)
next
  assume "inj_on job_id (insert c cs)"
  then have "d = c" if "map_of by_id (job_id c) = Some d" for d
    using that assms unfolding bound_def inj_on_def by (metis insertCI)
  then show "map_of by_id (job_id c) \<in> {None, Some c}" by (cases "map_of by_id (job_id c)") auto
qed

lemma add_normal_candidate_Inr:
  assumes "bound by_id B"
  shows "add_normal_candidate t (ids, by_id) c = Inr (ids', by_id') \<longleftrightarrow>
     validate_candidate c t = None \<and> job_id c \<notin> set ids \<and> inj_on job_id (insert c B) \<and>
     ids' = job_id c # ids \<and> by_id' = AList.update (job_id c) c by_id"
  unfolding bound_fresh [OF assms, symmetric]
  by (auto simp: add_normal_candidate_def split: option.splits if_splits)

definition bind_all :: "(string, Candidate) dict \<Rightarrow> Candidate list \<Rightarrow> (string, Candidate) dict" where
  "bind_all = foldl (\<lambda>d c. AList.update (job_id c) c d)"

lemma bind_all_simps [simp]:
  "bind_all d [] = d" "bind_all d (c # cs) = bind_all (AList.update (job_id c) c d) cs"
  by (simp_all add: bind_all_def)

lemma bind_all_bound:
  "bound by_id B \<Longrightarrow> inj_on job_id (B \<union> set cs) \<Longrightarrow> bound (bind_all by_id cs) (B \<union> set cs)"
proof (induction cs arbitrary: by_id B)
  case (Cons c cs)
  have un: "B \<union> set (c # cs) = insert c B \<union> set cs" by auto
  have "inj_on job_id (insert c B)" using Cons.prems(2) unfolding un by (rule inj_on_subset) auto
  then show ?case
    using Cons.IH [OF bound_update [OF Cons.prems(1)]] Cons.prems(2) unfolding un by simp
qed simp

lemma fold_add_normal:
  assumes "bound by_id B"
  shows "fold_result (add_normal_candidate t) (ids, by_id) cs = Inr r \<longleftrightarrow>
     (\<forall>c \<in> set cs. validate_candidate c t = None) \<and> distinct (map job_id cs) \<and>
     set (map job_id cs) \<inter> set ids = {} \<and> inj_on job_id (B \<union> set cs) \<and>
     r = (rev (map job_id cs) @ ids, bind_all by_id cs)"
  using assms
proof (induction cs arbitrary: ids by_id B)
  case Nil
  then show ?case using bound_inj by auto
next
  case (Cons c cs)
  have un: "B \<union> set (c # cs) = insert c B \<union> set cs" by auto
  show ?case
  proof (cases "validate_candidate c t = None \<and> job_id c \<notin> set ids \<and> inj_on job_id (insert c B)")
    case True
    then have a: "add_normal_candidate t (ids, by_id) c =
        Inr (job_id c # ids, AList.update (job_id c) c by_id)"
      using add_normal_candidate_Inr [OF Cons.prems] by simp
    have b: "bound (AList.update (job_id c) c by_id) (insert c B)"
      by (rule bound_update [OF Cons.prems]) (use True in blast)
    have d: "distinct (map job_id (c # cs)) \<and> set (map job_id (c # cs)) \<inter> set ids = {} \<longleftrightarrow>
        distinct (map job_id cs) \<and> set (map job_id cs) \<inter> set (job_id c # ids) = {}"
      using True by auto
    have v: "(\<forall>x \<in> set (c # cs). validate_candidate x t = None) \<longleftrightarrow>
        (\<forall>x \<in> set cs. validate_candidate x t = None)"
      using True by simp
    show ?thesis
      unfolding un v fold_result.simps a sum.case Cons.IH [OF b] using d by simp blast
  next
    case False
    have "add_normal_candidate t (ids, by_id) c \<noteq> Inr p" for p
      using False add_normal_candidate_Inr [OF Cons.prems, of t ids c "fst p" "snd p"]
      unfolding prod.collapse by blast
    then obtain e where e: "add_normal_candidate t (ids, by_id) c = Inl e"
      by (cases "add_normal_candidate t (ids, by_id) c") blast+
    have "inj_on job_id (insert c B)" if "inj_on job_id (insert c B \<union> set cs)"
      by (rule inj_on_subset [OF that]) auto
    with False have "\<not> ((\<forall>x \<in> set (c # cs). validate_candidate x t = None) \<and>
        set (map job_id (c # cs)) \<inter> set ids = {} \<and> inj_on job_id (insert c B \<union> set cs))"
      by (auto simp del: inj_on_insert)
    then show ?thesis unfolding un fold_result.simps e sum.case by blast
  qed
qed

text \<open>The candidates of a window in the order the loop visits them.\<close>

definition window_list :: "CandidateWindow \<Rightarrow> Candidate list" where
  "window_list w = normal w @ (case oldest_eligible w of None \<Rightarrow> [] | Some c \<Rightarrow> [c])"

lemma set_window_list [simp]: "set (window_list w) = window_candidates w"
  by (cases "oldest_eligible w") (simp_all add: window_list_def window_candidates_def)

definition valid_window :: "string \<Rightarrow> CandidateWindow \<Rightarrow> bool" where
  "valid_window t w \<longleftrightarrow> length (normal w) \<le> max_normal_candidates \<and> distinct (map job_id (normal w)) \<and>
     (\<forall>c \<in> window_candidates w. validate_candidate c t = None)"

lemma add_validated_window_Inr:
  assumes "bound by_id B"
  shows "add_validated_window (ws, by_id) (t, w) = Inr r \<longleftrightarrow>
    t \<notin> fst ` set ws \<and> valid_window t w \<and> inj_on job_id (B \<union> window_candidates w) \<and>
    r = (ws @ [(t, w)], bind_all by_id (window_list w))"
proof -
  let ?n = "(\<forall>c \<in> set (normal w). validate_candidate c t = None) \<and> distinct (map job_id (normal w)) \<and>
     inj_on job_id (B \<union> set (normal w))"
  have f: "fold_result (add_normal_candidate t) ([], by_id) (normal w) = Inr x \<longleftrightarrow>
     ?n \<and> x = (rev (map job_id (normal w)), bind_all by_id (normal w))" for x
    by (simp add: fold_add_normal [OF assms] conj_ac)
  have split: "res_bind (fold_result (add_normal_candidate t) ([], by_id) (normal w)) k = Inr r \<longleftrightarrow>
     ?n \<and> k (rev (map job_id (normal w)), bind_all by_id (normal w)) = Inr r" for k
    by (auto simp: res_bind_Inr_iff f)
  show ?thesis
  proof (cases "oldest_eligible w")
    case None
    then show ?thesis
      by (auto simp: add_validated_window_def Let_def split window_candidates_def window_list_def
          valid_window_def update_fresh)
  next
    case (Some c)
    have un: "B \<union> window_candidates w = insert c (B \<union> set (normal w))"
      using Some by (auto simp: window_candidates_def)
    have sub: "inj_on job_id (insert c (B \<union> set (normal w))) \<Longrightarrow> inj_on job_id (B \<union> set (normal w))"
      by (rule inj_on_subset) auto
    have fr: "map_of (bind_all by_id (normal w)) (job_id c) \<in> {None, Some c} \<longleftrightarrow>
        inj_on job_id (insert c (B \<union> set (normal w)))" if ?n
      by (rule bound_fresh, rule bind_all_bound [OF assms]) (use that in blast)
    have wl: "bind_all by_id (window_list w) = AList.update (job_id c) c (bind_all by_id (normal w))"
      by (simp add: window_list_def Some bind_all_def)
    have wc: "(\<forall>x \<in> window_candidates w. validate_candidate x t = None) \<longleftrightarrow>
        validate_candidate c t = None \<and> (\<forall>x \<in> set (normal w). validate_candidate x t = None)"
      using Some by (auto simp: window_candidates_def)
    have "add_validated_window (ws, by_id) (t, w) = Inr r \<longleftrightarrow>
        t \<notin> fst ` set ws \<and> length (normal w) \<le> max_normal_candidates \<and> ?n \<and>
        validate_candidate c t = None \<and>
        map_of (bind_all by_id (normal w)) (job_id c) \<in> {None, Some c} \<and>
        r = (ws @ [(t, w)], bind_all by_id (window_list w))"
      unfolding wl by (auto simp: add_validated_window_def Let_def split Some update_fresh
          simp del: inj_on_insert split: option.splits if_splits)
    then show ?thesis unfolding un valid_window_def wc using fr sub by blast
  qed
qed

lemma fold_add_validated:
  assumes "bound by_id B"
  shows "fold_result add_validated_window (ws, by_id) ps = Inr r \<longleftrightarrow>
    distinct (dict_keys ps) \<and> fst ` set ps \<inter> fst ` set ws = {} \<and>
    (\<forall>(t, w) \<in> set ps. valid_window t w) \<and>
    inj_on job_id (B \<union> (\<Union>(t, w) \<in> set ps. window_candidates w)) \<and>
    r = (ws @ ps, bind_all by_id (concat (map (\<lambda>(t, w). window_list w) ps)))"
  using assms
proof (induction ps arbitrary: ws by_id B)
  case Nil
  then show ?case using bound_inj by auto
next
  case (Cons p ps)
  obtain t w where p: "p = (t, w)" by (cases p)
  have un: "B \<union> (\<Union>(t, w) \<in> set (p # ps). window_candidates w) =
      (B \<union> window_candidates w) \<union> (\<Union>(t, w) \<in> set ps. window_candidates w)" (is "?L = ?R")
    by (auto simp: p)
  let ?ok = "t \<notin> fst ` set ws \<and> valid_window t w \<and> inj_on job_id (B \<union> window_candidates w)"
  note a = add_validated_window_Inr [OF Cons.prems]
  have sub: "inj_on job_id (B \<union> window_candidates w)" if "inj_on job_id ?R"
    by (rule inj_on_subset [OF that]) auto
  show ?case
  proof (cases ?ok)
    case True
    then have s: "add_validated_window (ws, by_id) (t, w) =
        Inr (ws @ [(t, w)], bind_all by_id (window_list w))" by (simp add: a)
    have "bound (bind_all by_id (window_list w)) (B \<union> window_candidates w)"
      using bind_all_bound [OF Cons.prems, of "window_list w"] True by simp
    note IH = Cons.IH [OF this, of "ws @ [(t, w)]"]
    have k: "distinct (dict_keys (p # ps)) \<and> fst ` set (p # ps) \<inter> fst ` set ws = {} \<longleftrightarrow>
        distinct (dict_keys ps) \<and> fst ` set ps \<inter> fst ` set (ws @ [(t, w)]) = {}"
      using True by (auto simp: p)
    have b: "bind_all (bind_all by_id (window_list w)) cs = bind_all by_id (window_list w @ cs)" for cs
      by (simp add: bind_all_def)
    show ?thesis
      unfolding un p fold_result.simps s sum.case IH using k True b by (auto simp: p Un_assoc)
  next
    case False
    then have "add_validated_window (ws, by_id) (t, w) \<noteq> Inr x" for x unfolding a by blast
    then obtain e where e: "add_validated_window (ws, by_id) (t, w) = Inl e"
      by (cases "add_validated_window (ws, by_id) (t, w)") blast+
    show ?thesis unfolding un p fold_result.simps e sum.case using False sub by (auto simp: p Un_assoc)
  qed
qed

lemma valid_windows_alt:
  "valid_windows s \<longleftrightarrow> distinct (dict_keys (candidates_by_tenant s)) \<and>
     (\<forall>(t, w) \<in> set (candidates_by_tenant s). valid_window t w) \<and>
     inj_on job_id (\<Union>(t, w) \<in> set (candidates_by_tenant s). window_candidates w)"
  by (simp add: valid_windows_def valid_window_def)

lemma validate_windows_Inr:
  "validate_windows s = Inr ws \<longleftrightarrow> valid_windows s \<and> ws = candidates_by_tenant s"
proof -
  have "bound [] {}" by (simp add: bound_def)
  from fold_add_validated [OF this, of "[]" "candidates_by_tenant s"] show ?thesis
    by (auto simp: validate_windows_def res_bind_Inr_iff valid_windows_alt)
qed

subsection \<open>The decision of a valid snapshot\<close>

definition eligible_all :: "SchedulingSnapshot \<Rightarrow> int \<Rightarrow> (string, Candidate list) dict" where
  "eligible_all s now_ms = map (\<lambda>(t, w). (t, filter (eligible_candidate s now_ms t)
     (dict_values (unique_candidates w)))) (candidates_by_tenant s)"

definition eligible_normal :: "SchedulingSnapshot \<Rightarrow> int \<Rightarrow> (string, Candidate list) dict" where
  "eligible_normal s now_ms =
     map (\<lambda>(t, w). (t, filter (eligible_candidate s now_ms t) (normal w))) (candidates_by_tenant s)"

text \<open>The fairness order of the tenants: virtual score, weighted share, oldest ready sequence and
  tenant, over the accounting at \<open>now_ms\<close>.\<close>

definition fairness_key :: "SchedulingSnapshot \<Rightarrow> int \<Rightarrow> string \<Rightarrow> rat \<times> rat \<times> int \<times> string" where
  "fairness_key s now_ms t =
     (dec_val (virtual_score (dict_the (advanced_dict s now_ms) t)),
      dec_div (dominant_share (allocated_to s t) (allocatable_capacity s)) (dec_val (weight (limit_of s t))),
      min_list (map ready_sequence (dict_the (eligible_all s now_ms) t)),
      t)"

definition tenant_heap :: "SchedulingSnapshot \<Rightarrow> int \<Rightarrow> (rat \<times> rat \<times> int \<times> string) list" where
  "tenant_heap s now_ms = sort (map (\<lambda>p. fairness_key s now_ms (fst p))
     (filter (\<lambda>p. snd p \<noteq> []) (eligible_all s now_ms)))"

definition job_index :: "SchedulingSnapshot \<Rightarrow> (string, Candidate) dict" where
  "job_index s = dict_of (concat (map (\<lambda>(t, w). unique_candidates w) (candidates_by_tenant s)))"

definition held_sorted :: "SchedulingSnapshot \<Rightarrow> (string, ResourceCapacity) dict" where
  "held_sorted s = map (\<lambda>t. (t, allocated_to s t)) (sort (map ledger_tenant_id (tenant_ledgers s)))"

definition decision :: "SchedulingSnapshot \<Rightarrow> int \<Rightarrow> SchedulingDecision" where
  "decision s now_ms = (case active_reservation s of
     Some r \<Rightarrow> decide_reserved s now_ms (free_capacity s) (job_index s) (held_sorted s) (limit_dict s) r
   | None \<Rightarrow> (case pop_tenants s (free_capacity s) (candidates_by_tenant s) (eligible_all s now_ms)
         (eligible_normal s now_ms) (tenant_heap s now_ms) of
       Some d \<Rightarrow> d
     | None \<Rightarrow> NoDecision
         (if tenant_heap s now_ms \<noteq> [] then ''no_candidate_fits_free_resources''
          else ''no_eligible_candidate'')
         (continuation_cursors (candidates_by_tenant s))))"

lemma eligible_keys [simp]:
  "dict_keys (eligible_all s now_ms) = dict_keys (candidates_by_tenant s)"
  "dict_keys (eligible_normal s now_ms) = dict_keys (candidates_by_tenant s)"
  by (simp_all add: eligible_all_def eligible_normal_def comp_def case_prod_beta)

lemma held_sorted_keys [simp]: "dict_keys (held_sorted s) = sort (map ledger_tenant_id (tenant_ledgers s))"
  by (simp add: held_sorted_def comp_def)

lemma held_sorted_the:
  "t \<in> ledger_tenant_id ` set (tenant_ledgers s) \<Longrightarrow> dict_the (held_sorted s) t = allocated_to s t"
  unfolding held_sorted_def by (simp add: dict_the_sort_keys)

lemma held_sorted_total:
  assumes "wf_static s"
  shows "foldl add_resources zero_resources (dict_values (held_sorted s)) = allocated s"
proof -
  let ?ts = "sort (map ledger_tenant_id (tenant_ledgers s))"
  have p: "distinct ?ts" "\<And>a. a \<in> set (held_allocations s) \<Longrightarrow> alloc_tenant_id a \<in> set ?ts"
    using assms by (simp_all add: wf_static_def)
  show ?thesis
    unfolding held_sorted_def allocated_def allocated_to_def
    by (rule resource_eqI)
      (simp_all only: foldl_add_components map_map comp_def snd_conv zero_resources_simps add_0
        sum_list_partition [OF p, where g = "\<lambda>a. cpu_millis (alloc_resources a)"]
        sum_list_partition [OF p, where g = "\<lambda>a. memory_bytes (alloc_resources a)"]
        sum_list_partition [OF p, where g = "\<lambda>a. gpu_count (alloc_resources a)"])
qed

lemma dict_of_accounting:
  assumes "wf_snapshot s now_ms"
  shows "dict_of (map (\<lambda>l. (ledger_tenant_id l, l)) (acc_tenant_ledgers (accounting_result s now_ms))) =
      map (\<lambda>t. (t, dict_the (advanced_dict s now_ms) t)) (sort (map ledger_tenant_id (tenant_ledgers s)))"
    and "dict_of (held_resources_by_tenant (accounting_result s now_ms)) = held_sorted s"
    and "dict_of (dominant_shares (accounting_result s now_ms)) =
      map (\<lambda>t. (t, dominant_share (allocated_to s t) (allocatable_capacity s)))
        (sort (map ledger_tenant_id (tenant_ledgers s)))"
    and "dict_of (limit_dict s) = limit_dict s"
proof -
  let ?ts = "sort (map ledger_tenant_id (tenant_ledgers s))"
  have wf: "wf_static s" using assms by (simp add: wf_snapshot_static)
  note d = wf_static_distinct [OF wf]
  have "map (\<lambda>l. (ledger_tenant_id l, l)) (acc_tenant_ledgers (accounting_result s now_ms)) =
      map (\<lambda>t. (t, dict_the (advanced_dict s now_ms) t)) ?ts"
    using d(1) by (auto simp: accounting_result_def Let_def advanced_dict_the)
  then show "dict_of (map (\<lambda>l. (ledger_tenant_id l, l)) (acc_tenant_ledgers (accounting_result s now_ms))) =
      map (\<lambda>t. (t, dict_the (advanced_dict s now_ms) t)) ?ts"
    using d(1) by (simp add: dict_of_distinct comp_def)
  have "held_resources_by_tenant (accounting_result s now_ms) = held_sorted s"
    using d(1) by (auto simp: accounting_result_def Let_def held_sorted_def held_dict_the)
  then show "dict_of (held_resources_by_tenant (accounting_result s now_ms)) = held_sorted s"
    using d(1) by (simp add: dict_of_distinct)
  have "dominant_shares (accounting_result s now_ms) =
      map (\<lambda>t. (t, dominant_share (allocated_to s t) (allocatable_capacity s))) ?ts"
    using share_dict_the [OF wf] by (auto simp: accounting_result_def Let_def)
  then show "dict_of (dominant_shares (accounting_result s now_ms)) =
      map (\<lambda>t. (t, dominant_share (allocated_to s t) (allocatable_capacity s))) ?ts"
    using d(1) by (simp add: dict_of_distinct comp_def)
  show "dict_of (limit_dict s) = limit_dict s" using d(2) by (simp add: dict_of_distinct comp_def)
qed

lemma window_tenants_known:
  "wf_snapshot s now_ms \<Longrightarrow> (t, w) \<in> set (candidates_by_tenant s) \<Longrightarrow>
   t \<in> ledger_tenant_id ` set (tenant_ledgers s)"
  by (auto simp: wf_snapshot_def)

lemma decide_wf:
  assumes v: "valid_windows s" and wf: "wf_snapshot s now_ms"
  shows "decide s now_ms = Inr (decision s now_ms)"
proof -
  let ?ts = "sort (map ledger_tenant_id (tenant_ledgers s))"
  let ?el = "\<lambda>t. eligible_of now_ms (allocatable_capacity s) (dict_the (held_sorted s) t) (dict_the (limit_dict s) t)"
  let ?cs = "candidates_by_tenant s"
  have st: "wf_static s" using wf by (simp add: wf_snapshot_static)
  have known: "t \<in> ledger_tenant_id ` set (tenant_ledgers s)" if "(t, w) \<in> set ?cs" for t w
    using window_tenants_known [OF wf that] .
  have el: "?el t = filter (eligible_candidate s now_ms t)" if "(t, w) \<in> set ?cs" for t w
    unfolding eligible_of_def eligible_candidate_def held_sorted_the [OF known [OF that]] limit_of_def ..
  have a: "map (\<lambda>(t, w). (t, ?el t (dict_values (unique_candidates w)))) ?cs = eligible_all s now_ms"
    "map (\<lambda>(t, w). (t, ?el t (normal w))) ?cs = eligible_normal s now_ms"
    unfolding eligible_all_def eligible_normal_def using el by auto
  have key: "tenant_key (map (\<lambda>t. (t, dict_the (advanced_dict s now_ms) t)) ?ts)
      (map (\<lambda>t. (t, dominant_share (allocated_to s t) (allocatable_capacity s))) ?ts) (limit_dict s) t items =
      fairness_key s now_ms t" if "(t, items) \<in> set (eligible_all s now_ms)" for t items
  proof -
    have "t \<in> ledger_tenant_id ` set (tenant_ledgers s)"
      using that known by (auto simp: eligible_all_def)
    moreover have "dict_the (eligible_all s now_ms) t = items"
      using that v by (intro dict_the_mem) (simp_all add: valid_windows_alt)
    ultimately show ?thesis
      by (simp add: tenant_key_def fairness_key_def dict_the_sort_keys limit_of_def)
  qed
  have heap: "sort (map (\<lambda>(t, items). tenant_key (map (\<lambda>t. (t, dict_the (advanced_dict s now_ms) t)) ?ts)
      (map (\<lambda>t. (t, dominant_share (allocated_to s t) (allocatable_capacity s))) ?ts) (limit_dict s) t items)
      (filter (\<lambda>(t, items). items \<noteq> []) (eligible_all s now_ms))) = tenant_heap s now_ms"
    unfolding tenant_heap_def
    by (intro arg_cong [where f = sort] map_cong filter_cong) (auto simp: key)
  have lim: "\<not> list_ex (\<lambda>t. t \<notin> set (dict_keys (limit_dict s))) (dict_keys ?cs)"
    using wf by (auto simp: wf_snapshot_def list_ex_iff)
  have vw: "validate_windows s = Inr ?cs" using v by (simp add: validate_windows_Inr)
  show ?thesis
    unfolding decide_def vw advance_accounting_wf [OF wf] res_bind_simps Let_def dict_of_accounting [OF wf]
      held_sorted_total [OF st] free_capacity_def [symmetric] a heap job_index_def [symmetric] decision_def
    using lim by (simp split: option.splits)
qed

lemma decide_Inr:
  "decide s now_ms = Inr d \<longleftrightarrow> valid_windows s \<and> wf_snapshot s now_ms \<and> d = decision s now_ms"
proof
  assume d: "decide s now_ms = Inr d"
  then have "valid_windows s" "wf_snapshot s now_ms"
    by (auto simp: decide_def res_bind_Inr_iff validate_windows_Inr advance_accounting_Inr)
  with d decide_wf show "valid_windows s \<and> wf_snapshot s now_ms \<and> d = decision s now_ms" by simp
qed (simp add: decide_wf)

subsection \<open>What the pop loop returns\<close>

text \<open>The decision the loop body takes for one tenant, if any.\<close>

definition tenant_choice :: "SchedulingSnapshot \<Rightarrow> int \<Rightarrow> string \<Rightarrow> SchedulingDecision option" where
  "tenant_choice s now_ms t =
     pop_tenants s (free_capacity s) (candidates_by_tenant s) (eligible_all s now_ms)
       (eligible_normal s now_ms) [(0, 0, 0, t)]"

lemma pop_tenants_choice:
  "pop_tenants s (free_capacity s) (candidates_by_tenant s) (eligible_all s now_ms)
     (eligible_normal s now_ms) ((a, b, q, t) # heap) =
   (case tenant_choice s now_ms t of Some d \<Rightarrow> Some d
    | None \<Rightarrow> pop_tenants s (free_capacity s) (candidates_by_tenant s) (eligible_all s now_ms)
        (eligible_normal s now_ms) heap)"
  by (simp add: tenant_choice_def Let_def)

lemma pop_tenants_None:
  "pop_tenants s (free_capacity s) (candidates_by_tenant s) (eligible_all s now_ms)
     (eligible_normal s now_ms) heap = None \<longleftrightarrow>
   (\<forall>k \<in> set heap. tenant_choice s now_ms (snd (snd (snd k))) = None)"
proof (induction heap)
  case (Cons k heap)
  then show ?case
    by (cases k) (simp add: pop_tenants_choice split: option.splits del: pop_tenants.simps(2))
qed simp

lemma pop_tenants_Some:
  assumes "pop_tenants s (free_capacity s) (candidates_by_tenant s) (eligible_all s now_ms)
     (eligible_normal s now_ms) heap = Some d" "sorted heap"
  shows "\<exists>k \<in> set heap. tenant_choice s now_ms (snd (snd (snd k))) = Some d \<and>
    (\<forall>k' \<in> set heap. tenant_choice s now_ms (snd (snd (snd k'))) \<noteq> None \<longrightarrow> k \<le> k')"
  using assms
proof (induction heap)
  case (Cons k heap)
  obtain a b q t where k: "k = (a, b, q, t)" by (cases k) auto
  show ?case
  proof (cases "tenant_choice s now_ms t")
    case None
    then have "pop_tenants s (free_capacity s) (candidates_by_tenant s) (eligible_all s now_ms)
        (eligible_normal s now_ms) heap = Some d"
      using Cons.prems(1) k by (simp add: pop_tenants_choice del: pop_tenants.simps(2))
    from Cons.IH [OF this] Cons.prems(2) None k show ?thesis by auto
  next
    case (Some d')
    with Cons.prems k have "d' = d" by (simp add: pop_tenants_choice del: pop_tenants.simps(2))
    with Some Cons.prems(2) k show ?thesis by auto
  qed
qed simp

lemma window_the:
  "valid_windows s \<Longrightarrow> (t, w) \<in> set (candidates_by_tenant s) \<Longrightarrow> dict_the (candidates_by_tenant s) t = w"
  by (rule dict_the_mem) (simp_all add: valid_windows_alt)

lemma eligible_the:
  assumes "valid_windows s" "(t, w) \<in> set (candidates_by_tenant s)"
  shows "dict_the (eligible_all s now_ms) t =
      filter (eligible_candidate s now_ms t) (dict_values (unique_candidates w))"
    and "dict_the (eligible_normal s now_ms) t = filter (eligible_candidate s now_ms t) (normal w)"
proof -
  have d: "distinct (dict_keys (candidates_by_tenant s))" using assms(1) by (simp add: valid_windows_alt)
  have "(t, filter (eligible_candidate s now_ms t) (dict_values (unique_candidates w)))
      \<in> set (eligible_all s now_ms)"
    unfolding eligible_all_def set_map using assms(2) by (rule rev_image_eqI) simp
  then show "dict_the (eligible_all s now_ms) t =
      filter (eligible_candidate s now_ms t) (dict_values (unique_candidates w))"
    using d by (intro dict_the_mem) simp_all
  have "(t, filter (eligible_candidate s now_ms t) (normal w)) \<in> set (eligible_normal s now_ms)"
    unfolding eligible_normal_def set_map using assms(2) by (rule rev_image_eqI) simp
  then show "dict_the (eligible_normal s now_ms) t = filter (eligible_candidate s now_ms t) (normal w)"
    using d by (intro dict_the_mem) simp_all
qed

lemma unique_candidates_subset:
  "set (unique_candidates w) \<subseteq> (\<lambda>c. (job_id c, c)) ` window_candidates w"
proof -
  have "set (unique_candidates w) \<subseteq> set (map (\<lambda>c. (job_id c, c)) (window_list w))"
    unfolding unique_candidates_def window_list_def [symmetric] by (rule set_dict_of_subset)
  then show ?thesis by simp
qed

lemma set_unique_candidates:
  assumes "inj_on job_id (window_candidates w)"
  shows "snd ` set (unique_candidates w) = window_candidates w"
proof -
  note sub = unique_candidates_subset [of w]
  have "c \<in> snd ` set (unique_candidates w)" if c: "c \<in> window_candidates w" for c
  proof -
    have "job_id c \<in> fst ` set (unique_candidates w)"
      using c unfolding unique_candidates_def window_list_def [symmetric] by (simp add: image_image)
    then obtain d where d: "(job_id c, d) \<in> set (unique_candidates w)" by auto
    then have "d \<in> window_candidates w" "job_id d = job_id c" using sub by auto
    then have "d = c" using assms c by (meson inj_onD)
    with d show ?thesis by force
  qed
  with sub show ?thesis by auto
qed

lemma eligible_candidate_iff:
  "eligible_candidate s now_ms t c \<longleftrightarrow>
     cand_state c = Candidate_QUEUED \<and> retry_ready_at_ms c \<le> now_ms \<and>
     template_compatible c \<and> capabilities_compatible c \<and> policy_compatible c \<and>
     artifact_quota_available (limit_of s t) \<and>
     fits (resources c) (allocatable_capacity s) \<and>
     fits (add_resources (allocated_to s t) (resources c)) (resource_quota (limit_of s t)) \<and>
     tenant_active_attempts c < max_active_attempts (limit_of s t) \<and>
     user_active_attempts c < max_user_active_attempts (limit_of s t)"
  by (auto simp: eligible_candidate_def candidate_ineligibility_reason_def split: if_splits)

text \<open>The tenant's oldest candidate has waited long enough for a reservation.\<close>

definition overdue :: "SchedulingSnapshot \<Rightarrow> int \<Rightarrow> string \<Rightarrow> CandidateWindow \<Rightarrow> bool" where
  "overdue s now_ms t w \<longleftrightarrow> (\<exists>c. oldest_eligible w = Some c \<and> 120 \<le> eligible_wait_seconds c \<and>
     eligible_candidate s now_ms t c)"

text \<open>The normal candidates of a tenant that could start now.\<close>

definition startable :: "SchedulingSnapshot \<Rightarrow> int \<Rightarrow> string \<Rightarrow> CandidateWindow \<Rightarrow> Candidate list" where
  "startable s now_ms t w =
     filter (\<lambda>c. eligible_candidate s now_ms t c \<and> fits (resources c) (free_capacity s)) (normal w)"

lemma window_inj:
  "valid_windows s \<Longrightarrow> (t, w) \<in> set (candidates_by_tenant s) \<Longrightarrow> inj_on job_id (window_candidates w)"
  unfolding valid_windows_alt by (elim conjE, erule inj_on_subset) auto

lemma window_cand_tenant:
  "valid_windows s \<Longrightarrow> (t, w) \<in> set (candidates_by_tenant s) \<Longrightarrow> c \<in> window_candidates w \<Longrightarrow>
   cand_tenant_id c = t"
  by (auto simp: valid_windows_alt valid_window_def validate_candidate_def Let_def split: if_splits)

lemma eligible_all_set:
  assumes "valid_windows s" "(t, w) \<in> set (candidates_by_tenant s)"
  shows "set (dict_the (eligible_all s now_ms) t) = {c \<in> window_candidates w. eligible_candidate s now_ms t c}"
  by (simp add: eligible_the(1) [OF assms] set_unique_candidates [OF window_inj [OF assms]])

lemma tenant_choice_eq:
  assumes "valid_windows s" "(t, w) \<in> set (candidates_by_tenant s)"
  shows "tenant_choice s now_ms t =
    (if overdue s now_ms t w
     then Some (CreateReservation (job_id (the (oldest_eligible w))) t ''eligible_wait_threshold'')
     else if startable s now_ms t w = [] then None
     else let c = arg_min_list candidate_key (startable s now_ms t w)
          in Some (Dispatch (job_id c) (job_version c) (policy_version s) None))"
proof -
  have st: "filter (\<lambda>c. fits (resources c) (free_capacity s)) (dict_the (eligible_normal s now_ms) t) =
      startable s now_ms t w"
    by (simp add: eligible_the(2) [OF assms] startable_def conj_commute)
  have ov: "(case oldest_eligible w of None \<Rightarrow> False | Some c \<Rightarrow> 120 \<le> eligible_wait_seconds c \<and>
      list_ex (\<lambda>d. job_id d = job_id c) (dict_the (eligible_all s now_ms) t)) \<longleftrightarrow> overdue s now_ms t w"
  proof (cases "oldest_eligible w")
    case (Some c)
    then have c: "c \<in> window_candidates w" by (simp add: window_candidates_def)
    have "d = c" if "d \<in> window_candidates w" "job_id d = job_id c" for d
      using inj_onD [OF window_inj [OF assms] that(2) that(1) c] .
    then have "(\<exists>d. d \<in> window_candidates w \<and> eligible_candidate s now_ms t d \<and> job_id d = job_id c) \<longleftrightarrow>
        eligible_candidate s now_ms t c"
      using c by blast
    then show ?thesis
      using Some by (simp add: overdue_def list_ex_iff eligible_all_set [OF assms] Bex_def)
  qed (simp add: overdue_def)
  show ?thesis
    unfolding tenant_choice_def pop_tenants.simps window_the [OF assms] st ov Let_def by simp
qed

lemma tenant_heap_set:
  assumes "valid_windows s"
  shows "set (tenant_heap s now_ms) = {fairness_key s now_ms t | t w.
    (t, w) \<in> set (candidates_by_tenant s) \<and> (\<exists>c \<in> window_candidates w. eligible_candidate s now_ms t c)}"
    (is "?L = ?R")
proof -
  have ne: "filter (eligible_candidate s now_ms t) (dict_values (unique_candidates w)) \<noteq> [] \<longleftrightarrow>
      (\<exists>c \<in> window_candidates w. eligible_candidate s now_ms t c)"
    if "(t, w) \<in> set (candidates_by_tenant s)" for t w
    using eligible_all_set [OF assms that, of now_ms] unfolding eligible_the(1) [OF assms that]
    by (metis (mono_tags, lifting) empty_Collect_eq set_empty)
  show ?thesis
  proof
    show "?L \<subseteq> ?R" using ne by (auto simp: tenant_heap_def eligible_all_def) blast
    show "?R \<subseteq> ?L"
    proof
      fix k assume "k \<in> ?R"
      then obtain t w where t: "k = fairness_key s now_ms t" "(t, w) \<in> set (candidates_by_tenant s)"
        "\<exists>c \<in> window_candidates w. eligible_candidate s now_ms t c" by blast
      let ?p = "(t, filter (eligible_candidate s now_ms t) (dict_values (unique_candidates w)))"
      have "?p \<in> set (eligible_all s now_ms)"
        unfolding eligible_all_def set_map using t(2) by (rule rev_image_eqI) simp
      moreover have "snd ?p \<noteq> []" using ne [OF t(2)] t(3) by simp
      ultimately have "?p \<in> set (filter (\<lambda>p. snd p \<noteq> []) (eligible_all s now_ms))" by simp
      then show "k \<in> ?L"
        unfolding tenant_heap_def set_sort set_map by (rule rev_image_eqI) (simp add: t(1))
    qed
  qed
qed

lemma fairness_key_tenant [simp]: "snd (snd (snd (fairness_key s now_ms t))) = t"
  by (simp add: fairness_key_def)

lemma sorted_tenant_heap: "sorted (tenant_heap s now_ms)"
  by (simp add: tenant_heap_def)

lemma ball_tenant_heap:
  assumes "valid_windows s"
  shows "(\<forall>k \<in> set (tenant_heap s now_ms). P (snd (snd (snd k)))) \<longleftrightarrow>
    (\<forall>t w. (t, w) \<in> set (candidates_by_tenant s) \<longrightarrow>
       (\<exists>c \<in> window_candidates w. eligible_candidate s now_ms t c) \<longrightarrow> P t)" (is "?L \<longleftrightarrow> ?R")
proof
  assume l: ?L
  show ?R
  proof (intro allI impI)
    fix t w assume "(t, w) \<in> set (candidates_by_tenant s)"
      "\<exists>c \<in> window_candidates w. eligible_candidate s now_ms t c"
    then have "fairness_key s now_ms t \<in> set (tenant_heap s now_ms)"
      unfolding tenant_heap_set [OF assms] by blast
    from bspec [OF l this] show "P t" by simp
  qed
next
  assume r: ?R
  show ?L
  proof
    fix k assume "k \<in> set (tenant_heap s now_ms)"
    then obtain t w where "k = fairness_key s now_ms t" "(t, w) \<in> set (candidates_by_tenant s)"
      "\<exists>c \<in> window_candidates w. eligible_candidate s now_ms t c"
      unfolding tenant_heap_set [OF assms] by blast
    with r show "P (snd (snd (snd k)))" by simp
  qed
qed

lemma tenant_heap_Nil:
  assumes "valid_windows s"
  shows "tenant_heap s now_ms = [] \<longleftrightarrow> \<not> (\<exists>(t, w) \<in> set (candidates_by_tenant s).
    \<exists>c \<in> window_candidates w. eligible_candidate s now_ms t c)"
proof -
  have "tenant_heap s now_ms = [] \<longleftrightarrow> (\<forall>k \<in> set (tenant_heap s now_ms). False)"
    by (metis empty_iff last_in_set list.set(1))
  then show ?thesis unfolding ball_tenant_heap [OF assms, of now_ms "\<lambda>_. False"] by auto
qed

lemma startable_or_overdue:
  assumes "overdue s now_ms t w \<or> startable s now_ms t w \<noteq> []"
  shows "\<exists>c \<in> window_candidates w. eligible_candidate s now_ms t c"
  using assms
  by (cases "startable s now_ms t w")
    (auto simp: overdue_def window_candidates_def startable_def filter_eq_Cons_iff)

lemma tenant_choice_None:
  assumes "valid_windows s" "(t, w) \<in> set (candidates_by_tenant s)"
  shows "tenant_choice s now_ms t = None \<longleftrightarrow> \<not> overdue s now_ms t w \<and> startable s now_ms t w = []"
  by (simp add: tenant_choice_eq [OF assms] Let_def)

lemma tenant_choice_NoDecision:
  assumes "valid_windows s" "(t, w) \<in> set (candidates_by_tenant s)"
  shows "tenant_choice s now_ms t \<noteq> Some (NoDecision reason cursors)"
  by (simp add: tenant_choice_eq [OF assms] Let_def)

lemma free_fits:
  "fits (resources c) (free_capacity s) \<longleftrightarrow>
   fits (add_resources (allocated s) (resources c)) (allocatable_capacity s)"
  by (auto simp: fits_def free_capacity_def subtract_resources_def)

lemma job_index_mem:
  assumes "map_of (job_index s) j = Some c"
  obtains t w where "(t, w) \<in> set (candidates_by_tenant s)" "c \<in> window_candidates w" "job_id c = j"
proof -
  have "(j, c) \<in> set (job_index s)" using assms by (rule map_of_SomeD)
  then have "(j, c) \<in> set (concat (map (\<lambda>(t, w). unique_candidates w) (candidates_by_tenant s)))"
    unfolding job_index_def by (rule subsetD [OF set_dict_of_subset])
  then obtain t w where w: "(t, w) \<in> set (candidates_by_tenant s)" "(j, c) \<in> set (unique_candidates w)"
    by auto
  with unique_candidates_subset have "c \<in> window_candidates w" "job_id c = j" by auto
  with w(1) that show ?thesis by blast
qed

lemma job_index_Some:
  assumes "valid_windows s" "(t, w) \<in> set (candidates_by_tenant s)" "c \<in> window_candidates w"
  shows "map_of (job_index s) (job_id c) = Some c"
proof -
  have "job_id c \<in> fst ` set (unique_candidates w)"
    using assms(3) unfolding unique_candidates_def window_list_def [symmetric] by (simp add: image_image)
  then obtain b where "(job_id c, b) \<in> set (unique_candidates w)" by auto
  then have "(job_id c, b) \<in> set (concat (map (\<lambda>(t, w). unique_candidates w) (candidates_by_tenant s)))"
    using assms(2) by (simp, intro bexI [OF _ assms(2)]) simp
  then have "job_id c \<in> fst ` set (concat (map (\<lambda>(t, w). unique_candidates w) (candidates_by_tenant s)))"
    by (rule rev_image_eqI) simp
  then obtain d where d: "map_of (job_index s) (job_id c) = Some d"
    unfolding job_index_def by (metis fst_image_dict_of map_of_eq_None_iff not_None_eq)
  obtain t' w' where w': "(t', w') \<in> set (candidates_by_tenant s)" "d \<in> window_candidates w'" "job_id d = job_id c"
    using job_index_mem [OF d] by blast
  have "inj_on job_id (\<Union>(t, w) \<in> set (candidates_by_tenant s). window_candidates w)"
    using assms(1) by (simp add: valid_windows_alt)
  then have "d = c" by (rule inj_onD) (use w' assms in auto)
  with d show ?thesis by simp
qed

lemma arg_min_list_least:
  fixes f :: "'a \<Rightarrow> 'b :: linorder"
  shows "x \<in> set xs \<Longrightarrow> f (arg_min_list f xs) \<le> f x"
  by (subst f_arg_min_list_f) (auto intro: Min_le)

text \<open>A decision taken without a reservation comes from the least tenant that has one to take.\<close>

lemma decision_unreserved:
  assumes "valid_windows s" "active_reservation s = None" "decision s now_ms = d"
    and "\<And>r c. d \<noteq> NoDecision r c"
  obtains t w where "(t, w) \<in> set (candidates_by_tenant s)"
    "\<exists>c \<in> window_candidates w. eligible_candidate s now_ms t c"
    "tenant_choice s now_ms t = Some d"
    "\<And>t' w'. (t', w') \<in> set (candidates_by_tenant s) \<Longrightarrow>
      (\<exists>c \<in> window_candidates w'. eligible_candidate s now_ms t' c) \<Longrightarrow>
      tenant_choice s now_ms t' \<noteq> None \<Longrightarrow> fairness_key s now_ms t \<le> fairness_key s now_ms t'"
proof -
  have pop: "pop_tenants s (free_capacity s) (candidates_by_tenant s) (eligible_all s now_ms)
      (eligible_normal s now_ms) (tenant_heap s now_ms) = Some d"
    using assms(2,3) assms(4)
    by (cases "pop_tenants s (free_capacity s) (candidates_by_tenant s) (eligible_all s now_ms)
      (eligible_normal s now_ms) (tenant_heap s now_ms)") (simp add: decision_def, blast, simp add: decision_def)
  from pop_tenants_Some [OF pop sorted_tenant_heap] obtain k where k: "k \<in> set (tenant_heap s now_ms)"
    "tenant_choice s now_ms (snd (snd (snd k))) = Some d"
    "\<forall>k' \<in> set (tenant_heap s now_ms). tenant_choice s now_ms (snd (snd (snd k'))) \<noteq> None \<longrightarrow> k \<le> k'"
    by blast
  obtain t w where t: "k = fairness_key s now_ms t" "(t, w) \<in> set (candidates_by_tenant s)"
    "\<exists>c \<in> window_candidates w. eligible_candidate s now_ms t c"
    using k(1) unfolding tenant_heap_set [OF assms(1)] by blast
  show ?thesis
  proof (rule that [OF t(2,3)])
    show "tenant_choice s now_ms t = Some d" using k(2) by (simp add: t(1))
    fix t' w' assume *: "(t', w') \<in> set (candidates_by_tenant s)"
      "\<exists>c \<in> window_candidates w'. eligible_candidate s now_ms t' c" "tenant_choice s now_ms t' \<noteq> None"
    have "fairness_key s now_ms t' \<in> set (tenant_heap s now_ms)"
      unfolding tenant_heap_set [OF assms(1)] using *(1,2) by blast
    with k(3) *(3) show "fairness_key s now_ms t \<le> fairness_key s now_ms t'" by (simp add: t(1))
  qed
qed

lemma startable_eligible:
  "c \<in> set (startable s now_ms t w) \<Longrightarrow>
   c \<in> window_candidates w \<and> eligible_candidate s now_ms t c \<and> fits (resources c) (free_capacity s)"
  by (simp add: startable_def window_candidates_def)

lemma dispatch_unreserved:
  assumes "valid_windows s" "active_reservation s = None" "decision s now_ms = Dispatch j v pv rid"
  obtains t w c where "(t, w) \<in> set (candidates_by_tenant s)" "c \<in> set (startable s now_ms t w)"
    "c = arg_min_list candidate_key (startable s now_ms t w)" "\<not> overdue s now_ms t w"
    "j = job_id c" "v = job_version c" "pv = policy_version s" "rid = None"
    "\<And>t' w'. (t', w') \<in> set (candidates_by_tenant s) \<Longrightarrow> startable s now_ms t' w' \<noteq> [] \<or> overdue s now_ms t' w' \<Longrightarrow>
      fairness_key s now_ms t \<le> fairness_key s now_ms t'"
proof (rule decision_unreserved [OF assms])
  fix t w
  assume t: "(t, w) \<in> set (candidates_by_tenant s)"
    "tenant_choice s now_ms t = Some (Dispatch j v pv rid)"
    "\<And>t' w'. (t', w') \<in> set (candidates_by_tenant s) \<Longrightarrow>
      (\<exists>c \<in> window_candidates w'. eligible_candidate s now_ms t' c) \<Longrightarrow>
      tenant_choice s now_ms t' \<noteq> None \<Longrightarrow> fairness_key s now_ms t \<le> fairness_key s now_ms t'"
  note ch = t(2) [unfolded tenant_choice_eq [OF assms(1) t(1)] Let_def]
  have ne: "startable s now_ms t w \<noteq> []" "\<not> overdue s now_ms t w" using ch by (auto split: if_splits)
  have min: "fairness_key s now_ms t \<le> fairness_key s now_ms t'"
    if w': "(t', w') \<in> set (candidates_by_tenant s)" "startable s now_ms t' w' \<noteq> [] \<or> overdue s now_ms t' w'"
    for t' w'
  proof (rule t(3) [OF w'(1)])
    show "\<exists>c \<in> window_candidates w'. eligible_candidate s now_ms t' c"
      using w'(2) startable_eligible [of "hd (startable s now_ms t' w')" s now_ms t' w']
      by (cases "startable s now_ms t' w'") (auto simp: overdue_def window_candidates_def)
    show "tenant_choice s now_ms t' \<noteq> None"
      using w'(2) by (simp add: tenant_choice_eq [OF assms(1) w'(1)] Let_def)
  qed
  show ?thesis
    by (rule that [OF t(1) arg_min_list_in [OF ne(1)] refl ne(2) _ _ _ _ min]) (use ch ne in auto)
qed simp

lemma decide_reserved_Dispatch:
  assumes "valid_windows s" "wf_snapshot s now_ms"
  shows "decide_reserved s now_ms (free_capacity s) (job_index s) (held_sorted s) (limit_dict s) r =
      Dispatch j v pv rid \<longleftrightarrow>
    invalid_reason r = None \<and> res_policy_version r = policy_version s \<and> rid = Some (reservation_id r) \<and>
    pv = policy_version s \<and>
    (\<exists>c. map_of (job_index s) (res_job_id r) = Some c \<and> cand_tenant_id c = res_tenant_id r \<and>
       eligible_candidate s now_ms (res_tenant_id r) c \<and> fits (resources c) (free_capacity s) \<and>
       j = job_id c \<and> v = job_version c)"
proof (cases "map_of (job_index s) (res_job_id r)")
  case (Some c)
  obtain t w where w: "(t, w) \<in> set (candidates_by_tenant s)" "c \<in> window_candidates w"
    using job_index_mem [OF Some] by blast
  have "dict_the (held_sorted s) t = allocated_to s t"
    by (rule held_sorted_the [OF window_tenants_known [OF assms(2) w(1)]])
  then have e: "candidate_ineligibility_reason c now_ms (allocatable_capacity s)
      (dict_the (held_sorted s) t) (dict_the (limit_dict s) t) = None \<longleftrightarrow> eligible_candidate s now_ms t c"
    by (simp add: eligible_candidate_def limit_of_def)
  have "cand_tenant_id c = t" by (rule window_cand_tenant [OF assms(1) w])
  with e Some show ?thesis by (auto simp: decide_reserved_def split: option.splits)
qed (auto simp: decide_reserved_def split: option.splits)

text \<open>What the policy checked of the job it dispatches.\<close>

lemma dispatched_candidate:
  assumes "decide s now_ms = Inr (Dispatch j v pv rid)"
  shows "\<exists>t w c. (t, w) \<in> set (candidates_by_tenant s) \<and> c \<in> window_candidates w \<and>
    job_id c = j \<and> job_version c = v \<and> pv = policy_version s \<and> cand_tenant_id c = t \<and>
    cand_state c = Candidate_QUEUED \<and> retry_ready_at_ms c \<le> now_ms \<and>
    template_compatible c \<and> capabilities_compatible c \<and> policy_compatible c \<and>
    artifact_quota_available (limit_of s t) \<and>
    fits (add_resources (allocated s) (resources c)) (allocatable_capacity s) \<and>
    fits (add_resources (allocated_to s t) (resources c)) (resource_quota (limit_of s t)) \<and>
    tenant_active_attempts c < max_active_attempts (limit_of s t) \<and>
    user_active_attempts c < max_user_active_attempts (limit_of s t)"
proof -
  have d: "valid_windows s" "wf_snapshot s now_ms" "decision s now_ms = Dispatch j v pv rid"
    using assms by (simp_all add: decide_Inr)
  have "\<exists>t w c. (t, w) \<in> set (candidates_by_tenant s) \<and> c \<in> window_candidates w \<and> job_id c = j \<and>
    job_version c = v \<and> pv = policy_version s \<and> eligible_candidate s now_ms t c \<and>
    fits (resources c) (free_capacity s)"
  proof (cases "active_reservation s")
    case None
    show ?thesis
      by (rule dispatch_unreserved [OF d(1) None d(3)]) (use startable_eligible in blast)
  next
    case (Some r)
    then obtain c where c: "map_of (job_index s) (res_job_id r) = Some c"
      "cand_tenant_id c = res_tenant_id r" "eligible_candidate s now_ms (res_tenant_id r) c"
      "fits (resources c) (free_capacity s)" "j = job_id c" "v = job_version c" "pv = policy_version s"
      using d(3) by (auto simp: decision_def decide_reserved_Dispatch [OF d(1,2)])
    obtain t w where w: "(t, w) \<in> set (candidates_by_tenant s)" "c \<in> window_candidates w"
      using job_index_mem [OF c(1)] by blast
    have "t = res_tenant_id r" using window_cand_tenant [OF d(1) w] c(2) by simp
    with w c show ?thesis by blast
  qed
  then obtain t w c where c: "(t, w) \<in> set (candidates_by_tenant s)" "c \<in> window_candidates w"
    "job_id c = j" "job_version c = v" "pv = policy_version s" "eligible_candidate s now_ms t c"
    "fits (resources c) (free_capacity s)" by blast
  have "cand_tenant_id c = t" by (rule window_cand_tenant [OF d(1) c(1,2)])
  with c show ?thesis unfolding eligible_candidate_iff free_fits by blast
qed

subsection \<open>Properties of the decision\<close>

text \<open>C28: a job the policy dispatches is one a candidate window offers, at the version the window
  saw and under the current policy version; it is queued, its retry time has come, it is compatible
  in every respect, and starting it keeps all held allocations within the allocatable capacity, its
  tenant within the tenant's quota, and tenant and user below their concurrency limits.\<close>

theorem decide_dispatch_safe:
  assumes "decide s now_ms = Inr (Dispatch j v pv rid)"
  shows "\<exists>t w c. (t, w) \<in> set (candidates_by_tenant s) \<and> c \<in> window_candidates w \<and>
    job_id c = j \<and> job_version c = v \<and> pv = policy_version s \<and> cand_tenant_id c = t \<and>
    cand_state c = Candidate_QUEUED \<and> retry_ready_at_ms c \<le> now_ms \<and>
    template_compatible c \<and> capabilities_compatible c \<and> policy_compatible c \<and>
    artifact_quota_available (limit_of s t) \<and>
    fits (add_resources (allocated s) (resources c)) (allocatable_capacity s) \<and>
    fits (add_resources (allocated_to s t) (resources c)) (resource_quota (limit_of s t)) \<and>
    tenant_active_attempts c < max_active_attempts (limit_of s t) \<and>
    user_active_attempts c < max_user_active_attempts (limit_of s t)"
  by (rule dispatched_candidate [OF assms])

text \<open>C29: without an active reservation the dispatched job belongs to a tenant that comes first in
  the fairness order among all tenants with a job that could start or with an overdue oldest job, and
  within that tenant it comes first by effective priority, ready sequence and job among the normal
  candidates that could start.\<close>

theorem decide_dispatch_fair:
  assumes "decide s now_ms = Inr (Dispatch j v pv rid)" "active_reservation s = None"
  shows "\<exists>t w c. (t, w) \<in> set (candidates_by_tenant s) \<and> c \<in> set (startable s now_ms t w) \<and> job_id c = j \<and>
    (\<forall>c' \<in> set (startable s now_ms t w). candidate_key c \<le> candidate_key c') \<and>
    (\<forall>(t', w') \<in> set (candidates_by_tenant s). startable s now_ms t' w' \<noteq> [] \<or> overdue s now_ms t' w' \<longrightarrow>
       fairness_key s now_ms t \<le> fairness_key s now_ms t')"
proof -
  have d: "valid_windows s" "decision s now_ms = Dispatch j v pv rid"
    using assms(1) by (simp_all add: decide_Inr)
  show ?thesis
  proof (rule dispatch_unreserved [OF d(1) assms(2) d(2)])
    fix t w c
    assume w: "(t, w) \<in> set (candidates_by_tenant s)" "c \<in> set (startable s now_ms t w)" "j = job_id c"
      and c: "c = arg_min_list candidate_key (startable s now_ms t w)"
      and m: "\<And>t' w'. (t', w') \<in> set (candidates_by_tenant s) \<Longrightarrow>
        startable s now_ms t' w' \<noteq> [] \<or> overdue s now_ms t' w' \<Longrightarrow>
        fairness_key s now_ms t \<le> fairness_key s now_ms t'"
    have "\<forall>c' \<in> set (startable s now_ms t w). candidate_key c \<le> candidate_key c'"
      unfolding c by (blast intro: arg_min_list_least)
    with w m show ?thesis by blast
  qed
qed

text \<open>C30: the policy leaves the node idle exactly when it has to.  It answers that there is no
  decision if and only if the snapshot is valid, no reservation is active, no tenant has an overdue
  oldest job, and no normal candidate of any tenant could start; the reason tells whether any
  candidate was eligible at all.\<close>

theorem decide_work_conserving:
  "decide s now_ms = Inr (NoDecision reason cursors) \<longleftrightarrow>
     valid_windows s \<and> wf_snapshot s now_ms \<and> active_reservation s = None \<and>
     (\<forall>(t, w) \<in> set (candidates_by_tenant s). \<not> overdue s now_ms t w \<and> startable s now_ms t w = []) \<and>
     reason = (if \<exists>(t, w) \<in> set (candidates_by_tenant s). \<exists>c \<in> window_candidates w. eligible_candidate s now_ms t c
       then ''no_candidate_fits_free_resources'' else ''no_eligible_candidate'') \<and>
     cursors = continuation_cursors (candidates_by_tenant s)"
proof (cases "valid_windows s \<and> wf_snapshot s now_ms \<and> active_reservation s = None")
  case True
  let ?heap = "tenant_heap s now_ms"
  let ?pop = "pop_tenants s (free_capacity s) (candidates_by_tenant s) (eligible_all s now_ms)
    (eligible_normal s now_ms) ?heap"
  have v: "valid_windows s" using True by simp
  have "?pop = None \<longleftrightarrow> (\<forall>t w. (t, w) \<in> set (candidates_by_tenant s) \<longrightarrow>
      (\<exists>c \<in> window_candidates w. eligible_candidate s now_ms t c) \<longrightarrow> tenant_choice s now_ms t = None)"
    unfolding pop_tenants_None by (rule ball_tenant_heap [OF v])
  then have none: "?pop = None \<longleftrightarrow>
      (\<forall>(t, w) \<in> set (candidates_by_tenant s). \<not> overdue s now_ms t w \<and> startable s now_ms t w = [])"
    using tenant_choice_None [OF v] startable_or_overdue by blast
  have no: "?pop \<noteq> Some (NoDecision reason cursors)"
  proof
    assume "?pop = Some (NoDecision reason cursors)"
    then obtain k where "k \<in> set ?heap" "tenant_choice s now_ms (snd (snd (snd k))) = Some (NoDecision reason cursors)"
      using pop_tenants_Some [of s now_ms ?heap] sorted_tenant_heap by blast
    moreover have "\<forall>k \<in> set ?heap. tenant_choice s now_ms (snd (snd (snd k))) \<noteq> Some (NoDecision reason cursors)"
      using ball_tenant_heap [OF v, of now_ms "\<lambda>t. tenant_choice s now_ms t \<noteq> Some (NoDecision reason cursors)"]
        tenant_choice_NoDecision [OF v] by blast
    ultimately show False by blast
  qed
  show ?thesis
  proof (cases ?pop)
    case None
    then have "decision s now_ms = NoDecision (if \<exists>(t, w) \<in> set (candidates_by_tenant s).
          \<exists>c \<in> window_candidates w. eligible_candidate s now_ms t c
        then ''no_candidate_fits_free_resources'' else ''no_eligible_candidate'')
        (continuation_cursors (candidates_by_tenant s))"
      using True by (simp add: decision_def tenant_heap_Nil [OF v])
    with None none True show ?thesis unfolding decide_Inr by auto
  next
    case (Some d)
    then have "decision s now_ms = d" using True by (simp add: decision_def)
    with no Some none True show ?thesis unfolding decide_Inr by auto
  qed
next
  case False
  have "decide_reserved s now_ms (free_capacity s) (job_index s) (held_sorted s) (limit_dict s) r \<noteq>
      NoDecision reason cursors" for r
    by (simp add: decide_reserved_def split: option.splits)
  then have "decision s now_ms \<noteq> NoDecision reason cursors" if "active_reservation s \<noteq> None"
    using that by (auto simp: decision_def)
  with False show ?thesis unfolding decide_Inr by metis
qed

text \<open>A reservation can still be honoured: nothing invalidates it, the policy version is the one it
  was made under, and its tenant's window still offers its job, eligible.\<close>

definition honourable :: "SchedulingSnapshot \<Rightarrow> int \<Rightarrow> ReservationSnapshot \<Rightarrow> Candidate \<Rightarrow> bool" where
  "honourable s now_ms r c \<longleftrightarrow> invalid_reason r = None \<and> res_policy_version r = policy_version s \<and>
     (\<exists>w. (res_tenant_id r, w) \<in> set (candidates_by_tenant s) \<and> c \<in> window_candidates w) \<and>
     job_id c = res_job_id r \<and> eligible_candidate s now_ms (res_tenant_id r) c"

text \<open>C31: while a reservation is active no other job is started.  The decision dispatches the
  reserved job if it can be honoured and its request fits what is free, drains the node for it if the
  request does not fit yet, and otherwise gives the reservation up.\<close>

theorem decide_reservation_exclusive:
  assumes "decide s now_ms = Inr d" "active_reservation s = Some r"
  shows "(\<exists>c. honourable s now_ms r c \<and>
      d = (if fits (add_resources (allocated s) (resources c)) (allocatable_capacity s)
           then Dispatch (res_job_id r) (job_version c) (policy_version s) (Some (reservation_id r))
           else DrainForReservation (reservation_id r) (res_job_id r))) \<or>
    (\<nexists>c. honourable s now_ms r c) \<and> (\<exists>reason. d = InvalidateReservation (reservation_id r) reason)"
proof -
  have v: "valid_windows s" "wf_snapshot s now_ms"
    and d: "d = decide_reserved s now_ms (free_capacity s) (job_index s) (held_sorted s) (limit_dict s) r"
    using assms by (auto simp: decide_Inr decision_def)
  show ?thesis
  proof (cases "\<exists>c. honourable s now_ms r c")
    case True
    then obtain c w where c: "honourable s now_ms r c" "(res_tenant_id r, w) \<in> set (candidates_by_tenant s)"
      "c \<in> window_candidates w" by (auto simp: honourable_def)
    have "map_of (job_index s) (res_job_id r) = Some c"
      using job_index_Some [OF v(1) c(2,3)] c(1) by (simp add: honourable_def)
    moreover have "dict_the (held_sorted s) (res_tenant_id r) = allocated_to s (res_tenant_id r)"
      by (rule held_sorted_the [OF window_tenants_known [OF v(2) c(2)]])
    ultimately have "d = (if fits (resources c) (free_capacity s)
           then Dispatch (res_job_id r) (job_version c) (policy_version s) (Some (reservation_id r))
           else DrainForReservation (reservation_id r) (res_job_id r))"
      using c(1) window_cand_tenant [OF v(1) c(2,3)]
      by (simp add: d decide_reserved_def honourable_def eligible_candidate_def limit_of_def)
    with c(1) show ?thesis unfolding free_fits by blast
  next
    case False
    have "\<exists>reason. d = InvalidateReservation (reservation_id r) reason"
    proof (cases "map_of (job_index s) (res_job_id r)")
      case (Some c)
      obtain t w where w: "(t, w) \<in> set (candidates_by_tenant s)" "c \<in> window_candidates w" "job_id c = res_job_id r"
        using job_index_mem [OF Some] by blast
      have t: "cand_tenant_id c = t" by (rule window_cand_tenant [OF v(1) w(1,2)])
      have "dict_the (held_sorted s) t = allocated_to s t"
        by (rule held_sorted_the [OF window_tenants_known [OF v(2) w(1)]])
      moreover have "\<not> honourable s now_ms r c" using False by blast
      ultimately show ?thesis using Some t w
        by (auto simp: d decide_reserved_def honourable_def eligible_candidate_def limit_of_def
            split: option.splits)
    qed (simp add: d decide_reserved_def split: option.splits)
    with False show ?thesis by blast
  qed
qed

text \<open>C32: a reservation is only made, while none is active, for the oldest job of a tenant that has
  waited two minutes and is eligible, and the tenant comes first in the fairness order among those
  with a job that could start or is overdue.\<close>

theorem decide_create_reservation:
  assumes "decide s now_ms = Inr (CreateReservation j t reason)"
  shows "active_reservation s = None \<and> reason = ''eligible_wait_threshold'' \<and>
    (\<exists>w c. (t, w) \<in> set (candidates_by_tenant s) \<and> oldest_eligible w = Some c \<and> job_id c = j \<and>
       120 \<le> eligible_wait_seconds c \<and> eligible_candidate s now_ms t c) \<and>
    (\<forall>(t', w') \<in> set (candidates_by_tenant s). startable s now_ms t' w' \<noteq> [] \<or> overdue s now_ms t' w' \<longrightarrow>
       fairness_key s now_ms t \<le> fairness_key s now_ms t')"
proof -
  have d: "valid_windows s" "decision s now_ms = CreateReservation j t reason"
    using assms by (simp_all add: decide_Inr)
  have "decide_reserved s now_ms (free_capacity s) (job_index s) (held_sorted s) (limit_dict s) r \<noteq>
      CreateReservation j t reason" for r
    by (simp add: decide_reserved_def split: option.splits)
  then have n: "active_reservation s = None"
    using d(2) by (cases "active_reservation s") (auto simp: decision_def)
  show ?thesis
  proof (rule decision_unreserved [OF d(1) n d(2)])
    fix t1 w
    assume w: "(t1, w) \<in> set (candidates_by_tenant s)"
      and ch: "tenant_choice s now_ms t1 = Some (CreateReservation j t reason)"
      and m: "\<And>t' w'. (t', w') \<in> set (candidates_by_tenant s) \<Longrightarrow>
        (\<exists>c \<in> window_candidates w'. eligible_candidate s now_ms t' c) \<Longrightarrow>
        tenant_choice s now_ms t' \<noteq> None \<Longrightarrow> fairness_key s now_ms t1 \<le> fairness_key s now_ms t'"
    have c: "overdue s now_ms t1 w" "t = t1" "j = job_id (the (oldest_eligible w))"
      "reason = ''eligible_wait_threshold''"
      using ch unfolding tenant_choice_eq [OF d(1) w] Let_def by (auto split: if_splits)
    have "fairness_key s now_ms t \<le> fairness_key s now_ms t'"
      if "(t', w') \<in> set (candidates_by_tenant s)" "startable s now_ms t' w' \<noteq> [] \<or> overdue s now_ms t' w'"
      for t' w'
      using m [OF that(1)] that(2) startable_or_overdue tenant_choice_None [OF d(1) that(1)] c(2) by blast
    with n c w show ?thesis by (auto simp: overdue_def)
  qed simp
qed

text \<open>C33: the policy decides exactly the snapshots that are well formed at the given time; every
  other one is rejected with an error.\<close>

theorem decide_accepts:
  "(\<exists>d. decide s now_ms = Inr d) \<longleftrightarrow> valid_windows s \<and> wf_snapshot s now_ms"
  by (simp add: decide_Inr)


subsection \<open>Concrete snapshots\<close>

definition ex_candidate :: "string \<Rightarrow> int \<Rightarrow> int \<Rightarrow> Candidate" where
  "ex_candidate j cpu wait = \<lparr>job_id = j, cand_tenant_id = ''t'', user_id = ''u'', job_version = 1,
     ready_sequence = 1, resources = \<lparr>cpu_millis = cpu, memory_bytes = 1, gpu_count = 0\<rparr>, base_priority = 1,
     eligible_wait_seconds = wait, retry_ready_at_ms = 0, template_version = 1, required_capabilities = {},
     tenant_active_attempts = 0, user_active_attempts = 0, cand_state = Candidate_QUEUED,
     template_compatible = True, capabilities_compatible = True, policy_compatible = True\<rparr>"

definition ex_snapshot ::
  "HeldAllocation list \<Rightarrow> CandidateWindow \<Rightarrow> ReservationSnapshot option \<Rightarrow> SchedulingSnapshot" where
  "ex_snapshot held w r = \<lparr>policy_version = 1,
     allocatable_capacity = \<lparr>cpu_millis = 4, memory_bytes = 8, gpu_count = 0\<rparr>,
     held_allocations = held,
     tenant_ledgers = [\<lparr>ledger_tenant_id = ''t'', virtual_score = Finite 0, accounted_through_ms = 0,
       had_eligible_demand = True\<rparr>],
     tenant_limits = [\<lparr>limit_tenant_id = ''t'', weight = Finite 1,
       resource_quota = \<lparr>cpu_millis = 4, memory_bytes = 8, gpu_count = 1\<rparr>,
       max_active_attempts = 4, max_user_active_attempts = 2, artifact_quota_available = True\<rparr>],
     candidates_by_tenant = [(''t'', w)], active_reservation = r, virtual_floor = Finite 0\<rparr>"

definition ex_dispatch :: SchedulingSnapshot where
  "ex_dispatch = ex_snapshot [] \<lparr>normal = [ex_candidate ''j'' 1 5], oldest_eligible = None,
     continuation_cursor = None\<rparr> None"

definition ex_idle :: SchedulingSnapshot where
  "ex_idle = ex_snapshot [] \<lparr>normal = [ex_candidate ''j'' 9 5], oldest_eligible = None,
     continuation_cursor = None\<rparr> None"

definition ex_overdue :: SchedulingSnapshot where
  "ex_overdue = ex_snapshot [] \<lparr>normal = [], oldest_eligible = Some (ex_candidate ''j'' 1 120),
     continuation_cursor = None\<rparr> None"

definition ex_reserved :: SchedulingSnapshot where
  "ex_reserved = ex_snapshot [] \<lparr>normal = [], oldest_eligible = Some (ex_candidate ''j'' 1 120),
     continuation_cursor = None\<rparr> (Some \<lparr>reservation_id = ''r'', res_job_id = ''j'', res_tenant_id = ''t'',
     res_policy_version = 1, invalid_reason = None\<rparr>)"

definition ex_offered :: Candidate where
  "ex_offered = \<lparr>job_id = ''j'', cand_tenant_id = ''t'', user_id = ''u'', job_version = 1, ready_sequence = 1,
     resources = \<lparr>cpu_millis = 1, memory_bytes = 1, gpu_count = 0\<rparr>, base_priority = 1, eligible_wait_seconds = 0,
     retry_ready_at_ms = 0, template_version = 1, required_capabilities = {}, tenant_active_attempts = 0,
     user_active_attempts = 0, cand_state = Candidate_QUEUED, template_compatible = True, capabilities_compatible = True,
     policy_compatible = True\<rparr>"

definition ex_offer :: "bool \<Rightarrow> SchedulingSnapshot" where
  "ex_offer demand = \<lparr>policy_version = 1, allocatable_capacity = \<lparr>cpu_millis = 1, memory_bytes = 1, gpu_count = 0\<rparr>,
     held_allocations = [],
     tenant_ledgers = [\<lparr>ledger_tenant_id = ''t'', virtual_score = Finite 0, accounted_through_ms = 0, had_eligible_demand = demand\<rparr>],
     tenant_limits = [\<lparr>limit_tenant_id = ''t'', weight = Finite 1,
       resource_quota = \<lparr>cpu_millis = 4, memory_bytes = 8, gpu_count = 1\<rparr>, max_active_attempts = 2, max_user_active_attempts = 2,
       artifact_quota_available = True\<rparr>],
     candidates_by_tenant = [(''t'', \<lparr>normal = [ex_offered], oldest_eligible = Some ex_offered,
       continuation_cursor = Some ''1:1:j''\<rparr>)],
     active_reservation = None, virtual_floor = Finite 0\<rparr>"

lemma ex_dispatch_decision: "decide ex_dispatch 0 = Inr (Dispatch ''j'' 1 1 None)"
  by code_simp

lemma ex_offer_accounting:
  "advance_accounting (ex_offer False) 0 = Inr \<lparr>acc_tenant_ledgers = tenant_ledgers (ex_offer True), acc_virtual_floor = Finite 0,
     held_resources_by_tenant = [(''t'', zero_resources)], dominant_shares = [(''t'', 0)], eligible_tenant_ids = [''t'']\<rparr>"
  by code_simp

lemma ex_offer_decision: "decide (ex_offer True) 0 = Inr (Dispatch ''j'' 1 1 None)"
  by code_simp

lemma ex_idle_decision: "decide ex_idle 0 = Inr (NoDecision ''no_eligible_candidate'' [])"
  by code_simp

lemma ex_overdue_decision:
  "decide ex_overdue 0 = Inr (CreateReservation ''j'' ''t'' ''eligible_wait_threshold'')"
  by code_simp

lemma ex_reserved_decision: "decide ex_reserved 0 = Inr (Dispatch ''j'' 1 1 (Some ''r''))"
  by code_simp

theorem decide_dispatch_safe_witness:
  "decide ex_dispatch 0 = Inr (Dispatch ''j'' 1 1 None) \<and>
   (\<exists>t w c. (t, w) \<in> set (candidates_by_tenant ex_dispatch) \<and> c \<in> window_candidates w \<and> job_id c = ''j'' \<and>
     fits (add_resources (allocated ex_dispatch) (resources c)) (allocatable_capacity ex_dispatch))"
  using ex_dispatch_decision decide_dispatch_safe [OF ex_dispatch_decision] by blast

theorem decide_dispatch_fair_witness:
  "decide ex_dispatch 0 = Inr (Dispatch ''j'' 1 1 None) \<and> active_reservation ex_dispatch = None \<and>
   (\<exists>t w c. (t, w) \<in> set (candidates_by_tenant ex_dispatch) \<and> c \<in> set (startable ex_dispatch 0 t w) \<and>
     job_id c = ''j'')"
proof -
  have "active_reservation ex_dispatch = None" by (simp add: ex_dispatch_def ex_snapshot_def)
  with ex_dispatch_decision decide_dispatch_fair [OF ex_dispatch_decision this] show ?thesis by blast
qed

theorem decide_work_conserving_witness:
  "decide ex_idle 0 = Inr (NoDecision ''no_eligible_candidate'' []) \<and> valid_windows ex_idle \<and>
   wf_snapshot ex_idle 0 \<and> continuation_cursors (candidates_by_tenant ex_idle) = []"
  using ex_idle_decision iffD1 [OF decide_work_conserving ex_idle_decision] by simp

theorem decide_reservation_exclusive_witness:
  "decide ex_reserved 0 = Inr (Dispatch ''j'' 1 1 (Some ''r'')) \<and>
   (\<exists>r c. active_reservation ex_reserved = Some r \<and> honourable ex_reserved 0 r c \<and> job_version c = 1)"
proof -
  obtain r where r: "active_reservation ex_reserved = Some r" by (simp add: ex_reserved_def ex_snapshot_def)
  show ?thesis
    using ex_reserved_decision decide_reservation_exclusive [OF ex_reserved_decision r] r
    by (auto split: if_splits)
qed

theorem decide_create_reservation_witness:
  "decide ex_overdue 0 = Inr (CreateReservation ''j'' ''t'' ''eligible_wait_threshold'') \<and>
   (\<exists>w c. (''t'', w) \<in> set (candidates_by_tenant ex_overdue) \<and> oldest_eligible w = Some c \<and>
     120 \<le> eligible_wait_seconds c)"
  using ex_overdue_decision decide_create_reservation [OF ex_overdue_decision] by blast

end
