(* ===== verification/Leadership.thy ===== *)
theory Leadership
  imports Job_Recovery
begin

section \<open>Coordinator leadership\<close>

text \<open>
  The leadership row of \<^verbatim>\<open>src/src/nexa/coordinator/service.py\<close>: acquiring it, the check every coordinator
  transaction makes, and renewing it.  The epoch is the fencing token of the leaders.
\<close>

record leadership_row =
  ld_holder_id :: "uuid option"
  ld_epoch :: int
  ld_lease_expires_at :: "timestamp option"
  ld_renewed_at :: "timestamp option"

definition leadership_lease :: timestamp where
  "leadership_lease = seconds 15"

definition lease_live :: "leadership_row \<Rightarrow> timestamp \<Rightarrow> bool" where
  "lease_live r now = (case ld_lease_expires_at r of None \<Rightarrow> False | Some e \<Rightarrow> e > now)"

definition acquire :: "uuid \<Rightarrow> timestamp \<Rightarrow> leadership_row option \<Rightarrow> int option \<times> leadership_row option" where
  "acquire holder_id now row =
     (let r = (case row of None \<Rightarrow> \<lparr>ld_holder_id = None, ld_epoch = 0, ld_lease_expires_at = None, ld_renewed_at = None\<rparr>
               | Some r \<Rightarrow> r) in
      if lease_live r now then (if ld_holder_id r = Some holder_id then Some (ld_epoch r) else None, Some r)
      else (Some (ld_epoch r + 1), Some \<lparr>ld_holder_id = Some holder_id, ld_epoch = ld_epoch r + 1,
        ld_lease_expires_at = Some (now + leadership_lease), ld_renewed_at = Some now\<rparr>))"

definition leadership_lost :: tx_error where
  "leadership_lost = RuntimeError ''coordinator leadership is no longer live''"

definition leader :: "uuid \<Rightarrow> int \<Rightarrow> timestamp \<Rightarrow> leadership_row option \<Rightarrow> timestamp tx" where
  "leader holder_id epoch now row = (case row of None \<Rightarrow> Inl leadership_lost
     | Some r \<Rightarrow>
        if ld_holder_id r \<noteq> Some holder_id \<or> ld_epoch r \<noteq> epoch then Inl leadership_lost
        else case ld_lease_expires_at r of None \<Rightarrow> Inl (TypeError ''NoneType'')
          | Some e \<Rightarrow> if e \<le> now then Inl leadership_lost else Inr now)"

definition renew :: "uuid \<Rightarrow> int \<Rightarrow> timestamp \<Rightarrow> leadership_row option \<Rightarrow> bool \<times> leadership_row option" where
  "renew holder_id epoch now row = (case leader holder_id epoch now row of Inl _ \<Rightarrow> (False, row)
     | Inr now \<Rightarrow> (True, map_option (\<lambda>r. r\<lparr>ld_renewed_at := Some now,
         ld_lease_expires_at := Some (now + leadership_lease)\<rparr>) row))"

subsection \<open>Runs of competing coordinators\<close>

text \<open>Any number of coordinators acquire and renew; the database clock does not go back.\<close>

datatype lead_op = Acquire uuid timestamp | Renew uuid int timestamp

type_synonym lead_state = "leadership_row option \<times> timestamp"

fun lead_step :: "lead_state \<Rightarrow> lead_op \<Rightarrow> lead_state option" where
  "lead_step (row, t) (Acquire h now) = (if now < t then None else Some (snd (acquire h now row), now))"
| "lead_step (row, t) (Renew h e now) = (if now < t then None else Some (snd (renew h e now row), now))"

definition lead_inv :: "lead_state \<Rightarrow> bool" where
  "lead_inv s = (case s of (None, t) \<Rightarrow> True
     | (Some r, t) \<Rightarrow> (ld_holder_id r = None \<longleftrightarrow> ld_lease_expires_at r = None) \<and> 0 \<le> ld_epoch r \<and>
         pred_option (\<lambda>e. e \<le> t + leadership_lease) (ld_lease_expires_at r))"

definition lease_extends :: "timestamp option \<Rightarrow> timestamp option \<Rightarrow> bool" where
  "lease_extends a b = (case (a, b) of (None, _) \<Rightarrow> True | (Some x, Some y) \<Rightarrow> x \<le> y | (Some x, None) \<Rightarrow> False)"

text \<open>Between two states of a run either the same holder keeps the same epoch and its lease only
  grew, or the epoch grew and the old lease has run out.\<close>

definition lead_rel :: "lead_state \<Rightarrow> lead_state \<Rightarrow> bool" where
  "lead_rel s s' \<longleftrightarrow> snd s \<le> snd s' \<and> (\<forall>r. fst s = Some r \<longrightarrow> (\<exists>r'. fst s' = Some r' \<and>
     (ld_holder_id r' = ld_holder_id r \<and> ld_epoch r' = ld_epoch r \<and>
        lease_extends (ld_lease_expires_at r) (ld_lease_expires_at r') \<or>
      ld_epoch r < ld_epoch r' \<and> \<not> lease_live r (snd s'))))"

lemma lease_live_mono: "\<not> lease_live r t \<Longrightarrow> t \<le> t' \<Longrightarrow> \<not> lease_live r t'"
  by (auto simp: lease_live_def split: option.splits)

lemma lease_extends_live: "lease_extends (ld_lease_expires_at r) (ld_lease_expires_at r') \<Longrightarrow>
    \<not> lease_live r' t \<Longrightarrow> \<not> lease_live r t"
  by (auto simp: lease_live_def lease_extends_def split: option.splits)

lemma lease_extends_refl: "lease_extends a a"
  by (auto simp: lease_extends_def split: option.splits)

lemma lease_extends_trans: "lease_extends a b \<Longrightarrow> lease_extends b c \<Longrightarrow> lease_extends a c"
  by (auto simp: lease_extends_def split: option.splits)

lemma lead_rel_trans:
  assumes "lead_rel s t" "lead_rel t u" shows "lead_rel s u"
proof -
  have le: "snd s \<le> snd u" "snd t \<le> snd u" using assms by (simp_all add: lead_rel_def)
  have "\<exists>r''. fst u = Some r'' \<and> (ld_holder_id r'' = ld_holder_id r \<and> ld_epoch r'' = ld_epoch r \<and>
      lease_extends (ld_lease_expires_at r) (ld_lease_expires_at r'') \<or>
      ld_epoch r < ld_epoch r'' \<and> \<not> lease_live r (snd u))" if s: "fst s = Some r" for r
  proof -
    obtain r' where r': "fst t = Some r'" and c: "ld_holder_id r' = ld_holder_id r \<and> ld_epoch r' = ld_epoch r \<and>
        lease_extends (ld_lease_expires_at r) (ld_lease_expires_at r') \<or>
        ld_epoch r < ld_epoch r' \<and> \<not> lease_live r (snd t)"
      using assms(1) s unfolding lead_rel_def by blast
    obtain r'' where r'': "fst u = Some r''" and d: "ld_holder_id r'' = ld_holder_id r' \<and> ld_epoch r'' = ld_epoch r' \<and>
        lease_extends (ld_lease_expires_at r') (ld_lease_expires_at r'') \<or>
        ld_epoch r' < ld_epoch r'' \<and> \<not> lease_live r' (snd u)"
      using assms(2) r' unfolding lead_rel_def by blast
    have "ld_holder_id r'' = ld_holder_id r \<and> ld_epoch r'' = ld_epoch r \<and>
        lease_extends (ld_lease_expires_at r) (ld_lease_expires_at r'') \<or>
        ld_epoch r < ld_epoch r'' \<and> \<not> lease_live r (snd u)"
      using c d le(2) lease_extends_live [of r r' "snd u"] lease_live_mono [of r "snd t" "snd u"]
        lease_extends_trans [of "ld_lease_expires_at r" "ld_lease_expires_at r'" "ld_lease_expires_at r''"]
      by (elim disjE conjE) simp_all
    with r'' show ?thesis by blast
  qed
  then show ?thesis using le unfolding lead_rel_def by blast
qed

lemma lead_step_ok:
  assumes "lead_inv s" "lead_step s op = Some s'"
  shows "lead_inv s' \<and> lead_rel s s'"
proof (cases s)
  case (Pair row t)
  then show ?thesis
  proof (cases op)
    case (Acquire h now)
    with Pair assms show ?thesis
      by (auto simp: lead_inv_def lead_rel_def acquire_def lease_live_def lease_extends_def leadership_lease_def
          seconds_def Let_def split: if_splits option.splits)
  next
    case (Renew h e now)
    with Pair assms show ?thesis
      by (auto simp: lead_inv_def lead_rel_def renew_def leader_def lease_live_def lease_extends_def
          leadership_lease_def seconds_def Let_def split: if_splits option.splits sum.splits)
  qed
qed

interpretation lead: stepped_rel lead_step lead_inv lead_rel
proof
  show "lead_inv s \<Longrightarrow> lead_step s a = Some t \<Longrightarrow> lead_inv t" for s a t using lead_step_ok by blast
  show "lead_inv s \<Longrightarrow> lead_step s a = Some t \<Longrightarrow> lead_rel s t" for s a t using lead_step_ok by blast
  show "lead_rel s s" for s by (simp add: lead_rel_def lease_extends_refl)
  show "lead_rel s t \<Longrightarrow> lead_rel t u \<Longrightarrow> lead_rel s u" for s t u by (rule lead_rel_trans)
qed

lemma leader_Inr: "leader h e now row = Inr t \<longleftrightarrow> t = now \<and> (\<exists>r. row = Some r \<and> ld_holder_id r = Some h \<and>
    ld_epoch r = e \<and> lease_live r now)"
  by (auto simp: leader_def lease_live_def split: option.splits if_splits)

text \<open>C40: an epoch fences.  In a run of competing coordinators from the empty table, a check of holder \<open>h\<close>
  and epoch \<open>e\<close> that passes before a further run in which the check of holder \<open>h'\<close> and epoch \<open>e'\<close>
  passes leaves only two cases: it is the same holder with the same epoch, or the epoch is greater
  and every lease seen by the first check has run out by then.\<close>

theorem leadership_fences:
  assumes "run_steps lead_step (None, t0) as = Some (row, t)" "leader h e t row = Inr t"
    and "run_steps lead_step (row, t) bs = Some (row', t')" "leader h' e' t' row' = Inr t'"
  shows "h' = h \<and> e' = e \<or> e < e' \<and> \<not> lease_live (the row) t'"
proof -
  have inv: "lead_inv (row, t)" by (rule lead.run_inv [OF _ assms(1)]) (simp add: lead_inv_def)
  have "lead_rel (row, t) (row', t')" by (rule lead.run_rel [OF inv assms(3)])
  moreover obtain r where "row = Some r" "ld_holder_id r = Some h" "ld_epoch r = e"
    using assms(2) by (auto simp: leader_Inr)
  moreover obtain r' where "row' = Some r'" "ld_holder_id r' = Some h'" "ld_epoch r' = e'"
    using assms(4) by (auto simp: leader_Inr)
  ultimately show ?thesis by (auto simp: lead_rel_def)
qed

theorem leadership_fences_witness:
  "\<exists>row t row' t'. run_steps lead_step (None, 0) [Acquire ''a'' 1] = Some (row, t) \<and> leader ''a'' 1 t row = Inr t \<and>
     run_steps lead_step (row, t) [Acquire ''b'' 2, Acquire ''b'' 15000001] = Some (row', t') \<and>
     leader ''b'' 2 t' row' = Inr t' \<and> \<not> lease_live (the row) t'"
proof -
  let ?r = "Some \<lparr>ld_holder_id = Some ''a'', ld_epoch = 1, ld_lease_expires_at = Some 15000001, ld_renewed_at = Some 1\<rparr>"
  let ?r' = "Some \<lparr>ld_holder_id = Some ''b'', ld_epoch = 2, ld_lease_expires_at = Some 30000001,
    ld_renewed_at = Some 15000001\<rparr>"
  have 1: "run_steps lead_step (None, 0) [Acquire ''a'' 1] = Some (?r, 1)"
    by (simp add: acquire_def lease_live_def leadership_lease_def seconds_def)
  have 2: "leader ''a'' 1 1 ?r = Inr 1" by (simp add: leader_def)
  have 3: "run_steps lead_step (?r, 1) [Acquire ''b'' 2, Acquire ''b'' 15000001] = Some (?r', 15000001)"
    by (simp add: acquire_def lease_live_def leadership_lease_def seconds_def Let_def)
  have 4: "leader ''b'' 2 15000001 ?r' = Inr 15000001" by (simp add: leader_def)
  have "\<not> lease_live (the ?r) 15000001" using leadership_fences [OF 1 2 3 4] by simp
  with 1 2 3 4 show ?thesis by blast
qed

end
