(* ===== verification/Coordinator_Service.thy ===== *)
theory Coordinator_Service
  imports Coordinator_Recovery Scheduler_Policy Leadership
begin

section \<open>Coordinator transactions\<close>

text \<open>
  The transactions of \<^verbatim>\<open>src/src/nexa/coordinator/service.py\<close> under the leadership check, and the fairness
  state that \<^verbatim>\<open>src/src/nexa/coordinator/snapshot.py\<close> persists.  Reading the scheduling snapshot is the
  interface \<open>snapshot_reader\<close>, which \<open>Coordinator_Snapshot\<close> provides.  A transaction reads the leadership row \<open>lead\<close>, which only \<^verbatim>\<open>acquire\<close> and \<^verbatim>\<open>renew\<close> change, at
  the successive readings of the clock.
\<close>

record coordinator =
  co_holder_id :: uuid
  co_epoch :: int
  co_lead :: "leadership_row option"

definition check_leader :: "coordinator \<Rightarrow> env \<Rightarrow> nat \<Rightarrow> timestamp tx" where
  "check_leader co env i = leader (co_holder_id co) (co_epoch co) (clk env i) (co_lead co)"

definition account :: "coordinator \<Rightarrow> env \<Rightarrow> db \<Rightarrow> (timestamp option \<times> db) tx" where
  "account co env db =
     res_bind (check_leader co env 0) (\<lambda>_.
     case lock_ledgers db (clk env 1) False of (ledgers, db1) \<Rightarrow>
     if frozen db1 then Inr (None, db1)
     else res_bind (check_leader co env 2) (\<lambda>boundary.
       res_bind (charge_locked db1 ledgers boundary True boundary) (\<lambda>db2. Inr (Some boundary, db2))))"

subsection \<open>Fairness state\<close>

definition fresh_ledgers :: "db \<Rightarrow> SchedulingSnapshot \<Rightarrow> TenantLedger list" where
  "fresh_ledgers db snapshot = map (\<lambda>l. \<lparr>ledger_tenant_id = fl_tenant_id l, virtual_score = Finite (fl_virtual_score l),
       accounted_through_ms = epoch_ms (fl_accounted_through l), had_eligible_demand = fl_had_eligible_demand l\<rparr>)
     (filter (\<lambda>l. fl_tenant_id l \<in> limit_tenant_id ` set (tenant_limits snapshot)) (fairness_ledgers db))"

definition write_ledger :: "ledger_row list \<Rightarrow> TenantLedger \<Rightarrow> ledger_row list" where
  "write_ledger rows l = update_where (\<lambda>r. fl_tenant_id r = ledger_tenant_id l)
     (\<lambda>r. r\<lparr>fl_virtual_score := dec_val (virtual_score l), fl_had_eligible_demand := had_eligible_demand l\<rparr>) rows"

definition persist_fairness_locked :: "db \<Rightarrow> SchedulingSnapshot \<Rightarrow> timestamp \<Rightarrow> db tx" where
  "persist_fairness_locked db snapshot boundary = (case fairness_state db of
     None \<Rightarrow> Inl NoResultFound
   | Some vfloor \<Rightarrow>
      (case advance_accounting (snapshot\<lparr>tenant_ledgers := fresh_ledgers db snapshot, virtual_floor := Finite vfloor\<rparr>)
              (epoch_ms boundary) of
         Inl _ \<Rightarrow> Inl (RuntimeError ''invalid scheduler snapshot'')
       | Inr accounted \<Rightarrow> Inr (db\<lparr>
           fairness_ledgers := foldl write_ledger (fairness_ledgers db) (acc_tenant_ledgers accounted),
           fairness_state := Some (dec_val (acc_virtual_floor accounted))\<rparr>)))"

subsection \<open>Maintenance transactions\<close>

definition reap_lease :: "coordinator \<Rightarrow> env \<Rightarrow> db \<Rightarrow> uuid \<Rightarrow> (bool \<times> db) tx" where
  "reap_lease co env db lease_id =
     res_bind (check_leader co env 0) (\<lambda>_.
     if frozen db then Inr (False, db)
     else reap_lease_locked db lease_id (co_holder_id co) (check_leader co env 1))"

definition promote_retries ::
  "(template_row \<Rightarrow> inventory_row \<Rightarrow> bool) \<Rightarrow> coordinator \<Rightarrow> env \<Rightarrow> db \<Rightarrow> (int \<times> db) tx" where
  "promote_retries runs_on co env db =
     res_bind (retry_actionable runs_on db (clk env 0) retry_batch_size) (\<lambda>actionable.
     if \<not> actionable then Inr (0, db)
     else res_bind (check_leader co env 1) (\<lambda>_.
     res_bind (check_leader co env 2) (\<lambda>now.
     if frozen db then Inr (0, db)
     else res_bind (promote_due_locked runs_on env db now (co_holder_id co) retry_batch_size) (\<lambda>(promoted, db1).
     res_bind (check_leader co env 3) (\<lambda>_. Inr (promoted, db1))))))"

subsection \<open>Committing a decision\<close>

text \<open>The proposal is decided again on a fresh snapshot under the locks and applied only if it is still
  the decision.  \<open>replay_pending\<close> tells whether the tenant of an active reservation still has an
  eligibility event to replay.\<close>

record snapshot_reader =
  sn_read :: "db \<Rightarrow> inventory_row \<Rightarrow> timestamp \<Rightarrow> SchedulingSnapshot tx"
  sn_replay_pending :: "db \<Rightarrow> SchedulingSnapshot \<Rightarrow> bool"

definition decision_job :: "db \<Rightarrow> SchedulingDecision \<Rightarrow> job_row option tx" where
  "decision_job db dec =
     res_bind (case dec of
         Dispatch jid _ _ _ \<Rightarrow> Inr (Some jid)
       | CreateReservation jid _ _ \<Rightarrow> Inr (Some jid)
       | InvalidateReservation rid _ \<Rightarrow>
           res_bind (one_or_none (filter (\<lambda>r. r_reservation_id r = rid) (reservations db)))
             (\<lambda>r. Inr (map_option r_job_id r))
       | _ \<Rightarrow> Inr None) (\<lambda>jid.
     case jid of None \<Rightarrow> Inr None
     | Some i \<Rightarrow> if i = [] then Inr None else one_or_none (filter (\<lambda>j. j_job_id j = i) (jobs db)))"

definition commit_decision ::
  "snapshot_reader \<Rightarrow> coordinator \<Rightarrow> env \<Rightarrow> db \<Rightarrow> SchedulingDecision \<Rightarrow> (SchedulingDecision \<times> db) tx" where
  "commit_decision sn co env db dec =
     (let none = (\<lambda>reason. Inr (NoDecision reason [], db)) in
     res_bind (check_leader co env 0) (\<lambda>_.
     res_bind (sole_worker db) (\<lambda>(worker, inventory).
     if inventory = None \<or> operational_mode_of db \<noteq> NORMAL then none ''worker_or_mode_changed''
     else res_bind (decision_job db dec) (\<lambda>job.
     res_bind (check_leader co env 1) (\<lambda>now.
     if \<not> worker_is_ready (the worker) now then none ''worker_changed''
     else res_bind (sn_read sn db (the inventory) now) (\<lambda>fresh.
     if sn_replay_pending sn db fresh then none ''reservation_eligibility_replay_pending''
     else if decide fresh (epoch_ms now) \<noteq> Inr dec then none ''proposal_changed''
     else res_bind (account_locked db now (clk env 2)) (\<lambda>db1.
     res_bind (persist_fairness_locked db1 fresh now) (\<lambda>db2.
     res_bind (apply_decision env db2 dec (the worker) job now (co_epoch co) (co_holder_id co)) (\<lambda>db3.
     res_bind (check_leader co env 3) (\<lambda>_. Inr (dec, db3)))))))))))"

end
