(* ===== verification/Coordinator_Snapshot.thy ===== *)
theory Coordinator_Snapshot
  imports Quota_Headroom Eligibility_Replay Coordinator_Service Request_Guards
begin

section \<open>Reading the scheduling snapshot\<close>

text \<open>
  \<^verbatim>\<open>read_snapshot\<close> of \<^verbatim>\<open>src/src/nexa/coordinator/snapshot.py\<close>: from the tables to the snapshot the policy decides
  on.  The tables below are beside the life cycle: triggers keep the queue tables in step with the queued
  jobs, and \<open>qt_resumed_at\<close> is the column \<^verbatim>\<open>eligible_resumed_at\<close> of the admission counters.
\<close>

record queue_tables =
  qt_tenants :: "(uuid \<times> bool) list"
  qt_queue_heads :: "(uuid \<times> int) list"
  qt_queue_submitters :: "(uuid \<times> uuid) list"
  qt_request_sizes :: "(uuid \<times> int \<times> int) list"
  qt_headroom :: "uuid \<Rightarrow> headroom"
  qt_resumed_at :: "scope \<Rightarrow> timestamp option"
  qt_storage :: "storage_counter_row list"

definition active_attempts_of :: "db \<Rightarrow> scope \<Rightarrow> int" where
  "active_attempts_of db s = (case filter (\<lambda>k. k_scope k = s) (admission_counters db) of [] \<Rightarrow> 0 | k # _ \<Rightarrow> k_active_attempts k)"

definition snapshot_ledgers :: "db \<Rightarrow> timestamp \<Rightarrow> TenantLedger list" where
  "snapshot_ledgers db now =
     (let stored = map (\<lambda>l. (fl_tenant_id l, \<lparr>ledger_tenant_id = fl_tenant_id l, virtual_score = Finite (fl_virtual_score l),
            accounted_through_ms = min (epoch_ms (fl_accounted_through l)) (epoch_ms now),
            had_eligible_demand = fl_had_eligible_demand l\<rparr>)) (fairness_ledgers db) in
      map snd (foldl (\<lambda>d p. if tp_tenant_id p \<in> fst ` set d then d
          else d @ [(tp_tenant_id p, \<lparr>ledger_tenant_id = tp_tenant_id p, virtual_score = Finite 0, accounted_through_ms = epoch_ms now,
                 had_eligible_demand = False\<rparr>)])
        (dict_of stored) (sort_key tp_tenant_id (tenant_policies db))))"

definition unreleased_rows :: "db \<Rightarrow> allocation_row list" where
  "unreleased_rows db = filter (\<lambda>al. al_state al \<noteq> S_RELEASED) (allocations db)"

definition snapshot_held :: "db \<Rightarrow> HeldAllocation list" where
  "snapshot_held db = map (\<lambda>al. \<lparr>alloc_id = al_allocation_id al, alloc_tenant_id = al_tenant_id al,
       alloc_resources = \<lparr>cpu_millis = al_cpu_millis al, memory_bytes = al_memory_bytes al, gpu_count = al_gpu_count al\<rparr>,
       gpu_uuids = sort (map gc_gpu_uuid (filter (\<lambda>g. gc_released_at g = None \<and> gc_allocation_id g = al_allocation_id al)
         (allocation_gpu_claims db))),
       alloc_state = (if al_state al = S_HELD then HELD else QUARANTINED)\<rparr>) (unreleased_rows db)"

definition compatible_templates ::
  "(template_row \<Rightarrow> inventory_row \<Rightarrow> bool) \<Rightarrow> db \<Rightarrow> inventory_row \<Rightarrow> (string \<times> int) list" where
  "compatible_templates runs_on db inventory = map (\<lambda>tv. (t_template_id tv, t_version tv)) (filter (\<lambda>tv. runs_on tv inventory)
     (concat (map (\<lambda>tv. map (\<lambda>_. tv) (filter (\<lambda>tm. tm_template_id tm = t_template_id tv \<and> tm_enabled tm) (templates db)))
       (template_versions db))))"

definition snapshot_capacity :: "inventory_row \<Rightarrow> ResourceCapacity" where
  "snapshot_capacity iv = \<lparr>cpu_millis = iv_allocatable_cpu_millis iv, memory_bytes = iv_allocatable_memory_bytes iv,
     gpu_count = iv_allocatable_gpu_count iv\<rparr>"

definition fit_limits :: "db \<Rightarrow> ResourceCapacity \<Rightarrow> tenant_policy_row \<Rightarrow> int \<times> int" where
  "fit_limits db capacity p =
     (min (cpu_millis capacity) (tp_cpu_limit_millis p - held_sum al_cpu_millis db (tp_tenant_id p)),
      min (memory_bytes capacity) (tp_memory_limit_bytes p - held_sum al_memory_bytes db (tp_tenant_id p)))"

subsection \<open>Preparing a tenant\<close>

record prepared =
  pr_limit :: tenant_policy_row
  pr_tenant_active :: int
  pr_enabled :: bool
  pr_submitters :: "uuid list"
  pr_users :: "uuid list"
  pr_bounds :: "int \<times> int \<times> int \<times> int"
  pr_cells :: "quota_cell list"
  pr_tenant_resume :: "timestamp option"
  pr_no_resume :: bool
  pr_resume_at :: "timestamp option"

definition tenant_cells :: "queue_tables \<Rightarrow> db \<Rightarrow> ResourceCapacity \<Rightarrow> tenant_policy_row \<Rightarrow> quota_cell list" where
  "tenant_cells qt db capacity p = (case fit_limits db capacity p of (max_cpu, max_memory) \<Rightarrow>
     populated_cells (map snd (filter (\<lambda>(t, _). t = tp_tenant_id p) (qt_request_sizes qt)))
       (quota_cells (hr_cpu (qt_headroom qt (tp_tenant_id p))) (hr_memory (qt_headroom qt (tp_tenant_id p))) max_cpu max_memory))"

definition prepare_tenant :: "queue_tables \<Rightarrow> db \<Rightarrow> ResourceCapacity \<Rightarrow> uuid set \<Rightarrow> tenant_policy_row \<Rightarrow> prepared" where
  "prepare_tenant qt db capacity pending p =
     (let t = tp_tenant_id p; cells = tenant_cells qt db capacity p; fit = fit_limits db capacity p;
          user_resume = (\<lambda>u. qt_resumed_at qt (USER t u));
          submitters = map snd (filter (\<lambda>(t', _). t' = t) (qt_queue_submitters qt));
          quota_resume = (case cells of [(_, at')] \<Rightarrow> at' | _ \<Rightarrow> None);
          tenant_resume = latest [qt_resumed_at qt (TENANT t), quota_resume] in
      \<lparr>pr_limit = p, pr_tenant_active = active_attempts_of db (TENANT t),
       pr_enabled = (map_of (qt_tenants qt) t = Some True \<and> t \<notin> pending \<and> cells \<noteq> []),
       pr_submitters = submitters,
       pr_users = filter (\<lambda>u. active_attempts_of db (USER t u) < tp_user_active_limit p) submitters,
       pr_bounds = (case cells of [(bounds, _)] \<Rightarrow> bounds | _ \<Rightarrow> (- 1, fst fit, - 1, snd fit)),
       pr_cells = cells,
       pr_tenant_resume = tenant_resume,
       pr_no_resume = (tenant_resume = None \<and> list_all (\<lambda>u. user_resume u = None) submitters),
       pr_resume_at = (case submitters of [u] \<Rightarrow> latest [tenant_resume, user_resume u] | _ \<Rightarrow> None)\<rparr>)"

definition may_dispatch :: "prepared \<Rightarrow> bool" where
  "may_dispatch pr \<longleftrightarrow> pr_users pr \<noteq> [] \<and> pr_enabled pr \<and> pr_tenant_active pr < tp_tenant_active_limit (pr_limit pr)"

text \<open>The query of a tenant, restricted to its eligible users.\<close>

definition tenant_query ::
  "queue_tables \<Rightarrow> db \<Rightarrow> timestamp \<Rightarrow> (string \<times> int) list \<Rightarrow> prepared \<Rightarrow> queue_row list" where
  "tenant_query qt db now compatible pr =
     (let t = tp_tenant_id (pr_limit pr) in
      if \<not> pr_enabled pr \<or> pr_tenant_active pr \<ge> tp_tenant_active_limit (pr_limit pr) then []
      else queue_rows db now compatible t (pr_bounds pr) (\<lambda>u. pr_users pr \<noteq> [] \<longrightarrow> u \<in> set (pr_users pr))
        (\<lambda>u. if pr_no_resume pr then None
           else if length (pr_submitters pr) = 1 then pr_resume_at pr
           else latest [pr_tenant_resume pr, qt_resumed_at qt (USER t u)]))"

subsection \<open>The four ways to read a window\<close>

definition plain_descriptor :: "prepared \<Rightarrow> timestamp option \<Rightarrow> descriptor" where
  "plain_descriptor pr resume_at = (case pr_bounds pr of (c0, c1, m0, m1) \<Rightarrow>
     \<lparr>de_tenant_id = tp_tenant_id (pr_limit pr), de_min_cpu = c0, de_max_cpu = c1, de_min_memory = m0, de_max_memory = m1,
      de_users = pr_users pr, de_resume_at = resume_at, de_cursor = None\<rparr>)"

definition group_descriptors :: "queue_tables \<Rightarrow> prepared \<Rightarrow> queue_cursor option \<Rightarrow> descriptor list" where
  "group_descriptors qt pr cursor =
     (let t = tp_tenant_id (pr_limit pr); cells = (if length (pr_cells pr) > 1 then pr_cells pr else [(pr_bounds pr, None)]) in
      concat (map (\<lambda>u. map (\<lambda>((c0, c1, m0, m1), quota_resume).
        \<lparr>de_tenant_id = t, de_min_cpu = c0, de_max_cpu = c1, de_min_memory = m0, de_max_memory = m1, de_users = [u],
         de_resume_at = latest [pr_tenant_resume pr, qt_resumed_at qt (USER t u), quota_resume], de_cursor = cursor\<rparr>) cells)
        (pr_users pr)))"

definition batch_read ::
  "db \<Rightarrow> timestamp \<Rightarrow> (string \<times> int) list \<Rightarrow> descriptor \<Rightarrow> labelled_row list \<times> queue_row option" where
  "batch_read db now compatible d = (if compatible = [] then ([], None) else batched_window db now compatible d)"

definition grouped_window ::
  "queue_tables \<Rightarrow> db \<Rightarrow> timestamp \<Rightarrow> (string \<times> int) list \<Rightarrow> prepared \<Rightarrow> queue_cursor option \<Rightarrow> labelled_row list \<times> queue_row option" where
  "grouped_window qt db now compatible pr cursor =
     (let found = merged_group (map (batch_read db now compatible) (group_descriptors qt pr cursor)) in
      if fst found = [] \<and> cursor \<noteq> None
      then merged_group (map (batch_read db now compatible) (group_descriptors qt pr None)) else found)"

definition tenant_window ::
  "queue_tables \<Rightarrow> db \<Rightarrow> timestamp \<Rightarrow> (string \<times> int) list \<Rightarrow> prepared \<Rightarrow> queue_cursor option \<Rightarrow> labelled_row list \<times> queue_row option" where
  "tenant_window qt db now compatible pr cursor =
     (if \<not> may_dispatch pr then ([], None)
      else if \<not> (length (pr_cells pr) = 1 \<and> (pr_no_resume pr \<or> length (pr_submitters pr) < 2))
      then grouped_window qt db now compatible pr cursor
      else if compatible \<noteq> [] \<and> length (pr_cells pr) = 1 \<and> pr_resume_at pr \<noteq> None \<and> length (pr_users pr) = 1 \<and> cursor = None
      then batch_read db now compatible (plain_descriptor pr (pr_resume_at pr))
      else if compatible \<noteq> [] \<and> length (pr_cells pr) = 1 \<and> pr_no_resume pr \<and> cursor = None
      then batch_read db now compatible (plain_descriptor pr None)
      else window_rows db (tenant_query qt db now compatible pr) now cursor
        (snd ` set (filter (\<lambda>(t, _). t = tp_tenant_id (pr_limit pr)) (qt_queue_heads qt)))
        (pr_resume_at pr) (tp_tenant_id (pr_limit pr)) (pr_users pr))"

subsection \<open>The active reservation\<close>

definition reserved_row ::
  "queue_tables \<Rightarrow> db \<Rightarrow> timestamp \<Rightarrow> (string \<times> int) list \<Rightarrow> prepared \<Rightarrow> reservation_row option \<Rightarrow> queue_row option tx" where
  "reserved_row qt db now compatible pr active = (case active of None \<Rightarrow> Inr None
     | Some a \<Rightarrow>
       if pr_users pr = [] \<or> r_tenant_id a \<noteq> tp_tenant_id (pr_limit pr) then Inr None
       else res_bind (one_or_none (filter (\<lambda>r. qr_job_id r = r_job_id a) (tenant_query qt db now compatible pr))) (\<lambda>row.
         Inr (case row of None \<Rightarrow> None
           | Some r \<Rightarrow> if length (pr_cells pr) \<le> 1 then Some r
             else (case map snd (filter (\<lambda>(bounds, _). in_cell bounds (qr_cpu_millis r) (qr_memory_bytes r)) (pr_cells pr)) of
                 [] \<Rightarrow> None
               | resumes \<Rightarrow> Some (r\<lparr>qr_effective_since := the (latest (Some (qr_effective_since r) # resumes))\<rparr>)))))"

subsection \<open>Candidates and cursors\<close>

definition candidate_of :: "db \<Rightarrow> timestamp \<Rightarrow> prepared \<Rightarrow> queue_row \<Rightarrow> Candidate" where
  "candidate_of db now pr r = \<lparr>job_id = qr_job_id r, cand_tenant_id = tp_tenant_id (pr_limit pr), user_id = qr_submitter_user_id r,
     job_version = qr_version r, ready_sequence = qr_ready_sequence r,
     resources = \<lparr>cpu_millis = qr_cpu_millis r, memory_bytes = qr_memory_bytes r, gpu_count = qr_gpu_count r\<rparr>,
     base_priority = qr_base_priority r,
     eligible_wait_seconds = max 0 ((epoch_ms now - epoch_ms (qr_effective_since r)) div 1000),
     retry_ready_at_ms = (case qr_retry_ready_at r of None \<Rightarrow> 0 | Some t \<Rightarrow> epoch_ms t),
     template_version = qr_template_version r, required_capabilities = {},
     tenant_active_attempts = pr_tenant_active pr,
     user_active_attempts = active_attempts_of db (USER (tp_tenant_id (pr_limit pr)) (qr_submitter_user_id r)),
     cand_state = Candidate_QUEUED, template_compatible = True, capabilities_compatible = True, policy_compatible = True\<rparr>"

definition show_int :: "int \<Rightarrow> string" where
  "show_int z = (if z < 0 then CHR ''-'' # show_nat (nat (- z)) else show_nat (nat z))"

definition encode_cursor :: "queue_cursor \<Rightarrow> string" where
  "encode_cursor c = (case c of (p, s, i) \<Rightarrow> show_int p @ '':'' @ show_int s @ '':'' @ i)"

definition next_cursor :: "timestamp \<Rightarrow> labelled_row list \<Rightarrow> string option" where
  "next_cursor now rows = (if rows = [] then None
     else let r = snd (last rows); age_minutes = max 0 ((epoch_ms now - epoch_ms (qr_effective_since r)) div 60000) in
       Some (encode_cursor (min 2 (qr_base_priority r + age_minutes), ready_key r)))"

definition candidate_window ::
  "queue_tables \<Rightarrow> db \<Rightarrow> timestamp \<Rightarrow> (string \<times> int) list \<Rightarrow> reservation_row option \<Rightarrow> (string \<Rightarrow> queue_cursor option) \<Rightarrow>
   prepared \<Rightarrow> (string \<times> CandidateWindow) tx" where
  "candidate_window qt db now compatible active cursors pr =
     (case tenant_window qt db now compatible pr (cursors (tp_tenant_id (pr_limit pr))) of (rows, oldest) \<Rightarrow>
      res_bind (reserved_row qt db now compatible pr active) (\<lambda>reserved.
      Inr (tp_tenant_id (pr_limit pr),
        \<lparr>normal = map (candidate_of db now pr \<circ> snd) rows,
         oldest_eligible = map_option (candidate_of db now pr) (if reserved = None then oldest else reserved),
         continuation_cursor = next_cursor now rows\<rparr>)))"

subsection \<open>The snapshot\<close>

fun traverse :: "('a \<Rightarrow> 'b tx) \<Rightarrow> 'a list \<Rightarrow> 'b list tx" where
  "traverse f [] = Inr []"
| "traverse f (x # xs) = res_bind (f x) (\<lambda>y. res_bind (traverse f xs) (\<lambda>ys. Inr (y # ys)))"

definition snapshot_limits :: "queue_tables \<Rightarrow> int option \<Rightarrow> tenant_policy_row list \<Rightarrow> TenantPolicySnapshot list" where
  "snapshot_limits qt quota_bytes limits = map (\<lambda>p. \<lparr>limit_tenant_id = tp_tenant_id p, weight = Finite (tp_weight p),
     resource_quota = \<lparr>cpu_millis = tp_cpu_limit_millis p, memory_bytes = tp_memory_limit_bytes p, gpu_count = tp_gpu_limit p\<rparr>,
     max_active_attempts = tp_tenant_active_limit p, max_user_active_attempts = tp_user_active_limit p,
     artifact_quota_available = (case quota_bytes of None \<Rightarrow> True | Some q \<Rightarrow> tp_tenant_id p \<notin> exhausted_tenants (qt_storage qt) q)\<rparr>) limits"

text \<open>\<open>pending\<close> are the tenants with an event still to replay.\<close>

definition read_snapshot ::
  "(template_row \<Rightarrow> inventory_row \<Rightarrow> bool) \<Rightarrow> queue_tables \<Rightarrow> db \<Rightarrow> timestamp \<Rightarrow> inventory_row \<Rightarrow> (string \<Rightarrow> queue_cursor option) \<Rightarrow>
   uuid set \<Rightarrow> int option \<Rightarrow> SchedulingSnapshot tx" where
  "read_snapshot runs_on qt db now inventory cursors pending quota_bytes =
     (let limits = sort_key tp_tenant_id (tenant_policies db); capacity = snapshot_capacity inventory;
          compatible = compatible_templates runs_on db inventory in
      res_bind (one_or_none (filter (\<lambda>r. r_invalidated_at r = None) (reservations db))) (\<lambda>active.
      if list_ex (\<lambda>p. map_of (qt_tenants qt) (tp_tenant_id p) = None) limits then Inl (RuntimeError ''KeyError'')
      else res_bind (traverse (\<lambda>p. candidate_window qt db now compatible active cursors (prepare_tenant qt db capacity pending p)) limits) (\<lambda>windows.
      let snapshot = \<lparr>policy_version = pv_policy_version (policy db), allocatable_capacity = capacity,
            held_allocations = snapshot_held db, tenant_ledgers = snapshot_ledgers db now,
            tenant_limits = snapshot_limits qt quota_bytes limits, candidates_by_tenant = windows,
            active_reservation = map_option (\<lambda>a. \<lparr>reservation_id = r_reservation_id a, res_job_id = r_job_id a,
              res_tenant_id = r_tenant_id a, res_policy_version = r_policy_version a, invalid_reason = None\<rparr>) active,
            virtual_floor = Finite (case fairness_state db of None \<Rightarrow> 0 | Some f \<Rightarrow> f)\<rparr> in
      (case advance_accounting snapshot (epoch_ms now) of
         Inl _ \<Rightarrow> Inl (RuntimeError ''invalid scheduler snapshot'')
       | Inr accounted \<Rightarrow> Inr (snapshot\<lparr>tenant_ledgers := acc_tenant_ledgers accounted,
           virtual_floor := acc_virtual_floor accounted\<rparr>)))))"

text \<open>The reader of the coordinator, built from the tables.\<close>

definition snapshot_reader_of ::
  "(template_row \<Rightarrow> inventory_row \<Rightarrow> bool) \<Rightarrow> queue_tables \<Rightarrow> eligibility_event list \<Rightarrow> (string \<Rightarrow> queue_cursor option) \<Rightarrow>
   int option \<Rightarrow> snapshot_reader" where
  "snapshot_reader_of runs_on qt evs cursors quota_bytes =
     \<lparr>sn_read = (\<lambda>db inventory now. read_snapshot runs_on qt db now inventory cursors (pending_eligibility_tenants evs) quota_bytes),
      sn_replay_pending = (\<lambda>db s. case active_reservation s of None \<Rightarrow> False
        | Some r \<Rightarrow> list_ex (\<lambda>e. ee_tenant_id e = res_tenant_id r \<and> ee_completed_at e = None) evs)\<rparr>"

end
