(* ===== verification/Window_Reference.thy ===== *)
theory Window_Reference
  imports Coordinator_Snapshot
begin

section \<open>What the snapshot offers of a tenant\<close>

text \<open>
  Whichever of its four ways a tick takes to read the window of a tenant, the result is that of one plain
  query over the queued jobs, as long as the queue tables are in step with the jobs.
\<close>

text \<open>The constraints of the schema the readers rely on, and the contract of the triggers.\<close>

definition queue_schema :: "db \<Rightarrow> bool" where
  "queue_schema db \<longleftrightarrow> distinct (map j_job_id (jobs db)) \<and> distinct (map sp_job_id (job_specs db)) \<and>
     (\<forall>j \<in> set (jobs db). j_base_priority j \<in> {0, 1, 2}) \<and>
     (\<forall>sp \<in> set (job_specs db). 0 \<le> sp_cpu_millis sp \<and> 0 \<le> sp_memory_bytes sp)"

definition queue_in_step :: "queue_tables \<Rightarrow> db \<Rightarrow> bool" where
  "queue_in_step qt db \<longleftrightarrow> distinct (qt_queue_submitters qt) \<and>
     (\<forall>j \<in> set (jobs db). j_state j = J_QUEUED \<longrightarrow>
        (j_tenant_id j, j_submitter_user_id j) \<in> set (qt_queue_submitters qt) \<and> (j_tenant_id j, j_base_priority j) \<in> set (qt_queue_heads qt) \<and>
        (\<forall>sp \<in> set (job_specs db). sp_job_id sp = j_job_id j \<and> sp_gpu_count sp = 0 \<longrightarrow>
           (j_tenant_id j, sp_cpu_millis sp, sp_memory_bytes sp) \<in> set (qt_request_sizes qt))) \<and>
     (\<forall>p \<in> set (tenant_policies db).
        staircase (hr_cpu (qt_headroom qt (tp_tenant_id p))) (tp_cpu_limit_millis p - held_sum al_cpu_millis db (tp_tenant_id p)) \<and>
        staircase (hr_memory (qt_headroom qt (tp_tenant_id p))) (tp_memory_limit_bytes p - held_sum al_memory_bytes db (tp_tenant_id p)))"

text \<open>The candidates of a tenant: its queued jobs that fit beside the held allocations and whose submitter may
  run another attempt, each ageing from the last time its tenant, its submitter and its size were let in.\<close>

definition candidate_resume :: "queue_tables \<Rightarrow> uuid \<Rightarrow> spec_row \<Rightarrow> uuid \<Rightarrow> timestamp option" where
  "candidate_resume qt t sp u = latest [qt_resumed_at qt (TENANT t), qt_resumed_at qt (USER t u),
     latest [step_at (hr_cpu (qt_headroom qt t)) (sp_cpu_millis sp), step_at (hr_memory (qt_headroom qt t)) (sp_memory_bytes sp)]]"

definition tenant_candidates ::
  "queue_tables \<Rightarrow> db \<Rightarrow> timestamp \<Rightarrow> (string \<times> int) list \<Rightarrow> ResourceCapacity \<Rightarrow> tenant_policy_row \<Rightarrow> queue_row list" where
  "tenant_candidates qt db now compatible capacity p =
     (let t = tp_tenant_id p; fit = fit_limits db capacity p in
      map (\<lambda>(j, since, sp). queue_row_of (candidate_resume qt t sp) j since sp)
        (filter (\<lambda>(j, since, sp). active_attempts_of db (USER t (j_submitter_user_id j)) < tp_user_active_limit p \<and>
           sp_cpu_millis sp \<le> fst fit \<and> sp_memory_bytes sp \<le> snd fit) (joined_rows db now compatible t)))"

subsection \<open>Times\<close>

lemma latest_simps:
  "latest [] = None" "latest (None # ts) = latest ts" "latest [Some a] = Some a" "latest (Some a # Some b # ts) = latest (Some (max a b) # ts)"
  "latest (Some a # None # ts) = latest (Some a # ts)"
  by (simp_all add: latest_def map_filter_def max.commute)

lemma latest_nested:
  "latest [latest [a, q], b, None] = latest [a, b, q]" "latest [latest [a, q], b] = latest [a, b, q]"
  "latest [latest [a, None], b, q] = latest [a, b, q]"
  by (cases a; cases b; cases q; simp add: latest_simps max.assoc max.commute max.left_commute)+

lemma latest_None: "latest [a, b, c] = None \<longleftrightarrow> a = None \<and> b = None \<and> c = None" "latest [a, c] = None \<longleftrightarrow> a = None \<and> c = None"
  by (cases a; cases b; cases c; simp add: latest_simps)+

lemma queue_row_of_cong: "resume (j_submitter_user_id j) = resume' (j_submitter_user_id j) \<Longrightarrow> queue_row_of resume j since sp = queue_row_of resume' j since sp"
  by (simp add: queue_row_of_def)

subsection \<open>Sizes and cells\<close>

lemma joined_rows_mem:
  assumes "(j, since, sp) \<in> set (joined_rows db now compatible t)"
  shows "j \<in> set (jobs db)" "j_tenant_id j = t" "j_state j = J_QUEUED" "j_eligible_since j = Some since"
    "sp \<in> set (job_specs db)" "sp_job_id sp = j_job_id j" "sp_gpu_count sp = 0" "compatible \<noteq> []"
  using assms by (auto simp: joined_rows_def split: option.splits)

lemma tenant_cell_of:
  assumes "queue_schema db" "queue_in_step qt db" "p \<in> set (tenant_policies db)"
    and x: "(j, since, sp) \<in> set (joined_rows db now compatible (tp_tenant_id p))"
  shows "sp_cpu_millis sp \<le> fst (fit_limits db capacity p) \<and> sp_memory_bytes sp \<le> snd (fit_limits db capacity p) \<longleftrightarrow>
      (\<exists>c \<in> set (tenant_cells qt db capacity p). in_cell (fst c) (sp_cpu_millis sp) (sp_memory_bytes sp))"
    and "c \<in> set (tenant_cells qt db capacity p) \<Longrightarrow> in_cell (fst c) (sp_cpu_millis sp) (sp_memory_bytes sp) \<Longrightarrow>
      candidate_resume qt (tp_tenant_id p) sp u = latest [qt_resumed_at qt (TENANT (tp_tenant_id p)), qt_resumed_at qt (USER (tp_tenant_id p) u), snd c]"
proof -
  let ?t = "tp_tenant_id p" let ?h = "qt_headroom qt ?t" let ?fit = "fit_limits db capacity p"
  let ?cells = "quota_cells (hr_cpu ?h) (hr_memory ?h) (fst ?fit) (snd ?fit)"
  have st: "staircase (hr_cpu ?h) (tp_cpu_limit_millis p - held_sum al_cpu_millis db ?t)"
    "staircase (hr_memory ?h) (tp_memory_limit_bytes p - held_sum al_memory_bytes db ?t)"
    using assms(2,3) by (auto simp: queue_in_step_def)
  note row = joined_rows_mem [OF x]
  have size_in: "(sp_cpu_millis sp, sp_memory_bytes sp) \<in> set (map snd (filter (\<lambda>(t, _). t = ?t) (qt_request_sizes qt)))"
    using assms(2) row by (force simp: queue_in_step_def)
  have cells: "tenant_cells qt db capacity p = populated_cells (map snd (filter (\<lambda>(t, _). t = ?t) (qt_request_sizes qt))) ?cells"
    by (simp add: tenant_cells_def case_prod_beta)
  have nonneg: "0 \<le> sp_cpu_millis sp" "0 \<le> sp_memory_bytes sp" using assms(1) row(5) by (auto simp: queue_schema_def)
  have pop: "c \<in> set (tenant_cells qt db capacity p) \<longleftrightarrow> c \<in> set ?cells" if "in_cell (fst c) (sp_cpu_millis sp) (sp_memory_bytes sp)" for c
    using that size_in unfolding cells by (fastforce simp: populated_cells_def list_ex_iff case_prod_beta)
  show "sp_cpu_millis sp \<le> fst ?fit \<and> sp_memory_bytes sp \<le> snd ?fit \<longleftrightarrow>
      (\<exists>c \<in> set (tenant_cells qt db capacity p). in_cell (fst c) (sp_cpu_millis sp) (sp_memory_bytes sp))" (is "?fits \<longleftrightarrow> ?cell")
  proof
    assume ?fits
    then have "\<exists>c \<in> set ?cells. in_cell (fst c) (sp_cpu_millis sp) (sp_memory_bytes sp)"
      using nonneg by (intro quota_cells_cover [OF st]) (simp_all add: fit_limits_def)
    then show ?cell using pop by blast
  next
    assume ?cell
    then show ?fits using pop quota_cells_time [OF st] by blast
  qed
  assume "c \<in> set (tenant_cells qt db capacity p)" "in_cell (fst c) (sp_cpu_millis sp) (sp_memory_bytes sp)"
  then have "snd c = latest [step_at (hr_cpu ?h) (sp_cpu_millis sp), step_at (hr_memory ?h) (sp_memory_bytes sp)]"
    using pop quota_cells_time [OF st] by blast
  then show "candidate_resume qt ?t sp u = latest [qt_resumed_at qt (TENANT ?t), qt_resumed_at qt (USER ?t u), snd c]"
    by (simp add: candidate_resume_def)
qed


lemma tenant_cells_unique:
  assumes "queue_in_step qt db" "p \<in> set (tenant_policies db)"
  shows "distinct (tenant_cells qt db capacity p)"
    and "c \<in> set (tenant_cells qt db capacity p) \<Longrightarrow> c' \<in> set (tenant_cells qt db capacity p) \<Longrightarrow>
      in_cell (fst c) cpu memory \<Longrightarrow> in_cell (fst c') cpu memory \<Longrightarrow> c = c'"
proof -
  have st: "staircase (hr_cpu (qt_headroom qt (tp_tenant_id p))) (tp_cpu_limit_millis p - held_sum al_cpu_millis db (tp_tenant_id p))"
    "staircase (hr_memory (qt_headroom qt (tp_tenant_id p))) (tp_memory_limit_bytes p - held_sum al_memory_bytes db (tp_tenant_id p))"
    using assms by (auto simp: queue_in_step_def)
  show "distinct (tenant_cells qt db capacity p)"
    using quota_cells_distinct [OF st] by (simp add: tenant_cells_def populated_cells_def case_prod_beta)
  show "c = c'" if "c \<in> set (tenant_cells qt db capacity p)" "c' \<in> set (tenant_cells qt db capacity p)"
    "in_cell (fst c) cpu memory" "in_cell (fst c') cpu memory"
    using that by (intro quota_cells_unique [OF st, of c _ _ c' cpu memory]) (auto simp: tenant_cells_def populated_cells_def case_prod_beta)
qed

subsection \<open>One cell\<close>

lemma prepare_tenant_simps [simp]:
  "pr_limit (prepare_tenant qt db capacity pending p) = p"
  "pr_cells (prepare_tenant qt db capacity pending p) = tenant_cells qt db capacity p"
  "pr_submitters (prepare_tenant qt db capacity pending p) = map snd (filter (\<lambda>(t', _). t' = tp_tenant_id p) (qt_queue_submitters qt))"
  "pr_users (prepare_tenant qt db capacity pending p) = filter (\<lambda>u. active_attempts_of db (USER (tp_tenant_id p) u) < tp_user_active_limit p)
     (map snd (filter (\<lambda>(t', _). t' = tp_tenant_id p) (qt_queue_submitters qt)))"
  by (simp_all add: prepare_tenant_def Let_def)

lemma submitter_of_row:
  assumes "queue_in_step qt db" "(j, since, sp) \<in> set (joined_rows db now compatible (tp_tenant_id p))"
  shows "j_submitter_user_id j \<in> set (pr_submitters (prepare_tenant qt db capacity pending p))"
  using assms joined_rows_mem [OF assms(2)] by (force simp: queue_in_step_def)

lemma single_cell_candidates:
  assumes ok: "queue_schema db" "queue_in_step qt db" "p \<in> set (tenant_policies db)" and c: "tenant_cells qt db capacity p = [(b, q)]"
    and W: "\<And>u. u \<in> set (pr_submitters (prepare_tenant qt db capacity pending p)) \<Longrightarrow>
      W u \<longleftrightarrow> active_attempts_of db (USER (tp_tenant_id p) u) < tp_user_active_limit p"
    and R: "\<And>u. u \<in> set (pr_submitters (prepare_tenant qt db capacity pending p)) \<Longrightarrow> W u \<Longrightarrow>
      R u = latest [qt_resumed_at qt (TENANT (tp_tenant_id p)), qt_resumed_at qt (USER (tp_tenant_id p) u), q]"
  shows "queue_rows db now compatible (tp_tenant_id p) b W R = tenant_candidates qt db now compatible capacity p"
  unfolding queue_rows_def tenant_candidates_def Let_def
proof (rule map_cong)
  let ?t = "tp_tenant_id p"
  have sub: "j_submitter_user_id j \<in> set (pr_submitters (prepare_tenant qt db capacity pending p))"
    if "(j, since, sp) \<in> set (joined_rows db now compatible ?t)" for j since sp by (rule submitter_of_row [OF ok(2) that])
  show "filter (\<lambda>(j, since, sp). W (j_submitter_user_id j) \<and> in_cell b (sp_cpu_millis sp) (sp_memory_bytes sp)) (joined_rows db now compatible ?t) =
    filter (\<lambda>(j, since, sp). active_attempts_of db (USER ?t (j_submitter_user_id j)) < tp_user_active_limit p \<and>
      sp_cpu_millis sp \<le> fst (fit_limits db capacity p) \<and> sp_memory_bytes sp \<le> snd (fit_limits db capacity p)) (joined_rows db now compatible ?t)"
  proof (rule filter_cong [OF refl])
    fix x assume "x \<in> set (joined_rows db now compatible ?t)"
    moreover obtain j since sp where "x = (j, since, sp)" by (cases x)
    ultimately show "(case x of (j, since, sp) \<Rightarrow> W (j_submitter_user_id j) \<and> in_cell b (sp_cpu_millis sp) (sp_memory_bytes sp)) =
      (case x of (j, since, sp) \<Rightarrow> active_attempts_of db (USER ?t (j_submitter_user_id j)) < tp_user_active_limit p \<and>
        sp_cpu_millis sp \<le> fst (fit_limits db capacity p) \<and> sp_memory_bytes sp \<le> snd (fit_limits db capacity p))"
      using W [OF sub, of j since sp] tenant_cell_of(1) [OF ok, of j since sp now compatible capacity] c by simp
  qed
  fix x
  assume "x \<in> set (filter (\<lambda>(j, since, sp). active_attempts_of db (USER ?t (j_submitter_user_id j)) < tp_user_active_limit p \<and>
      sp_cpu_millis sp \<le> fst (fit_limits db capacity p) \<and> sp_memory_bytes sp \<le> snd (fit_limits db capacity p)) (joined_rows db now compatible ?t))"
  then obtain j since sp where x: "x = (j, since, sp)" "(j, since, sp) \<in> set (joined_rows db now compatible ?t)"
    "active_attempts_of db (USER ?t (j_submitter_user_id j)) < tp_user_active_limit p"
    "sp_cpu_millis sp \<le> fst (fit_limits db capacity p) \<and> sp_memory_bytes sp \<le> snd (fit_limits db capacity p)" by auto
  have "in_cell b (sp_cpu_millis sp) (sp_memory_bytes sp)" using tenant_cell_of(1) [OF ok x(2), of capacity] x(4) c by simp
  then have "candidate_resume qt ?t sp u = latest [qt_resumed_at qt (TENANT ?t), qt_resumed_at qt (USER ?t u), q]" for u
    using tenant_cell_of(2) [OF ok x(2), of "(b, q)" capacity u] c by simp
  then show "(case x of (j, since, sp) \<Rightarrow> queue_row_of R j since sp) =
      (case x of (j, since, sp) \<Rightarrow> queue_row_of (candidate_resume qt ?t sp) j since sp)"
    unfolding x(1) prod.case by (intro queue_row_of_cong) (use R [OF sub [OF x(2)]] W [OF sub [OF x(2)]] x(3) in simp)
qed

subsection \<open>Several cells\<close>

definition group_rows ::
  "queue_tables \<Rightarrow> db \<Rightarrow> timestamp \<Rightarrow> (string \<times> int) list \<Rightarrow> uuid \<Rightarrow> uuid \<times> quota_cell \<Rightarrow> queue_row list" where
  "group_rows qt db now compatible t = (\<lambda>(u, c). queue_rows db now compatible t (fst c) (\<lambda>x. x = u)
     (\<lambda>_. latest [qt_resumed_at qt (TENANT t), qt_resumed_at qt (USER t u), snd c]))"

lemma group_rows_candidates:
  assumes ok: "queue_schema db" "queue_in_step qt db" "p \<in> set (tenant_policies db)"
  shows "mset (concat (map (group_rows qt db now compatible (tp_tenant_id p))
      (List.product (pr_users (prepare_tenant qt db capacity pending p)) (tenant_cells qt db capacity p)))) =
    mset (tenant_candidates qt db now compatible capacity p)"
proof -
  let ?t = "tp_tenant_id p" let ?P = "tenant_cells qt db capacity p" let ?J = "joined_rows db now compatible ?t"
  let ?us = "pr_users (prepare_tenant qt db capacity pending p)"
  let ?cell = "\<lambda>sp. \<lambda>c. c \<in> set ?P \<and> in_cell (fst c) (sp_cpu_millis sp) (sp_memory_bytes sp)"
  let ?f = "\<lambda>(j, since :: int, sp). (j_submitter_user_id j, the (cell_at ?P (sp_cpu_millis sp) (sp_memory_bytes sp)))"
  let ?c = "\<lambda>(j :: job_row, since :: int, sp). \<exists>c. ?cell sp c"
  let ?g = "\<lambda>(u, c). \<lambda>(j, since, sp). queue_row_of (\<lambda>_. latest [qt_resumed_at qt (TENANT ?t), qt_resumed_at qt (USER ?t u), snd c]) j since sp"
  have cell: "the (cell_at ?P (sp_cpu_millis sp) (sp_memory_bytes sp)) = c" if "?cell sp c" for sp c
  proof -
    have "cell_at ?P (sp_cpu_millis sp) (sp_memory_bytes sp) \<noteq> None"
      using that unfolding cell_at_def find_None_iff by blast
    then obtain c' where "cell_at ?P (sp_cpu_millis sp) (sp_memory_bytes sp) = Some c'" by blast
    moreover from this have "?cell sp c'" by (auto simp: cell_at_def find_Some_iff)
    ultimately show ?thesis using tenant_cells_unique(2) [OF ok(2,3)] that by fastforce
  qed
  have users: "distinct ?us" using ok(2) by (auto simp: queue_in_step_def distinct_map inj_on_def)
  have part: "group_rows qt db now compatible ?t q = map (?g q) (filter (\<lambda>r. ?f r = q \<and> ?c r) ?J)"
    if "q \<in> set (List.product ?us ?P)" for q
  proof -
    have q: "q = (fst q, snd q)" "snd q \<in> set ?P" using that by auto
    define u c where "u = fst q" and "c = snd q"
    then have q: "q = (u, c)" "c \<in> set ?P" using q by simp_all
    have "filter (\<lambda>(j, since, sp). j_submitter_user_id j = u \<and> in_cell (fst c) (sp_cpu_millis sp) (sp_memory_bytes sp)) ?J =
        filter (\<lambda>r. ?f r = q \<and> ?c r) ?J"
    proof (rule filter_cong [OF refl])
      fix x :: "job_row \<times> int \<times> spec_row"
      obtain j since sp where x: "x = (j, since, sp)" by (cases x)
      have "in_cell (fst c) (sp_cpu_millis sp) (sp_memory_bytes sp) \<longleftrightarrow>
          the (cell_at ?P (sp_cpu_millis sp) (sp_memory_bytes sp)) = c \<and> (\<exists>c'. ?cell sp c')"
        using cell [of _ sp] q(2) by metis
      then show "(case x of (j, since, sp) \<Rightarrow> j_submitter_user_id j = u \<and> in_cell (fst c) (sp_cpu_millis sp) (sp_memory_bytes sp)) =
          (?f x = q \<and> ?c x)" unfolding x q prod.case by blast
    qed
    then show ?thesis by (simp add: group_rows_def queue_rows_def q case_prod_beta)
  qed
  have "mset (concat (map (group_rows qt db now compatible ?t) (List.product ?us ?P))) =
      mset (concat (map (\<lambda>q. map (?g q) (filter (\<lambda>r. ?f r = q \<and> ?c r) ?J)) (List.product ?us ?P)))"
    by (intro arg_cong [where f = mset] arg_cong [where f = concat] map_cong refl part)
  also have "\<dots> = mset (map (\<lambda>r. ?g (?f r) r) (filter (\<lambda>r. ?f r \<in> set (List.product ?us ?P) \<and> ?c r) ?J))"
    by (rule mset_filter_partition) (rule distinct_product [OF users tenant_cells_unique(1) [OF ok(2,3)]])
  also have "map (\<lambda>r. ?g (?f r) r) (filter (\<lambda>r. ?f r \<in> set (List.product ?us ?P) \<and> ?c r) ?J) = tenant_candidates qt db now compatible capacity p"
    unfolding tenant_candidates_def Let_def
  proof (rule map_cong)
    show "filter (\<lambda>r. ?f r \<in> set (List.product ?us ?P) \<and> ?c r) ?J =
      filter (\<lambda>(j, since, sp). active_attempts_of db (USER ?t (j_submitter_user_id j)) < tp_user_active_limit p \<and>
        sp_cpu_millis sp \<le> fst (fit_limits db capacity p) \<and> sp_memory_bytes sp \<le> snd (fit_limits db capacity p)) ?J"
    proof (rule filter_cong [OF refl])
      fix x assume x: "x \<in> set ?J"
      obtain j since sp where e: "x = (j, since, sp)" by (cases x)
      have u: "j_submitter_user_id j \<in> set ?us \<longleftrightarrow> active_attempts_of db (USER ?t (j_submitter_user_id j)) < tp_user_active_limit p"
        using submitter_of_row [OF ok(2) x [unfolded e], of capacity pending] by simp
      have "?c x \<longleftrightarrow> sp_cpu_millis sp \<le> fst (fit_limits db capacity p) \<and> sp_memory_bytes sp \<le> snd (fit_limits db capacity p)"
        using tenant_cell_of(1) [OF ok x [unfolded e], of capacity] unfolding e prod.case by blast
      moreover have "?c x \<Longrightarrow> the (cell_at ?P (sp_cpu_millis sp) (sp_memory_bytes sp)) \<in> set ?P"
        unfolding e prod.case using cell [of _ sp] by metis
      ultimately show "(?f x \<in> set (List.product ?us ?P) \<and> ?c x) = (case x of (j, since, sp) \<Rightarrow>
          active_attempts_of db (USER ?t (j_submitter_user_id j)) < tp_user_active_limit p \<and>
          sp_cpu_millis sp \<le> fst (fit_limits db capacity p) \<and> sp_memory_bytes sp \<le> snd (fit_limits db capacity p))"
        using u unfolding e set_product by (simp only: prod.case mem_Sigma_iff) blast
    qed
  next
    fix x
    assume "x \<in> set (filter (\<lambda>(j, since, sp). active_attempts_of db (USER ?t (j_submitter_user_id j)) < tp_user_active_limit p \<and>
        sp_cpu_millis sp \<le> fst (fit_limits db capacity p) \<and> sp_memory_bytes sp \<le> snd (fit_limits db capacity p)) ?J)"
    then obtain j since sp where x: "x = (j, since, sp)" "(j, since, sp) \<in> set ?J"
      "sp_cpu_millis sp \<le> fst (fit_limits db capacity p) \<and> sp_memory_bytes sp \<le> snd (fit_limits db capacity p)" by auto
    then obtain c where c: "?cell sp c" using tenant_cell_of(1) [OF ok x(2), of capacity] by blast
    then show "?g (?f x) x = (case x of (j, since, sp) \<Rightarrow> queue_row_of (candidate_resume qt ?t sp) j since sp)"
      unfolding x(1) prod.case
      by (intro queue_row_of_cong) (use tenant_cell_of(2) [OF ok x(2), of c capacity "j_submitter_user_id j"] c cell [OF c] in simp)
  qed
  finally show ?thesis .
qed


lemma group_descriptors_rows:
  assumes "tenant_cells qt db capacity p \<noteq> []"
  shows "map (descriptor_rows db now compatible) (group_descriptors qt (prepare_tenant qt db capacity pending p) cursor) =
    map (group_rows qt db now compatible (tp_tenant_id p))
      (List.product (pr_users (prepare_tenant qt db capacity pending p)) (tenant_cells qt db capacity p))"
proof -
  let ?pr = "prepare_tenant qt db capacity pending p" let ?t = "tp_tenant_id p" let ?P = "tenant_cells qt db capacity p"
  let ?cells = "if length (pr_cells ?pr) > 1 then pr_cells ?pr else [(pr_bounds ?pr, None)]"
  have "map (descriptor_rows db now compatible) (map (\<lambda>((c0, c1, m0, m1), quota_resume).
        \<lparr>de_tenant_id = ?t, de_min_cpu = c0, de_max_cpu = c1, de_min_memory = m0, de_max_memory = m1, de_users = [u],
         de_resume_at = latest [pr_tenant_resume ?pr, qt_resumed_at qt (USER ?t u), quota_resume], de_cursor = cursor\<rparr>) ?cells) =
      map (group_rows qt db now compatible ?t) (map (Pair u) ?P)" for u
  proof (cases "length ?P > 1")
    case True
    then have "pr_tenant_resume ?pr = latest [qt_resumed_at qt (TENANT ?t), None]"
      by (auto simp: prepare_tenant_def Let_def split: list.split)
    then show ?thesis using True by (simp add: group_rows_def descriptor_rows_def latest_nested case_prod_beta comp_def)
  next
    case False
    then obtain b q where c: "?P = [(b, q)]" using assms by (cases ?P) auto
    then have "pr_tenant_resume ?pr = latest [qt_resumed_at qt (TENANT ?t), q]" "pr_bounds ?pr = b"
      by (simp_all add: prepare_tenant_def Let_def)
    then show ?thesis using c by (cases b) (simp add: group_rows_def descriptor_rows_def latest_nested)
  qed
  then show ?thesis
    unfolding group_descriptors_def Let_def product_concat_map map_concat prepare_tenant_simps map_map comp_def by (simp only:)
qed


subsection \<open>The window of a tenant\<close>

lemma tenant_candidates_facts:
  assumes "queue_schema db" "queue_in_step qt db"
  shows "distinct (map qr_job_id (tenant_candidates qt db now compatible capacity p))"
    and "r \<in> set (tenant_candidates qt db now compatible capacity p) \<Longrightarrow> qr_base_priority r \<in> {0, 1, 2} \<and>
      (tp_tenant_id p, qr_base_priority r) \<in> set (qt_queue_heads qt)"
proof -
  have "map qr_job_id (tenant_candidates qt db now compatible capacity p) = map (\<lambda>(j, _). j_job_id j)
      (filter (\<lambda>(j, since, sp). active_attempts_of db (USER (tp_tenant_id p) (j_submitter_user_id j)) < tp_user_active_limit p \<and>
        sp_cpu_millis sp \<le> fst (fit_limits db capacity p) \<and> sp_memory_bytes sp \<le> snd (fit_limits db capacity p))
      (joined_rows db now compatible (tp_tenant_id p)))"
    by (auto simp: tenant_candidates_def Let_def)
  then show "distinct (map qr_job_id (tenant_candidates qt db now compatible capacity p))"
    using assms(1) joined_rows_distinct by (simp add: distinct_map_filter queue_schema_def)
  assume "r \<in> set (tenant_candidates qt db now compatible capacity p)"
  then obtain j since sp where "(j, since, sp) \<in> set (joined_rows db now compatible (tp_tenant_id p))"
    "qr_base_priority r = j_base_priority j" by (auto simp: tenant_candidates_def Let_def)
  then show "qr_base_priority r \<in> {0, 1, 2} \<and> (tp_tenant_id p, qr_base_priority r) \<in> set (qt_queue_heads qt)"
    using joined_rows_mem assms by (simp add: queue_schema_def queue_in_step_def) metis
qed

lemma batch_read_reference:
  assumes "queue_schema db"
  shows "batch_read db now compatible d = (reference_window now (de_cursor d) (descriptor_rows db now compatible d),
    reference_oldest (descriptor_rows db now compatible d))"
proof (cases "compatible = []")
  case True
  then have "descriptor_rows db now compatible d = []"
    by (auto simp: descriptor_rows_def queue_rows_def filter_empty_conv dest: joined_rows_mem(8))
  then show ?thesis using True by (simp add: batch_read_def reference_window_def reference_oldest_def first_row_def)
next
  case False
  have "distinct (map qr_job_id (descriptor_rows db now compatible d))"
    unfolding descriptor_rows_def by (rule queue_rows_distinct) (use assms in \<open>simp_all add: queue_schema_def\<close>)
  moreover have "\<forall>r \<in> set (descriptor_rows db now compatible d). qr_base_priority r \<in> {0, 1, 2}"
    unfolding descriptor_rows_def using assms by (auto elim!: queue_rows_job simp: queue_schema_def)
  ultimately show ?thesis using False batched_window_reference by (simp add: batch_read_def)
qed

lemma grouped_window_reference:
  assumes ok: "queue_schema db" "queue_in_step qt db" "p \<in> set (tenant_policies db)" and "tenant_cells qt db capacity p \<noteq> []"
  shows "grouped_window qt db now compatible (prepare_tenant qt db capacity pending p) cursor =
    reference_read now cursor (tenant_candidates qt db now compatible capacity p)"
proof -
  let ?pr = "prepare_tenant qt db capacity pending p" let ?all = "tenant_candidates qt db now compatible capacity p"
  have ids: "distinct (map qr_job_id ?all)" by (rule tenant_candidates_facts(1) [OF ok(1,2)])
  have group: "merged_group (map (batch_read db now compatible) (group_descriptors qt ?pr c)) = (reference_window now c ?all, reference_oldest ?all)" for c
  proof -
    let ?gs = "map (descriptor_rows db now compatible) (group_descriptors qt ?pr c)"
    have m: "mset (concat ?gs) = mset ?all" unfolding group_descriptors_rows [OF assms(4)] by (rule group_rows_candidates [OF ok])
    then have d: "distinct (map qr_job_id (concat ?gs))" using ids mset_eq_imp_distinct_iff [of "map qr_job_id (concat ?gs)" "map qr_job_id ?all"]
      by (simp add: mset_map del: mset_concat)
    have "de_cursor x = c" if "x \<in> set (group_descriptors qt ?pr c)" for x
      using that by (auto simp: group_descriptors_def Let_def)
    then have r: "map (batch_read db now compatible) (group_descriptors qt ?pr c) = map (\<lambda>g. (reference_window now c g, reference_oldest g)) ?gs"
      by (simp add: batch_read_reference [OF ok(1)])
    show ?thesis unfolding r merged_group_reference [OF d] reference_read_mset [OF m d] ..
  qed
  then show ?thesis by (cases cursor) (auto simp: grouped_window_def reference_read_def Let_def group)
qed


lemma tenant_window_reference:
  assumes ok: "queue_schema db" "queue_in_step qt db" "p \<in> set (tenant_policies db)"
    and may: "may_dispatch (prepare_tenant qt db capacity pending p)"
  shows "tenant_window qt db now compatible (prepare_tenant qt db capacity pending p) cursor =
    reference_read now cursor (tenant_candidates qt db now compatible capacity p)"
proof -
  let ?pr = "prepare_tenant qt db capacity pending p" let ?t = "tp_tenant_id p" let ?all = "tenant_candidates qt db now compatible capacity p"
  let ?P = "tenant_cells qt db capacity p"
  have P: "?P \<noteq> []" "pr_users ?pr \<noteq> []" using may by (simp_all add: may_dispatch_def prepare_tenant_def Let_def)
  show ?thesis
  proof (cases "length ?P = 1 \<and> (pr_no_resume ?pr \<or> length (pr_submitters ?pr) < 2)")
    case False
    then show ?thesis using may grouped_window_reference [OF ok P(1)] by (simp add: tenant_window_def)
  next
    case True
    then obtain b q where c: "?P = [(b, q)]" by (cases ?P) auto
    have bounds: "pr_bounds ?pr = b" and T: "pr_tenant_resume ?pr = latest [qt_resumed_at qt (TENANT ?t), q]"
      using c by (simp_all add: prepare_tenant_def Let_def)
    have W: "u \<in> set (pr_users ?pr) \<longleftrightarrow> active_attempts_of db (USER ?t u) < tp_user_active_limit p"
      if "u \<in> set (pr_submitters ?pr)" for u using that by auto
    note rows = single_cell_candidates [OF ok c, where pending = pending]
    have none: "latest [qt_resumed_at qt (TENANT ?t), qt_resumed_at qt (USER ?t u), q] = None"
      if "pr_no_resume ?pr" "u \<in> set (pr_submitters ?pr)" for u
      using that c by (auto simp: prepare_tenant_def Let_def latest_None list_all_iff)
    have sole: "pr_resume_at ?pr = latest [qt_resumed_at qt (TENANT ?t), qt_resumed_at qt (USER ?t u), q]"
      if "pr_submitters ?pr = [u]" for u
      using that c by (simp add: prepare_tenant_def Let_def latest_nested)
    have resumed: "queue_rows db now compatible ?t b (\<lambda>u. u \<in> set (pr_users ?pr)) (\<lambda>_. Some t) = ?all" if r: "pr_resume_at ?pr = Some t" for t
    proof -
      obtain u where u: "pr_submitters ?pr = [u]"
        using r by (auto simp: prepare_tenant_def Let_def split: list.splits)
      show ?thesis by (rule rows) (use W sole [OF u] u r in \<open>simp_all del: prepare_tenant_simps\<close>)
    qed
    have batch: "batch_read db now compatible (plain_descriptor ?pr r) = reference_read now None ?all"
      if "queue_rows db now compatible ?t b (\<lambda>u. u \<in> set (pr_users ?pr)) (\<lambda>_. r) = ?all" for r
    proof -
      have "descriptor_rows db now compatible (plain_descriptor ?pr r) = ?all" "de_cursor (plain_descriptor ?pr r) = None"
        using that by (simp_all add: plain_descriptor_def descriptor_rows_def bounds case_prod_beta)
      then show ?thesis using batch_read_reference [OF ok(1)] by (simp add: reference_read_def)
    qed
    have plain: "queue_rows db now compatible ?t b (\<lambda>u. u \<in> set (pr_users ?pr)) (\<lambda>_. None) = ?all" if "pr_no_resume ?pr"
      by (rule rows) (use W none that in \<open>simp_all del: prepare_tenant_simps\<close>)
    have query: "tenant_query qt db now compatible ?pr = ?all"
    proof -
      have "tenant_query qt db now compatible ?pr = queue_rows db now compatible ?t b (\<lambda>u. pr_users ?pr \<noteq> [] \<longrightarrow> u \<in> set (pr_users ?pr))
          (\<lambda>u. if pr_no_resume ?pr then None else if length (pr_submitters ?pr) = 1 then pr_resume_at ?pr
             else latest [pr_tenant_resume ?pr, qt_resumed_at qt (USER ?t u)])"
        using may unfolding tenant_query_def Let_def bounds prepare_tenant_simps(1) may_dispatch_def by simp
      also have "\<dots> = ?all"
      proof (rule rows)
        fix u assume u: "u \<in> set (pr_submitters ?pr)"
        show "(pr_users ?pr \<noteq> [] \<longrightarrow> u \<in> set (pr_users ?pr)) \<longleftrightarrow> active_attempts_of db (USER ?t u) < tp_user_active_limit p"
          using W [OF u] P(2) by (simp del: prepare_tenant_simps)
        have "pr_submitters ?pr = [u]" if "\<not> pr_no_resume ?pr"
          using that True u by (cases "pr_submitters ?pr" rule: list.exhaust)
            (auto simp: length_Suc_conv less_Suc_eq numeral_2_eq_2 simp del: prepare_tenant_simps)
        then show "(if pr_no_resume ?pr then None else if length (pr_submitters ?pr) = 1 then pr_resume_at ?pr
             else latest [pr_tenant_resume ?pr, qt_resumed_at qt (USER ?t u)]) =
            latest [qt_resumed_at qt (TENANT ?t), qt_resumed_at qt (USER ?t u), q]"
          using none [OF _ u] sole [of u] by (cases "pr_no_resume ?pr") (simp_all del: prepare_tenant_simps)
      qed
      finally show ?thesis .
    qed
    have "window_rows db ?all now cursor (snd ` set (filter (\<lambda>(t, _). t = ?t) (qt_queue_heads qt))) (pr_resume_at ?pr) ?t (pr_users ?pr) =
        reference_read now cursor ?all"
    proof (rule window_rows_reference [OF tenant_candidates_facts(1) [OF ok(1,2)]])
      show "\<forall>r \<in> set ?all. qr_base_priority r \<in> {0, 1, 2} \<inter> snd ` set (filter (\<lambda>(t, _). t = ?t) (qt_queue_heads qt))"
        using tenant_candidates_facts(2) [OF ok(1,2)] by force
      fix t assume t: "pr_resume_at ?pr = Some t"
      show "\<forall>r \<in> set ?all. qr_effective_since r = max (qr_eligible_since r) t \<and>
          (qr_eligible_since r \<le> t \<longrightarrow> clipped_age_exists db ?t (pr_users ?pr) (qr_base_priority r) t)"
        unfolding resumed [OF t, symmetric]
        by (auto elim!: queue_rows_job simp: clipped_age_exists_def list_ex_iff simp del: prepare_tenant_simps)
    qed
    then show ?thesis using may True batch [OF plain] batch [OF resumed] unfolding tenant_window_def prepare_tenant_simps(1,2) query by auto
  qed
qed

end
