(* ===== verification/Job_Lifecycle.thy ===== *)
theory Job_Lifecycle
  imports Execution_Cleanup Coordinator_Dispatch
begin

section \<open>The life of a job\<close>

text \<open>
  What the tables say about one job: its row with its attempts, allocations, leases, grants, events,
  retries and results.  An operation changes the part of one job and leaves all others alone; the
  invariant of the store is an invariant of every part, the distinctness of keys, and the exactness
  of the admission counters.
\<close>

record job_part =
  p_jobs :: "job_row list"
  p_attempts :: "attempt_row list"
  p_allocations :: "allocation_row list"
  p_leases :: "lease_row list"
  p_grants :: "grant_row list"
  p_events :: "event_row list"
  p_retries :: "retry_row list"
  p_results :: "result_row list"

definition part :: "db \<Rightarrow> uuid \<Rightarrow> job_part" where
  "part db x = \<lparr>p_jobs = filter (\<lambda>r. j_job_id r = x) (jobs db),
     p_attempts = filter (\<lambda>r. a_job_id r = x) (attempts db),
     p_allocations = filter (\<lambda>r. al_job_id r = x) (allocations db),
     p_leases = filter (\<lambda>r. l_job_id r = x) (attempt_leases db),
     p_grants = filter (\<lambda>r. g_job_id r = x) (attempt_authority_grants db),
     p_events = filter (\<lambda>r. e_job_id r = x) (events db),
     p_retries = filter (\<lambda>r. rs_job_id r = x) (retry_schedules db),
     p_results = filter (\<lambda>r. re_job_id r = x) (results db)\<rparr>"

definition empty_part :: job_part where
  "empty_part = \<lparr>p_jobs = [], p_attempts = [], p_allocations = [], p_leases = [], p_grants = [], p_events = [],
     p_retries = [], p_results = []\<rparr>"

subsection \<open>Phases\<close>

definition unreleased :: "job_part \<Rightarrow> allocation_row list" where
  "unreleased p = filter (\<lambda>al. al_state al \<noteq> S_RELEASED) (p_allocations p)"

definition live_leases :: "job_part \<Rightarrow> lease_row list" where
  "live_leases p = filter (\<lambda>l. l_revoked_at l = None) (p_leases p)"

definition live_grants :: "job_part \<Rightarrow> grant_row list" where
  "live_grants p = filter (\<lambda>g. g_ended_at g = None) (p_grants p)"

text \<open>No resources and no authority; one attempt with both; one allocation whose container may still run,
  without authority.\<close>

definition idle :: "job_part \<Rightarrow> bool" where
  "idle p \<longleftrightarrow> unreleased p = [] \<and> live_leases p = [] \<and> live_grants p = []"

definition held_by :: "job_part \<Rightarrow> attempt_row \<Rightarrow> allocation_row \<Rightarrow> lease_row \<Rightarrow> grant_row \<Rightarrow> bool" where
  "held_by p a al l g \<longleftrightarrow> unreleased p = [al] \<and> live_leases p = [l] \<and> live_grants p = [g] \<and>
     a \<in> set (p_attempts p) \<and> al_state al = S_HELD \<and> al_attempt_id al = a_attempt_id a \<and>
     l_attempt_id l = a_attempt_id a \<and> l_allocation_id l = al_allocation_id al \<and>
     g_attempt_id g = a_attempt_id a \<and> g_allocation_id g = al_allocation_id al \<and> g_lease_id g = l_lease_id l \<and>
     l_job_fence l = a_job_fence a \<and> g_job_fence g = a_job_fence a"

definition quarantined_by :: "job_part \<Rightarrow> attempt_row \<Rightarrow> allocation_row \<Rightarrow> bool" where
  "quarantined_by p a al \<longleftrightarrow> unreleased p = [al] \<and> live_leases p = [] \<and> live_grants p = [] \<and>
     a \<in> set (p_attempts p) \<and> al_state al = S_QUARANTINED \<and> al_attempt_id al = a_attempt_id a"

definition intent_of :: "job_row \<Rightarrow> intent" where
  "intent_of j = (case j_recovery_intent j of None \<Rightarrow> RUN | Some i \<Rightarrow> i)"

definition held_in :: "job_row \<Rightarrow> job_part \<Rightarrow> attempt_state set \<Rightarrow> bool" where
  "held_in j p states \<longleftrightarrow> (\<exists>a al l g. held_by p a al l g \<and> a_job_fence a = j_job_fence j \<and>
     a_execution_intent a = intent_of j \<and> a_state a \<in> states)"

definition phase_ok :: "job_row \<Rightarrow> job_part \<Rightarrow> bool" where
  "phase_ok j p = (case j_state j of
     J_DISPATCHING \<Rightarrow> held_in j p {A_CREATED, A_CLAIMED}
   | J_RUNNING \<Rightarrow> held_in j p {A_RUNNING, A_CHECKPOINTING}
   | J_PAUSING \<Rightarrow> held_in j p {A_RUNNING, A_CHECKPOINTING, A_STOPPING}
   | J_RECOVERING \<Rightarrow> (\<exists>a al. quarantined_by p a al \<and> a_failure_class a \<noteq> None)
   | J_CANCELLING \<Rightarrow> (\<exists>a al. quarantined_by p a al)
   | J_SUCCEEDED \<Rightarrow> idle p \<or> held_in j p {A_SUCCEEDED} \<or> (\<exists>a al. quarantined_by p a al)
   | _ \<Rightarrow> idle p)"

subsection \<open>The invariant\<close>

text \<open>The rows of the attempts of a job stand side by side in the three tables a dispatch fills, with
  numbers that count up and fences that grow.\<close>

definition attempts_ok :: "job_row \<Rightarrow> job_part \<Rightarrow> bool" where
  "attempts_ok j p \<longleftrightarrow> map al_attempt_id (p_allocations p) = map a_attempt_id (p_attempts p) \<and>
     map l_attempt_id (p_leases p) = map a_attempt_id (p_attempts p) \<and>
     g_attempt_id ` set (p_grants p) \<subseteq> a_attempt_id ` set (p_attempts p) \<and>
     map a_attempt_number (p_attempts p) = [1..int (length (p_attempts p))] \<and>
     sorted_wrt (<) (map a_job_fence (p_attempts p)) \<and>
     (\<forall>a \<in> set (p_attempts p). 1 \<le> a_job_fence a \<and> a_job_fence a \<le> j_job_fence j) \<and> 0 \<le> j_job_fence j"

definition control_ok :: "job_row \<Rightarrow> bool" where
  "control_ok j \<longleftrightarrow> (j_desired_state j = D_RUNNING \<longrightarrow> j_recovery_intent j = None) \<and>
     (j_state j \<in> {J_QUEUED, J_RETRY_WAIT, J_DISPATCHING} \<longrightarrow> (j_desired_state j, j_recovery_intent j) \<in> dispatchable) \<and>
     (j_state j \<in> {J_RUNNING, J_SUCCEEDED} \<longrightarrow> j_desired_state j = D_RUNNING) \<and>
     (j_state j \<in> {J_PAUSING, J_PAUSED} \<longrightarrow> j_desired_state j = D_PAUSED) \<and>
     (j_desired_state j = D_CANCELLED \<longleftrightarrow> j_state j \<in> {J_CANCELLING, J_CANCELLED}) \<and>
     (j_state j \<in> insert J_PAUSED terminal_states \<longrightarrow> j_recovery_intent j = None) \<and>
     (j_terminal_at j \<noteq> None \<longleftrightarrow> j_state j \<in> terminal_states)"

definition retries_ok :: "job_row \<Rightarrow> job_part \<Rightarrow> bool" where
  "retries_ok j p \<longleftrightarrow> map rs_retry_number (p_retries p) = [1..j_retry_count j] \<and>
     map rs_retry_number (filter (\<lambda>r. rs_closed_at r = None) (p_retries p)) =
       (if j_state j = J_RETRY_WAIT then [j_retry_count j] else []) \<and>
     0 \<le> j_retry_count j \<and> j_retry_count j \<le> j_max_retries j"

definition log_ok :: "job_row \<Rightarrow> job_part \<Rightarrow> bool" where
  "log_ok j p \<longleftrightarrow> map e_sequence (p_events p) = [1..j_event_sequence j] \<and> 1 \<le> j_event_sequence j \<and> 1 \<le> j_version j"

definition results_ok :: "job_row \<Rightarrow> job_part \<Rightarrow> bool" where
  "results_ok j p \<longleftrightarrow> length (p_results p) = (if j_state j = J_SUCCEEDED then 1 else 0)"

definition job_inv :: "job_row \<Rightarrow> job_part \<Rightarrow> bool" where
  "job_inv j p \<longleftrightarrow> attempts_ok j p \<and> phase_ok j p \<and> control_ok j \<and> retries_ok j p \<and> log_ok j p \<and> results_ok j p"

definition part_inv :: "job_part \<Rightarrow> bool" where
  "part_inv p \<longleftrightarrow> p = empty_part \<or> (\<exists>j. p_jobs p = [j] \<and> job_inv j p)"

definition keys_ok :: "db \<Rightarrow> bool" where
  "keys_ok db \<longleftrightarrow> distinct (map a_attempt_id (attempts db)) \<and> distinct (map al_allocation_id (allocations db)) \<and>
     distinct (map l_lease_id (attempt_leases db)) \<and> distinct (map g_grant_id (attempt_authority_grants db))"

text \<open>What one job contributes to the counters of a scope: a job that has not ended is outstanding, an
  allocation that is not released is active.\<close>

definition outstanding_of :: "scope \<Rightarrow> job_part \<Rightarrow> int" where
  "outstanding_of s p = (case p_jobs p of
     [j] \<Rightarrow> if s \<in> set (counter_scopes j) \<and> j_state j \<notin> terminal_states then 1 else 0 | _ \<Rightarrow> 0)"

definition active_of :: "scope \<Rightarrow> job_part \<Rightarrow> int" where
  "active_of s p = (case p_jobs p of
     [j] \<Rightarrow> if s \<in> set (counter_scopes j) then int (length (unreleased p)) else 0 | _ \<Rightarrow> 0)"

definition counted :: "(scope \<Rightarrow> job_part \<Rightarrow> int) \<Rightarrow> db \<Rightarrow> scope \<Rightarrow> int" where
  "counted w db s = (\<Sum>x \<leftarrow> map j_job_id (jobs db). w s (part db x))"

definition counters_ok :: "db \<Rightarrow> bool" where
  "counters_ok db \<longleftrightarrow> distinct (map k_scope (admission_counters db)) \<and>
     (\<forall>k \<in> set (admission_counters db). k_outstanding k = counted outstanding_of db (k_scope k) \<and>
        k_active_attempts k = counted active_of db (k_scope k)) \<and>
     (\<forall>j \<in> set (jobs db). set (counter_scopes j) \<subseteq> k_scope ` set (admission_counters db))"

definition inv :: "db \<Rightarrow> bool" where
  "inv db \<longleftrightarrow> keys_ok db \<and> (\<forall>x. part_inv (part db x)) \<and> counters_ok db"

subsection \<open>The documented state machine\<close>

text \<open>The transition table of \<^verbatim>\<open>src/docs/contracts/state-machines.md\<close>, one rule for each row.  Every
  transition raises the version and appends one event; the exceptions are events that keep the version
  (\<open>noted\<close>, \<open>revoke\<close>) and marks that append no event (\<open>mark\<close>).\<close>

datatype phase = Idle | Held | Quarantined

record machine =
  m_state :: job_state
  m_desired :: desired_state
  m_intent :: "intent option"
  m_retries :: int
  m_max_retries :: int
  m_fence :: int
  m_version :: int
  m_events :: int
  m_phase :: phase

definition tick :: "machine \<Rightarrow> machine" where
  "tick m = m\<lparr>m_version := m_version m + 1, m_events := m_events m + 1\<rparr>"

definition initial :: machine where
  "initial = \<lparr>m_state = J_QUEUED, m_desired = D_RUNNING, m_intent = None, m_retries = 0, m_max_retries = 2,
     m_fence = 0, m_version = 1, m_events = 1, m_phase = Idle\<rparr>"

inductive transition_row :: "machine \<Rightarrow> machine \<Rightarrow> bool" where
  dispatch: "m_state m = J_QUEUED \<Longrightarrow> (m_desired m, m_intent m) \<in> dispatchable \<Longrightarrow> m_phase m = Idle \<Longrightarrow>
    transition_row m (tick (m\<lparr>m_state := J_DISPATCHING, m_fence := m_fence m + 1, m_phase := Held\<rparr>))"
| start: "m_state m = J_DISPATCHING \<Longrightarrow> m_desired m = D_RUNNING \<Longrightarrow> m_phase m = Held \<Longrightarrow>
    transition_row m (tick (m\<lparr>m_state := J_RUNNING\<rparr>))"
| start_for_pause: "m_state m = J_DISPATCHING \<Longrightarrow> m_desired m = D_PAUSED \<Longrightarrow> m_intent m = Some CHECKPOINT_FOR_PAUSE \<Longrightarrow>
    m_phase m = Held \<Longrightarrow> transition_row m (tick (m\<lparr>m_state := J_PAUSING\<rparr>))"
| complete: "m_state m = J_RUNNING \<Longrightarrow> m_desired m = D_RUNNING \<Longrightarrow> m_phase m = Held \<Longrightarrow>
    transition_row m (tick (m\<lparr>m_state := J_SUCCEEDED\<rparr>))"
| pause: "m_state m = J_RUNNING \<Longrightarrow> m_desired m = D_RUNNING \<Longrightarrow>
    transition_row m (tick (m\<lparr>m_state := J_PAUSING, m_desired := D_PAUSED\<rparr>))"
| pause_aborted: "m_state m = J_PAUSING \<Longrightarrow> m_desired m = D_PAUSED \<Longrightarrow> m_intent m = None \<Longrightarrow> m_phase m = Held \<Longrightarrow>
    transition_row m (tick (m\<lparr>m_state := J_RUNNING, m_desired := D_RUNNING\<rparr>))"
| paused: "m_state m = J_PAUSING \<Longrightarrow> m_desired m = D_PAUSED \<Longrightarrow>
    transition_row m (tick (m\<lparr>m_state := J_PAUSED, m_intent := None, m_phase := Idle\<rparr>))"
| fault: "m_state m \<in> {J_DISPATCHING, J_RUNNING, J_PAUSING} \<Longrightarrow> m_phase m = Held \<Longrightarrow>
    transition_row m (tick (m\<lparr>m_state := J_RECOVERING, m_fence := m_fence m + 1, m_phase := Quarantined\<rparr>))"
| recover_retry: "m_state m = J_RECOVERING \<Longrightarrow> m_phase m = Quarantined \<Longrightarrow> m_retries m < m_max_retries m \<Longrightarrow>
    transition_row m (tick (m\<lparr>m_state := J_RETRY_WAIT, m_retries := m_retries m + 1, m_phase := Idle,
      m_intent := (if m_desired m = D_PAUSED then Some CHECKPOINT_FOR_PAUSE else m_intent m)\<rparr>))"
| recover_paused: "m_state m = J_RECOVERING \<Longrightarrow> m_phase m = Quarantined \<Longrightarrow> m_desired m = D_PAUSED \<Longrightarrow>
    transition_row m (tick (m\<lparr>m_state := J_PAUSED, m_intent := None, m_phase := Idle\<rparr>))"
| recover_failed: "m_state m = J_RECOVERING \<Longrightarrow> m_phase m = Quarantined \<Longrightarrow>
    transition_row m (tick (m\<lparr>m_state := J_FAILED, m_intent := None, m_phase := Idle\<rparr>))"
| backoff_due: "m_state m = J_RETRY_WAIT \<Longrightarrow> (m_desired m, m_intent m) \<in> dispatchable \<Longrightarrow>
    transition_row m (tick (m\<lparr>m_state := J_QUEUED\<rparr>))"
| cancel_waiting: "m_state m \<in> {J_QUEUED, J_RETRY_WAIT, J_PAUSED} \<Longrightarrow> m_phase m = Idle \<Longrightarrow>
    transition_row m (tick (m\<lparr>m_state := J_CANCELLED, m_desired := D_CANCELLED, m_intent := None\<rparr>))"
| cancel_active: "m_state m \<in> {J_DISPATCHING, J_RUNNING, J_PAUSING} \<Longrightarrow> m_phase m = Held \<Longrightarrow>
    transition_row m (tick (m\<lparr>m_state := J_CANCELLING, m_desired := D_CANCELLED, m_fence := m_fence m + 1,
      m_phase := Quarantined\<rparr>))"
| cancel_recovering: "m_state m = J_RECOVERING \<Longrightarrow>
    transition_row m (tick (m\<lparr>m_state := J_CANCELLING, m_desired := D_CANCELLED\<rparr>))"
| cancelled: "m_state m = J_CANCELLING \<Longrightarrow> m_phase m = Quarantined \<Longrightarrow>
    transition_row m (tick (m\<lparr>m_state := J_CANCELLED, m_intent := None, m_phase := Idle\<rparr>))"
| resume: "m_state m = J_PAUSED \<Longrightarrow>
    transition_row m (tick (m\<lparr>m_state := J_QUEUED, m_desired := D_RUNNING, m_intent := None\<rparr>))"
| release: "m_state m = J_SUCCEEDED \<Longrightarrow> m_phase m \<noteq> Idle \<Longrightarrow> transition_row m (tick (m\<lparr>m_phase := Idle\<rparr>))"
| revoke: "m_state m = J_SUCCEEDED \<Longrightarrow> m_phase m = Held \<Longrightarrow>
    transition_row m (m\<lparr>m_phase := Quarantined, m_events := m_events m + 1\<rparr>)"
| remark: "transition_row m (tick m)"
| noted: "m_state m \<notin> terminal_states \<Longrightarrow> transition_row m (m\<lparr>m_events := m_events m + 1\<rparr>)"
| mark: "m_state m = J_QUEUED \<Longrightarrow> transition_row m (m\<lparr>m_version := m_version m + 1\<rparr>)"

definition phase_of :: "job_part \<Rightarrow> phase" where
  "phase_of p = (case unreleased p of [] \<Rightarrow> Idle | al # _ \<Rightarrow> if al_state al = S_HELD then Held else Quarantined)"

definition machine_of :: "job_row \<Rightarrow> job_part \<Rightarrow> machine" where
  "machine_of j p = \<lparr>m_state = j_state j, m_desired = j_desired_state j, m_intent = j_recovery_intent j,
     m_retries = j_retry_count j, m_max_retries = j_max_retries j, m_fence = j_job_fence j, m_version = j_version j,
     m_events = j_event_sequence j, m_phase = phase_of p\<rparr>"

definition abstract :: "job_part \<Rightarrow> machine option" where
  "abstract p = (case p_jobs p of [j] \<Rightarrow> Some (machine_of j p) | _ \<Rightarrow> None)"

text \<open>What a transaction does to a job: it is created in the initial state, or moves along rows of the
  table.\<close>

definition moves :: "machine option \<Rightarrow> machine option \<Rightarrow> bool" where
  "moves m m' = (case (m, m') of (None, None) \<Rightarrow> True | (Some _, None) \<Rightarrow> False
     | (None, Some b) \<Rightarrow> transition_row\<^sup>*\<^sup>* initial b | (Some a, Some b) \<Rightarrow> transition_row\<^sup>*\<^sup>* a b)"

definition store_moves :: "db \<Rightarrow> db \<Rightarrow> bool" where
  "store_moves db db' \<longleftrightarrow> (\<forall>x. moves (abstract (part db x)) (abstract (part db' x)))"

subsection \<open>Lemmas on filtered updates\<close>

lemma filter_update_where_key:
  "(\<And>r. k (f r) = k r) \<Longrightarrow>
   filter (\<lambda>r. k r = x) (update_where p f t) = update_where p f (filter (\<lambda>r. k r = x) t)"
  by (induction t) simp_all

lemma update_where_filter_other:
  "y \<noteq> x \<Longrightarrow> update_where (\<lambda>r. k r = x) f (filter (\<lambda>r. k r = y) t) = filter (\<lambda>r. k r = y) t"
  by (induction t) simp_all

lemma filter_update_drop:
  assumes "filter Q t = [r]" "p r" "\<And>y. y \<in> set t \<Longrightarrow> p y \<Longrightarrow> \<not> Q (f y)"
  shows "filter Q (update_where p f t) = []"
proof -
  have "\<not> Q (if p y then f y else y)" if "y \<in> set t" for y
  proof (cases "p y")
    case True
    with assms(3) \<open>y \<in> set t\<close> show ?thesis by simp
  next
    case False
    then have "y \<noteq> r" using assms(2) by blast
    moreover have "Q y \<Longrightarrow> y \<in> set (filter Q t)" using \<open>y \<in> set t\<close> by simp
    ultimately have "\<not> Q y" using assms(1) by auto
    with False show ?thesis by simp
  qed
  then show ?thesis unfolding update_where_def filter_map filter_empty_conv map_is_Nil_conv comp_def by blast
qed

lemma filter_update_keep:
  assumes "\<And>y. y \<in> set t \<Longrightarrow> p y \<Longrightarrow> Q (f y) \<longleftrightarrow> Q y"
  shows "filter Q (update_where p f t) = update_where p f (filter Q t)"
  using assms by (induction t) simp_all

lemma filter_update_same:
  assumes "\<And>y. y \<in> set t \<Longrightarrow> p y \<Longrightarrow> \<not> Q y \<and> \<not> Q (f y)"
  shows "filter Q (update_where p f t) = filter Q t"
  using assms by (induction t) simp_all

lemma filter_singleton_mem: "filter Q t = [r] \<Longrightarrow> y \<in> set t \<Longrightarrow> Q y \<Longrightarrow> y = r"
  using set_filter [of Q t] by auto

lemma distinct_map_inj: "distinct (map k t) \<Longrightarrow> y \<in> set t \<Longrightarrow> z \<in> set t \<Longrightarrow> k y = k z \<Longrightarrow> y = z"
  unfolding distinct_map by (blast dest: inj_onD)

lemma distinct_map_if_filter:
  "(\<And>x. length (filter (\<lambda>j. k j = x) t) \<le> 1) \<Longrightarrow> distinct (map k t)"
proof (induction t)
  case (Cons a t)
  have "length (filter (\<lambda>j. k j = x) t) \<le> 1" for x
    using Cons.prems [of x] by (simp split: if_splits)
  then have "distinct (map k t)" by (rule Cons.IH)
  moreover have "filter (\<lambda>j. k j = k a) t = []" using Cons.prems [of "k a"] by simp
  then have "k a \<notin> k ` set t" by (auto simp: filter_empty_conv)
  ultimately show ?case by simp
qed simp

lemma upto_snoc: "0 \<le> n \<Longrightarrow> [1..n] @ [n + 1] = [1..n + (1::int)]"
  by (simp add: upto_rec2 [of 1 "n + 1"])

subsection \<open>Lemmas on parts\<close>

lemma part_sels [simp]:
  "p_jobs (part db x) = filter (\<lambda>r. j_job_id r = x) (jobs db)"
  "p_attempts (part db x) = filter (\<lambda>r. a_job_id r = x) (attempts db)"
  "p_allocations (part db x) = filter (\<lambda>r. al_job_id r = x) (allocations db)"
  "p_leases (part db x) = filter (\<lambda>r. l_job_id r = x) (attempt_leases db)"
  "p_grants (part db x) = filter (\<lambda>r. g_job_id r = x) (attempt_authority_grants db)"
  "p_events (part db x) = filter (\<lambda>r. e_job_id r = x) (events db)"
  "p_retries (part db x) = filter (\<lambda>r. rs_job_id r = x) (retry_schedules db)"
  "p_results (part db x) = filter (\<lambda>r. re_job_id r = x) (results db)"
  by (simp_all add: part_def)

lemma empty_part_sels [simp]:
  "p_jobs empty_part = []" "p_attempts empty_part = []" "p_allocations empty_part = []"
  "p_leases empty_part = []" "p_grants empty_part = []" "p_events empty_part = []"
  "p_retries empty_part = []" "p_results empty_part = []"
  by (simp_all add: empty_part_def)

lemma part_eqI:
  assumes "p_jobs p = p_jobs q" "p_attempts p = p_attempts q" "p_allocations p = p_allocations q"
    "p_leases p = p_leases q" "p_grants p = p_grants q" "p_events p = p_events q" "p_retries p = p_retries q"
    "p_results p = p_results q"
  shows "p = (q :: job_part)"
  using assms by simp

lemma part_cong:
  assumes "jobs db' = jobs db" "attempts db' = attempts db" "allocations db' = allocations db"
    "attempt_leases db' = attempt_leases db" "attempt_authority_grants db' = attempt_authority_grants db"
    "events db' = events db" "retry_schedules db' = retry_schedules db" "results db' = results db"
  shows "part db' x = part db x"
  using assms by (simp add: part_def)

text \<open>The rows that matter to a phase do not depend on the job row or its events.\<close>

lemma phase_frame [simp]:
  "unreleased (p\<lparr>p_jobs := js\<rparr>) = unreleased p" "unreleased (p\<lparr>p_events := es\<rparr>) = unreleased p"
  "live_leases (p\<lparr>p_jobs := js\<rparr>) = live_leases p" "live_leases (p\<lparr>p_events := es\<rparr>) = live_leases p"
  "live_grants (p\<lparr>p_jobs := js\<rparr>) = live_grants p" "live_grants (p\<lparr>p_events := es\<rparr>) = live_grants p"
  by (simp_all add: unreleased_def live_leases_def live_grants_def)

lemma holder_frame [simp]:
  "idle (p\<lparr>p_jobs := js\<rparr>) = idle p" "idle (p\<lparr>p_events := es\<rparr>) = idle p"
  "held_by (p\<lparr>p_jobs := js\<rparr>) = held_by p" "held_by (p\<lparr>p_events := es\<rparr>) = held_by p"
  "quarantined_by (p\<lparr>p_jobs := js\<rparr>) = quarantined_by p" "quarantined_by (p\<lparr>p_events := es\<rparr>) = quarantined_by p"
  "held_in j (p\<lparr>p_jobs := js\<rparr>) = held_in j p" "held_in j (p\<lparr>p_events := es\<rparr>) = held_in j p"
  by (simp_all add: fun_eq_iff held_in_def held_by_def quarantined_by_def idle_def)

lemma ok_frame [simp]:
  "attempts_ok j (p\<lparr>p_jobs := js\<rparr>) = attempts_ok j p" "attempts_ok j (p\<lparr>p_events := es\<rparr>) = attempts_ok j p"
  "retries_ok j (p\<lparr>p_jobs := js\<rparr>) = retries_ok j p" "retries_ok j (p\<lparr>p_events := es\<rparr>) = retries_ok j p"
  "results_ok j (p\<lparr>p_jobs := js\<rparr>) = results_ok j p" "results_ok j (p\<lparr>p_events := es\<rparr>) = results_ok j p"
  "log_ok j (p\<lparr>p_jobs := js\<rparr>) = log_ok j p" "log_ok j (p\<lparr>p_jobs := js, p_events := es\<rparr>) = log_ok j (p\<lparr>p_events := es\<rparr>)"
  by (simp_all add: attempts_ok_def retries_ok_def results_ok_def log_ok_def)

lemma phase_ok_frame [simp]:
  "phase_ok j (p\<lparr>p_jobs := js\<rparr>) = phase_ok j p" "phase_ok j (p\<lparr>p_events := es\<rparr>) = phase_ok j p"
  by (cases "j_state j"; simp add: phase_ok_def)+

lemma machine_frame [simp]:
  "phase_of (p\<lparr>p_jobs := js\<rparr>) = phase_of p" "phase_of (p\<lparr>p_events := es\<rparr>) = phase_of p"
  "machine_of j (p\<lparr>p_jobs := js\<rparr>) = machine_of j p" "machine_of j (p\<lparr>p_events := es\<rparr>) = machine_of j p"
  by (simp_all add: phase_of_def machine_of_def)

lemma phase_of_simps:
  "idle p \<Longrightarrow> phase_of p = Idle" "held_by p a al l g \<Longrightarrow> phase_of p = Held"
  "quarantined_by p a al \<Longrightarrow> phase_of p = Quarantined"
  by (simp_all add: phase_of_def idle_def held_by_def quarantined_by_def)

lemma moves_refl [simp]: "moves m m"
  by (simp add: moves_def split: option.splits)

lemma moves_trans: "moves a b \<Longrightarrow> moves b c \<Longrightarrow> moves a c"
  by (auto simp: moves_def split: option.splits)

lemma store_moves_refl [simp]: "store_moves db db"
  by (simp add: store_moves_def)

lemma store_moves_trans: "store_moves a b \<Longrightarrow> store_moves b c \<Longrightarrow> store_moves a c"
  unfolding store_moves_def using moves_trans by blast

lemma moves_row: "transition_row a b \<Longrightarrow> moves (Some a) (Some b)"
  by (simp add: moves_def)

subsection \<open>Lemmas on the invariant\<close>

lemma inv_part: "inv db \<Longrightarrow> part_inv (part db x)"
  by (simp add: inv_def)

lemma inv_job:
  assumes "inv db" "j \<in> set (jobs db)"
  shows "p_jobs (part db (j_job_id j)) = [j]" "job_inv j (part db (j_job_id j))"
proof -
  have mem: "j \<in> set (p_jobs (part db (j_job_id j)))" using assms(2) by simp
  have "part_inv (part db (j_job_id j))" by (rule inv_part [OF assms(1)])
  then obtain i where i: "p_jobs (part db (j_job_id j)) = [i]" "job_inv i (part db (j_job_id j))"
    using mem unfolding part_inv_def by (metis empty_iff empty_part_sels(1) list.set(1))
  have "i = j" using mem i(1) by (metis list.set(1) list.simps(15) singletonD)
  with i show "p_jobs (part db (j_job_id j)) = [j]" "job_inv j (part db (j_job_id j))" by simp_all
qed

lemma inv_no_job:
  assumes "inv db" "x \<notin> j_job_id ` set (jobs db)"
  shows "part db x = empty_part"
proof -
  have "p_jobs (part db x) = []" using assms(2) by (auto simp: filter_empty_conv)
  then show ?thesis using inv_part [OF assms(1), of x] unfolding part_inv_def by simp
qed

lemma inv_distinct_jobs:
  assumes "inv db"
  shows "distinct (map j_job_id (jobs db))"
proof (rule distinct_map_if_filter)
  fix x
  have "length (p_jobs (part db x)) \<le> 1"
    using inv_part [OF assms, of x] unfolding part_inv_def
    by (elim disjE exE conjE) (simp_all del: part_sels)
  then show "length (filter (\<lambda>j. j_job_id j = x) (jobs db)) \<le> 1" by simp
qed

subsection \<open>Counters\<close>

text \<open>Every counter of the scopes \<open>S\<close> moved by the two amounts, the others did not move.\<close>

definition shifted :: "scope set \<Rightarrow> int \<Rightarrow> int \<Rightarrow> counter_row list \<Rightarrow> counter_row list \<Rightarrow> bool" where
  "shifted S n m = list_all2 (\<lambda>k k'. k_scope k' = k_scope k \<and>
     k_outstanding k' = k_outstanding k + (if k_scope k \<in> S then n else 0) \<and>
     k_active_attempts k' = k_active_attempts k + (if k_scope k \<in> S then m else 0))"

lemma shifted_refl [simp]: "shifted S 0 0 ks ks"
  by (simp add: shifted_def list_all2_same)

lemma shifted_update_where:
  assumes "\<And>k. p k \<longleftrightarrow> k_scope k \<in> S" "\<And>k. k_scope (f k) = k_scope k"
    and "\<And>k. k_outstanding (f k) = k_outstanding k + n" "\<And>k. k_active_attempts (f k) = k_active_attempts k + m"
  shows "shifted S n m ks (update_where p f ks)"
  using assms by (induction ks) (simp_all add: shifted_def)

lemma shifted_update_version:
  assumes "\<And>k. k_scope (f k) = k_scope k" "\<And>k. k_outstanding (f k) = k_outstanding k"
    "\<And>k. k_active_attempts (f k) = k_active_attempts k"
  shows "shifted S 0 0 ks (update_where p f ks)"
  using assms by (induction ks) (simp_all add: shifted_def)

lemma shifted_trans: "shifted S n m ks ls \<Longrightarrow> shifted S n' m' ls ms \<Longrightarrow> shifted S (n + n') (m + m') ks ms"
  unfolding shifted_def by (rule list_all2_trans [rotated], assumption, assumption) (auto split: if_splits)

lemma shifted_scopes: "shifted S n m ks ks' \<Longrightarrow> map k_scope ks' = map k_scope ks"
  unfolding shifted_def by (induction rule: list_all2_induct) simp_all

lemma list_all2_mem2: "list_all2 R xs ys \<Longrightarrow> y \<in> set ys \<Longrightarrow> \<exists>x \<in> set xs. R x y"
  by (induction rule: list_all2_induct) auto

lemma shifted_mem:
  "shifted S n m ks ks' \<Longrightarrow> k' \<in> set ks' \<Longrightarrow> \<exists>k \<in> set ks. k_scope k' = k_scope k \<and>
     k_outstanding k' = k_outstanding k + (if k_scope k \<in> S then n else 0) \<and>
     k_active_attempts k' = k_active_attempts k + (if k_scope k \<in> S then m else 0)"
  unfolding shifted_def by (drule list_all2_mem2) simp_all

lemma sum_list_change_one:
  fixes f g :: "'a \<Rightarrow> int"
  assumes "distinct xs" "x \<in> set xs" "\<And>y. y \<noteq> x \<Longrightarrow> f y = g y"
  shows "sum_list (map f xs) = sum_list (map g xs) + (f x - g x)"
  using assms(1,2)
proof (induction xs)
  case (Cons y ys)
  show ?case
  proof (cases "y = x")
    case True
    then have "x \<notin> set ys" using Cons.prems(1) by simp
    then have "map f ys = map g ys" by (intro map_cong refl assms(3)) auto
    then have "sum_list (map f ys) = sum_list (map g ys)" by (rule arg_cong)
    with True show ?thesis by simp
  next
    case False
    then show ?thesis using Cons assms(3) [of y] by simp
  qed
qed simp

lemma counted_change_one:
  assumes "distinct (map j_job_id (jobs db))" "x \<in> j_job_id ` set (jobs db)"
    and "map j_job_id (jobs db') = map j_job_id (jobs db)" "\<And>y. y \<noteq> x \<Longrightarrow> part db' y = part db y"
  shows "counted w db' s = counted w db s + (w s (part db' x) - w s (part db x))"
proof -
  have "x \<in> set (map j_job_id (jobs db))" using assms(2) by simp
  then show ?thesis unfolding counted_def assms(3)
    by (rule sum_list_change_one [OF assms(1)]) (simp add: assms(4))
qed

lemma counters_ok_one:
  assumes inv: "inv db" and ids: "map j_job_id (jobs db') = map j_job_id (jobs db)"
    and frame: "\<And>y. y \<noteq> x \<Longrightarrow> part db' y = part db y"
    and job: "p_jobs (part db x) = [j]" "p_jobs (part db' x) = [j']" "counter_scopes j' = counter_scopes j"
    and shift: "shifted (set (counter_scopes j)) n m (admission_counters db) (admission_counters db')"
    and n: "(if j_state j' \<in> terminal_states then 0 else 1) = (if j_state j \<in> terminal_states then 0 else 1) + n"
    and m: "int (length (unreleased (part db' x))) = int (length (unreleased (part db x))) + m"
  shows "counters_ok db'"
proof -
  have ok: "counters_ok db" using inv by (simp add: inv_def)
  have "j \<in> set (p_jobs (part db x))" using job(1) by (simp del: part_sels)
  then have x: "x \<in> j_job_id ` set (jobs db)" by auto
  have out: "counted outstanding_of db' s = counted outstanding_of db s + (if s \<in> set (counter_scopes j) then n else 0)" for s
    using counted_change_one [OF inv_distinct_jobs [OF inv] x ids frame, of outstanding_of s] n
    by (simp add: outstanding_of_def job split: if_splits del: part_sels)
  have act: "counted active_of db' s = counted active_of db s + (if s \<in> set (counter_scopes j) then m else 0)" for s
    using counted_change_one [OF inv_distinct_jobs [OF inv] x ids frame, of active_of s] m
    by (simp add: active_of_def job del: part_sels)
  have "set (counter_scopes i) \<subseteq> k_scope ` set (admission_counters db')" if i: "i \<in> set (jobs db')" for i
  proof -
    have scopes: "k_scope ` set (admission_counters db') = k_scope ` set (admission_counters db)"
      using arg_cong [OF shifted_scopes [OF shift], of set] by simp
    have "i \<in> set (p_jobs (part db' (j_job_id i)))" using i by simp
    then have "i \<in> set (jobs db) \<or> i = j'"
      by (cases "j_job_id i = x") (auto simp: job(2) frame simp del: part_sels, simp add: part_sels)
    moreover have "j \<in> set (jobs db)" using \<open>j \<in> set (p_jobs (part db x))\<close> by simp
    ultimately show ?thesis using ok job(3) scopes unfolding counters_ok_def by metis
  qed
  then show ?thesis
    using ok shifted_mem [OF shift] shifted_scopes [OF shift] out act
    unfolding counters_ok_def by fastforce
qed

text \<open>An operation that changes the part of one job.\<close>

lemma one_job:
  assumes inv: "inv db" and keys: "keys_ok db'" and ids: "map j_job_id (jobs db') = map j_job_id (jobs db)"
    and frame: "\<And>y. y \<noteq> x \<Longrightarrow> part db' y = part db y"
    and job: "p_jobs (part db x) = [j]" "p_jobs (part db' x) = [j']" "counter_scopes j' = counter_scopes j"
    and shift: "shifted (set (counter_scopes j)) n m (admission_counters db) (admission_counters db')"
    and n: "(if j_state j' \<in> terminal_states then 0 else 1) = (if j_state j \<in> terminal_states then 0 else 1) + n"
    and m: "int (length (unreleased (part db' x))) = int (length (unreleased (part db x))) + m"
    and ok: "job_inv j' (part db' x)"
    and row: "moves (Some (machine_of j (part db x))) (Some (machine_of j' (part db' x)))"
  shows "inv db' \<and> store_moves db db'"
proof
  have "part_inv (part db' y)" for y
    using inv_part [OF inv, of y] frame [of y] ok job(2) by (cases "y = x") (auto simp: part_inv_def simp del: part_sels)
  then show "inv db'"
    using keys counters_ok_one [OF inv ids frame job shift n m] by (simp add: inv_def)
  show "store_moves db db'"
    unfolding store_moves_def
  proof
    fix y
    show "moves (abstract (part db y)) (abstract (part db' y))"
      using frame [of y] row job by (cases "y = x") (simp_all add: abstract_def del: part_sels)
  qed
qed

subsection \<open>Operations beside the life of jobs\<close>

definition same_core :: "db \<Rightarrow> db \<Rightarrow> bool" where
  "same_core db db' \<longleftrightarrow> jobs db' = jobs db \<and> attempts db' = attempts db \<and> allocations db' = allocations db \<and>
     attempt_leases db' = attempt_leases db \<and> attempt_authority_grants db' = attempt_authority_grants db \<and>
     events db' = events db \<and> retry_schedules db' = retry_schedules db \<and> results db' = results db \<and>
     admission_counters db' = admission_counters db"

lemma same_core_refl [simp]: "same_core db db"
  by (simp add: same_core_def)

lemma same_core_trans: "same_core a b \<Longrightarrow> same_core b c \<Longrightarrow> same_core a c"
  by (simp add: same_core_def)

lemma same_core_part: "same_core db db' \<Longrightarrow> part db' = part db"
  unfolding same_core_def by (intro ext part_cong) simp_all

lemma same_core_inv:
  assumes "same_core db db'"
  shows "inv db' \<longleftrightarrow> inv db"
  using assms same_core_part [OF assms]
  by (simp add: inv_def keys_ok_def counters_ok_def counted_def same_core_def)

lemma same_core_moves: "same_core db db' \<Longrightarrow> store_moves db db'"
  by (simp add: store_moves_def same_core_part)

text \<open>A transaction keeps the invariant and moves every job along the table.\<close>

definition keeps :: "db \<Rightarrow> db \<Rightarrow> bool" where
  "keeps db db' \<longleftrightarrow> (inv db \<longrightarrow> inv db' \<and> store_moves db db')"

lemma keeps_core: "same_core db db' \<Longrightarrow> keeps db db'"
  by (simp add: keeps_def same_core_inv same_core_moves)

lemma keeps_trans: "keeps a b \<Longrightarrow> keeps b c \<Longrightarrow> keeps a c"
  unfolding keeps_def using store_moves_trans by blast

subsection \<open>One event of a job\<close>

definition logged :: "job_row \<Rightarrow> bool \<Rightarrow> (job_row \<Rightarrow> job_row) \<Rightarrow> timestamp \<Rightarrow> job_row" where
  "logged job keep_version changes now = (changes job)\<lparr>
     j_version := (if keep_version then j_version job else j_version job + 1),
     j_event_sequence := j_event_sequence job + 1, j_updated_at := now\<rparr>"

lemma record_event_tables [simp]:
  "attempts (record_event db job a now c e r ac ar kv ch) = attempts db"
  "allocations (record_event db job a now c e r ac ar kv ch) = allocations db"
  "attempt_leases (record_event db job a now c e r ac ar kv ch) = attempt_leases db"
  "attempt_authority_grants (record_event db job a now c e r ac ar kv ch) = attempt_authority_grants db"
  "retry_schedules (record_event db job a now c e r ac ar kv ch) = retry_schedules db"
  "results (record_event db job a now c e r ac ar kv ch) = results db"
  "admission_counters (record_event db job a now c e r ac ar kv ch) = admission_counters db"
  "callback_receipts (record_event db job a now c e r ac ar kv ch) = callback_receipts db"
  by (simp_all add: record_event_def Let_def)

lemma record_event_ids:
  "(\<And>j. j_job_id (ch j) = j_job_id j) \<Longrightarrow>
   map j_job_id (jobs (record_event db job a now c e r ac ar kv ch)) = map j_job_id (jobs db)"
  by (simp add: record_event_def Let_def map_update_where)

lemma record_event_other:
  "(\<And>j. j_job_id (ch j) = j_job_id j) \<Longrightarrow> y \<noteq> j_job_id job \<Longrightarrow>
   part (record_event db job a now c e r ac ar kv ch) y = part db y"
  by (simp add: part_def record_event_def Let_def filter_update_where_key update_where_filter_other)

lemma record_event_part:
  assumes "\<And>j. j_job_id (ch j) = j_job_id j" "filter (\<lambda>j. j_job_id j = j_job_id job) (jobs db) = [job]"
  shows "part (record_event db job a now c e r ac ar kv ch) (j_job_id job) =
    (part db (j_job_id job))\<lparr>p_jobs := [logged job kv ch now],
      p_events := p_events (part db (j_job_id job)) @ [\<lparr>e_tenant_id = j_tenant_id job, e_job_id = j_job_id job,
        e_sequence = j_event_sequence job + 1, e_event_type = e, e_reason = r, e_actor = a, e_created_at = c\<rparr>]\<rparr>"
  using assms by (simp add: part_def record_event_def Let_def filter_update_where_key logged_def)

lemma log_ok_logged:
  assumes "log_ok job p" "e_sequence ev = j_event_sequence job + 1"
  shows "log_ok (logged job kv ch now) (p\<lparr>p_events := p_events p @ [ev]\<rparr>)"
  using assms upto_snoc [of "j_event_sequence job"] by (simp add: log_ok_def logged_def)

lemma event_step:
  assumes inv: "inv db" and job: "job \<in> set (jobs db)"
    and db1: "jobs db1 = jobs db" "events db1 = events db" "keys_ok db1"
      "\<And>y. y \<noteq> j_job_id job \<Longrightarrow> part db1 y = part db y"
    and ch: "\<And>j. j_job_id (ch j) = j_job_id j" "counter_scopes (ch job) = counter_scopes job"
    and shift: "shifted (set (counter_scopes job)) n m (admission_counters db) (admission_counters db1)"
    and n: "(if j_state (ch job) \<in> terminal_states then 0 else 1) = (if j_state job \<in> terminal_states then 0 else 1) + n"
    and m: "int (length (unreleased (part db1 (j_job_id job)))) = int (length (unreleased (part db (j_job_id job)))) + m"
    and ok: "attempts_ok (logged job kv ch now) (part db1 (j_job_id job))"
      "phase_ok (logged job kv ch now) (part db1 (j_job_id job))" "control_ok (logged job kv ch now)"
      "retries_ok (logged job kv ch now) (part db1 (j_job_id job))"
      "results_ok (logged job kv ch now) (part db1 (j_job_id job))"
    and row: "transition_row (machine_of job (part db (j_job_id job)))
      (machine_of (logged job kv ch now) (part db1 (j_job_id job)))"
  shows "keeps db (record_event db1 job a now c e r ac ar kv ch)"
proof -
  let ?x = "j_job_id job" and ?db' = "record_event db1 job a now c e r ac ar kv ch"
  have single: "p_jobs (part db ?x) = [job]" "job_inv job (part db ?x)" by (rule inv_job [OF inv job])+
  have part: "part ?db' ?x = (part db1 ?x)\<lparr>p_jobs := [logged job kv ch now],
      p_events := p_events (part db1 ?x) @ [\<lparr>e_tenant_id = j_tenant_id job, e_job_id = j_job_id job,
        e_sequence = j_event_sequence job + 1, e_event_type = e, e_reason = r, e_actor = a, e_created_at = c\<rparr>]\<rparr>"
    by (rule record_event_part [OF ch(1)]) (use single(1) db1(1) in simp)
  have log: "log_ok job (part db1 ?x)"
    using single(2) db1(2) by (simp add: job_inv_def log_ok_def)
  have jinv: "job_inv (logged job kv ch now) (part ?db' ?x)"
    unfolding part job_inv_def using ok log_ok_logged [OF log] by simp
  have "inv ?db' \<and> store_moves db ?db'"
  proof (rule one_job [OF inv _ _ _ single(1) _ _ _ _ _ jinv])
    show "keys_ok ?db'" using db1(3) by (simp add: keys_ok_def)
    show "map j_job_id (jobs ?db') = map j_job_id (jobs db)" using record_event_ids [OF ch(1)] db1(1) by simp
    show "part ?db' y = part db y" if "y \<noteq> ?x" for y
      using record_event_other [OF ch(1) \<open>y \<noteq> ?x\<close>] db1(4) [OF \<open>y \<noteq> ?x\<close>] by simp
    show "p_jobs (part ?db' ?x) = [logged job kv ch now]" by (simp add: part del: part_sels)
    show "counter_scopes (logged job kv ch now) = counter_scopes job"
      using ch(2) by (simp add: logged_def counter_scopes_def)
    show "shifted (set (counter_scopes job)) n m (admission_counters db) (admission_counters ?db')" using shift by simp
    show "(if j_state (logged job kv ch now) \<in> terminal_states then 0 else 1) =
        (if j_state job \<in> terminal_states then 0 else 1) + n" using n by (simp add: logged_def)
    show "int (length (unreleased (part ?db' ?x))) = int (length (unreleased (part db ?x))) + m"
      using m by (simp add: part)
    show "moves (Some (machine_of job (part db ?x))) (Some (machine_of (logged job kv ch now) (part ?db' ?x)))"
      using moves_row [OF row] by (simp add: part)
  qed
  then show ?thesis by (simp add: keeps_def)
qed

subsection \<open>Counter statements\<close>

lemma distinct_counter_scopes [simp]: "distinct (counter_scopes j)"
  by (simp add: counter_scopes_def)

lemma shifted_union:
  "shifted S n m ks ls \<Longrightarrow> shifted T n m ls ms \<Longrightarrow> S \<inter> T = {} \<Longrightarrow> shifted (S \<union> T) n m ks ms"
  unfolding shifted_def by (rule list_all2_trans [rotated], assumption, assumption) auto

lemma shifted_update_row:
  assumes "\<And>k. k \<in> set ks \<Longrightarrow> k_scope k = s \<Longrightarrow> k_scope (f k) = k_scope k \<and>
     k_outstanding (f k) = k_outstanding k + n \<and> k_active_attempts (f k) = k_active_attempts k + m"
  shows "shifted {s} n m ks (update_where (\<lambda>k. k_scope k = s) f ks)"
  using assms by (induction ks) (simp_all add: shifted_def)

lemma shifted_filter_other:
  assumes "\<And>k. k_scope (f k) = k_scope k" "s \<noteq> u"
  shows "filter (\<lambda>k. k_scope k = s) (update_where (\<lambda>k. k_scope k = u) f ks) = filter (\<lambda>k. k_scope k = s) ks"
  using assms by (intro filter_update_same) auto

lemma lock_counters_Inr:
  "lock_counters db ss = Inr ks \<Longrightarrow>
   map k_scope ks = ss \<and> (\<forall>k \<in> set ks. filter (\<lambda>i. k_scope i = k_scope k) (admission_counters db) = [k])"
proof (induction ss arbitrary: ks)
  case (Cons s ss)
  then obtain row k rest where row: "one_or_none (filter (\<lambda>i. k_scope i = s) (admission_counters db)) = Inr (Some k)"
      "lock_counters db ss = Inr rest" "ks = k # rest"
    by (auto simp: res_simps split: option.splits)
  then have "filter (\<lambda>i. k_scope i = s) (admission_counters db) = [k]" by (simp add: res_simps)
  moreover from this have "k_scope k = s" using filter_singleton by fastforce
  ultimately show ?case using Cons.IH [OF row(2)] row(3) by simp
qed simp

lemma adjust_counters_Inr:
  assumes "adjust_counters db ks now n m = Inr db'" "distinct (map k_scope ks)"
    and "\<And>k. k \<in> set ks \<Longrightarrow> filter (\<lambda>i. k_scope i = k_scope k) (admission_counters db) = [k]"
  shows "\<exists>cs. db' = db\<lparr>admission_counters := cs\<rparr> \<and> shifted (k_scope ` set ks) (- n) (- m) (admission_counters db) cs"
  using assms unfolding adjust_counters_def
proof (induction ks arbitrary: db)
  case Nil
  then have "db' = db\<lparr>admission_counters := admission_counters db\<rparr>" by simp
  moreover have "shifted {} (- n) (- m) (admission_counters db) (admission_counters db)"
    by (simp add: shifted_def list_all2_same)
  ultimately show ?case by (metis list.set(1) image_empty)
next
  case (Cons row ks)
  let ?f = "\<lambda>k. k\<lparr>k_outstanding := k_outstanding row - n, k_active_attempts := k_active_attempts row - m,
      k_version := k_version row + 1, k_updated_at := now\<rparr>"
  let ?db1 = "db\<lparr>admission_counters := update_where (\<lambda>k. k_scope k = k_scope row) ?f (admission_counters db)\<rparr>"
  have "\<not> (k_outstanding row < n \<or> k_active_attempts row < m)"
    using Cons.prems(1) by (auto simp: adjust_counter_def [of now n m db row])
  then have row: "adjust_counter now n m db row = Inr ?db1" by (simp add: adjust_counter_def)
  have step: "fold_result (adjust_counter now n m) ?db1 ks = Inr db'" using Cons.prems(1) row by simp
  have same: "k = row" if "k \<in> set (admission_counters db)" "k_scope k = k_scope row" for k
    by (rule filter_singleton_mem [OF Cons.prems(3) [of row] that(1)]) (use that in simp_all)
  have "shifted {k_scope row} (- n) (- m) (admission_counters db) (admission_counters ?db1)"
    by (simp, rule shifted_update_row) (auto dest: same)
  moreover have rest: "filter (\<lambda>i. k_scope i = k_scope k) (admission_counters ?db1) = [k]" if "k \<in> set ks" for k
  proof -
    have "k_scope k \<noteq> k_scope row" using Cons.prems(2) that by (auto simp: image_iff)
    then show ?thesis using Cons.prems(3) [of k] that by (simp add: shifted_filter_other)
  qed
  ultimately obtain cs where cs: "db' = ?db1\<lparr>admission_counters := cs\<rparr>"
      "shifted (k_scope ` set ks) (- n) (- m) (admission_counters ?db1) cs"
    using Cons.IH [OF step] Cons.prems(2) by auto
  have "{k_scope row} \<inter> k_scope ` set ks = {}" using Cons.prems(2) by auto
  then have "shifted ({k_scope row} \<union> k_scope ` set ks) (- n) (- m) (admission_counters db) cs"
    by (rule shifted_union [OF \<open>shifted {k_scope row} _ _ _ _\<close> cs(2)])
  then show ?case using cs(1) by auto
qed

lemma adjust_locked_Inr:
  assumes "lock_counters db0 (counter_scopes job) = Inr ks" "adjust_counters db ks now n m = Inr db'"
    and "admission_counters db = admission_counters db0"
  shows "\<exists>cs. db' = db\<lparr>admission_counters := cs\<rparr> \<and> shifted (set (counter_scopes job)) (- n) (- m) (admission_counters db) cs"
proof -
  have "map k_scope ks = counter_scopes job" using lock_counters_Inr [OF assms(1)] by simp
  moreover from this have "k_scope ` set ks = set (counter_scopes job)" by (metis set_map)
  ultimately show ?thesis
    using adjust_counters_Inr [OF assms(2)] lock_counters_Inr [OF assms(1)] assms(3) by simp
qed

lemma count_attempt_Inr:
  "count_attempt now db ss = Inr db' \<Longrightarrow> distinct ss \<Longrightarrow>
   \<exists>cs. db' = db\<lparr>admission_counters := cs\<rparr> \<and> shifted (set ss) 0 1 (admission_counters db) cs"
proof (induction ss arbitrary: db)
  case Nil
  then have "db' = db\<lparr>admission_counters := admission_counters db\<rparr>" by simp
  moreover have "shifted {} 0 1 (admission_counters db) (admission_counters db)"
    by (simp add: shifted_def list_all2_same)
  ultimately show ?case by (metis list.set(1))
next
  case (Cons s ss)
  let ?db1 = "db\<lparr>admission_counters := update_where (\<lambda>k. k_scope k = s)
     (\<lambda>k. k\<lparr>k_active_attempts := k_active_attempts k + 1, k_version := k_version k + 1, k_updated_at := now\<rparr>)
     (admission_counters db)\<rparr>"
  have step: "count_attempt now ?db1 ss = Inr db'" using Cons.prems(1) by (simp split: if_splits)
  have "distinct ss" using Cons.prems(2) by simp
  from Cons.IH [OF step this] obtain cs where cs: "db' = ?db1\<lparr>admission_counters := cs\<rparr>" "shifted (set ss) 0 1 (admission_counters ?db1) cs"
    by blast
  have "shifted {s} 0 1 (admission_counters db) (admission_counters ?db1)"
    by (simp, rule shifted_update_row) simp_all
  then have "shifted ({s} \<union> set ss) 0 1 (admission_counters db) cs"
    by (rule shifted_union [OF _ cs(2)]) (use Cons.prems(2) in auto)
  then show ?case using cs(1) by auto
qed

subsection \<open>Rows of other jobs\<close>

lemma attempts_ok_cong:
  assumes "attempts_ok j p" "map al_attempt_id (p_allocations p') = map al_attempt_id (p_allocations p)"
    "map l_attempt_id (p_leases p') = map l_attempt_id (p_leases p)"
    "map g_attempt_id (p_grants p') = map g_attempt_id (p_grants p)"
    "map a_attempt_id (p_attempts p') = map a_attempt_id (p_attempts p)"
    "map a_attempt_number (p_attempts p') = map a_attempt_number (p_attempts p)"
    "map a_job_fence (p_attempts p') = map a_job_fence (p_attempts p)" "j_job_fence j \<le> j_job_fence j'"
  shows "attempts_ok j' p'"
proof -
  have "g_attempt_id ` set (p_grants p') = g_attempt_id ` set (p_grants p)"
    "a_attempt_id ` set (p_attempts p') = a_attempt_id ` set (p_attempts p)"
    "a_job_fence ` set (p_attempts p') = a_job_fence ` set (p_attempts p)"
    using assms(4,5,7) by (metis set_map)+
  moreover have "length (p_attempts p') = length (p_attempts p)" using assms(5) by (metis length_map)
  moreover have "\<forall>f \<in> a_job_fence ` set (p_attempts p). 1 \<le> f \<and> f \<le> j_job_fence j'"
    using assms(1,8) unfolding attempts_ok_def by fastforce
  ultimately have "\<forall>a \<in> set (p_attempts p'). 1 \<le> a_job_fence a \<and> a_job_fence a \<le> j_job_fence j'" by blast
  then show ?thesis
    using assms \<open>g_attempt_id ` set (p_grants p') = _\<close> \<open>a_attempt_id ` set (p_attempts p') = _\<close>
      \<open>length (p_attempts p') = _\<close>
    unfolding attempts_ok_def by simp
qed

lemma part_attempts_ok:
  assumes "inv db"
  shows "map al_attempt_id (p_allocations (part db y)) = map a_attempt_id (p_attempts (part db y))"
    "map l_attempt_id (p_leases (part db y)) = map a_attempt_id (p_attempts (part db y))"
    "g_attempt_id ` set (p_grants (part db y)) \<subseteq> a_attempt_id ` set (p_attempts (part db y))"
  using inv_part [OF assms, of y] unfolding part_inv_def job_inv_def attempts_ok_def
  by (elim disjE exE conjE; simp del: part_sels)+

lemma other_rows:
  assumes "inv db" "a \<in> set (attempts db)" "y \<noteq> a_job_id a"
  shows "r \<in> set (p_attempts (part db y)) \<Longrightarrow> a_attempt_id r \<noteq> a_attempt_id a"
    "al \<in> set (p_allocations (part db y)) \<Longrightarrow> al_attempt_id al \<noteq> a_attempt_id a"
    "l \<in> set (p_leases (part db y)) \<Longrightarrow> l_attempt_id l \<noteq> a_attempt_id a"
    "g \<in> set (p_grants (part db y)) \<Longrightarrow> g_attempt_id g \<noteq> a_attempt_id a"
proof -
  have keys: "distinct (map a_attempt_id (attempts db))" using assms(1) by (simp add: inv_def keys_ok_def)
  have r: "a_attempt_id r \<noteq> a_attempt_id a" if "r \<in> set (p_attempts (part db y))" for r
    using distinct_map_inj [OF keys, of r a] assms(2,3) that by auto
  then have out: "a_attempt_id a \<notin> set (map a_attempt_id (p_attempts (part db y)))"
    by (metis imageE set_map)
  show "r \<in> set (p_attempts (part db y)) \<Longrightarrow> a_attempt_id r \<noteq> a_attempt_id a" by (rule r)
  show "al \<in> set (p_allocations (part db y)) \<Longrightarrow> al_attempt_id al \<noteq> a_attempt_id a"
    using out part_attempts_ok(1) [OF assms(1), of y] by (metis image_eqI set_map)
  show "l \<in> set (p_leases (part db y)) \<Longrightarrow> l_attempt_id l \<noteq> a_attempt_id a"
    using out part_attempts_ok(2) [OF assms(1), of y] by (metis image_eqI set_map)
  show "g \<in> set (p_grants (part db y)) \<Longrightarrow> g_attempt_id g \<noteq> a_attempt_id a"
    using out part_attempts_ok(3) [OF assms(1), of y] by (metis image_eqI set_map subsetD)
qed

lemma part_job:
  assumes "inv db" "r \<in> set (p_attempts (part db x))"
  obtains j where "j \<in> set (jobs db)" "j_job_id j = x" "p_jobs (part db x) = [j]" "job_inv j (part db x)"
proof -
  have "part db x \<noteq> empty_part" using assms(2) by (metis empty_iff empty_part_sels(2) list.set(1))
  then obtain j where j: "p_jobs (part db x) = [j]" "job_inv j (part db x)"
    using inv_part [OF assms(1), of x] unfolding part_inv_def by blast
  then have "j \<in> set (p_jobs (part db x))" by (metis list.set_intros(1))
  then have "j \<in> set (jobs db)" "j_job_id j = x" by simp_all
  with j show thesis using that by blast
qed

text \<open>A live lease or grant is that of the one attempt that holds the job.\<close>

lemma phase_ok_cases:
  assumes "phase_ok j p"
  shows "idle p \<or> held_in j p UNIV \<or> (\<exists>a al. quarantined_by p a al)"
  using assms by (cases "j_state j") (auto simp: phase_ok_def held_in_def)

lemma live_grant_held:
  assumes "phase_ok j p" "g \<in> set (live_grants p)"
  shows "\<exists>a al l. held_by p a al l g \<and> a_job_fence a = j_job_fence j \<and> a_execution_intent a = intent_of j"
proof -
  have "\<not> idle p" "\<not> quarantined_by p a al" for a al
    using assms(2) by (auto simp: idle_def quarantined_by_def)
  then obtain a al l g' where h: "held_by p a al l g'" "a_job_fence a = j_job_fence j" "a_execution_intent a = intent_of j"
    using phase_ok_cases [OF assms(1)] unfolding held_in_def by blast
  then have "g' = g" using assms(2) by (simp add: held_by_def)
  with h show ?thesis by blast
qed

lemma live_lease_held:
  assumes "phase_ok j p" "l \<in> set (live_leases p)"
  shows "\<exists>a al g. held_by p a al l g \<and> a_job_fence a = j_job_fence j \<and> a_execution_intent a = intent_of j"
proof -
  have "\<not> idle p" "\<not> quarantined_by p a al" for a al
    using assms(2) by (auto simp: idle_def quarantined_by_def)
  then obtain a al l' g where h: "held_by p a al l' g" "a_job_fence a = j_job_fence j" "a_execution_intent a = intent_of j"
    using phase_ok_cases [OF assms(1)] unfolding held_in_def by blast
  then have "l' = l" using assms(2) by (simp add: held_by_def)
  with h show ?thesis by blast
qed

end
