(* ===== verification/Execution_Service.thy ===== *)
theory Execution_Service
  imports Execution_Cleanup
begin

section \<open>Attempt callbacks\<close>

text \<open>
  \<^verbatim>\<open>src/src/nexa/application/execution_service.py\<close>: polling for an offer, claiming it, starting the
  container, reserving a result and completing the attempt, with the restore decision of
  \<^verbatim>\<open>src/src/nexa/application/checkpoint_restore.py\<close>.  What is read before a transaction (the scan of
  checkpoint blobs, the manifest bytes) is an argument, and the validators of result manifests and
  chunk outputs are a record of functions.
\<close>

definition storage_unavailable :: "string \<Rightarrow> tx_error" where
  "storage_unavailable m = dependency_unavailable m"

definition callback ::
  "env \<Rightarrow> db \<Rightarrow> authority \<Rightarrow> string \<Rightarrow> uuid \<Rightarrow> uuid \<Rightarrow> string \<Rightarrow> string \<Rightarrow>
   (uuid option \<times> (acknowledgment + authority_tuple) \<times> db) tx" where
  "callback env db au credential attempt_id callback_id payload_hash operation_id =
     (if au_attempt_id au \<noteq> attempt_id then Inl (state_conflict ''Attempt identity mismatch'')
      else res_bind (begin_callback db (ids env 0) (au_worker_id au) operation_id callback_id payload_hash)
      (\<lambda>(receipt, replay, db1).
      res_bind (worker_auth env db1 0 (au_worker_id au) credential) (\<lambda>worker.
      res_bind (require_current_incarnation db1 worker (au_worker_incarnation_id au) False) (\<lambda>_.
      case replay of Some a \<Rightarrow> Inr (receipt, Inl a, db1)
      | None \<Rightarrow> res_bind (authority_rows db1 au (au_worker_id au)) (\<lambda>t. Inr (receipt, Inr t, db1))))))"

text \<open>A callback answers a replay at once; otherwise its body runs on the rows of the authority.\<close>

definition with_callback ::
  "env \<Rightarrow> db \<Rightarrow> authority \<Rightarrow> string \<Rightarrow> uuid \<Rightarrow> uuid \<Rightarrow> string \<Rightarrow> string \<Rightarrow>
   (db \<Rightarrow> authority_tuple \<Rightarrow> (acknowledgment \<times> db) tx) \<Rightarrow> (acknowledgment \<times> db) tx" where
  "with_callback env db au credential attempt_id callback_id payload_hash operation_id body =
     res_bind (callback env db au credential attempt_id callback_id payload_hash operation_id)
     (\<lambda>(receipt, rows, db1).
     case rows of Inl a \<Rightarrow> Inr (a, db1)
     | Inr t \<Rightarrow> res_bind (body db1 t) (\<lambda>(response, db2).
         res_bind (complete_callback db2 (the receipt) response) (\<lambda>db3. Inr (response, db3))))"

subsection \<open>Polling\<close>

record offer =
  of_authority :: authority
  of_dispatch_coordinator_epoch :: int
  of_spec :: string
  of_input_artifact :: artifact_row
  of_checkpoint :: "checkpoint_row option"

definition offered ::
  "db \<Rightarrow> uuid \<Rightarrow> uuid \<Rightarrow> timestamp \<Rightarrow>
   (attempt_row \<times> job_row \<times> allocation_row \<times> lease_row \<times> spec_row) list" where
  "offered db worker_id incarnation_id now =
     sort_key (\<lambda>(a, _). (a_created_at a, a_attempt_id a))
     (concat (map (\<lambda>a. concat (map (\<lambda>j. concat (map (\<lambda>al. concat (map (\<lambda>l. map (\<lambda>sp. (a, j, al, l, sp))
        (filter (\<lambda>sp. sp_job_id sp = j_job_id j) (job_specs db)))
        (filter (\<lambda>l. l_attempt_id l = a_attempt_id a \<and> l_revoked_at l = None \<and> l_expires_at l > now)
          (attempt_leases db))))
        (filter (\<lambda>al. al_attempt_id al = a_attempt_id a \<and> al_state al = S_HELD) (allocations db))))
        (filter (\<lambda>j. j_job_id j = a_job_id a \<and> j_state j = J_DISPATCHING) (jobs db))))
        (filter (\<lambda>a. a_worker_id a = worker_id \<and> a_worker_incarnation_id a = incarnation_id \<and>
          a_state a = A_CREATED) (attempts db))))"

definition poll ::
  "env \<Rightarrow> db \<Rightarrow> uuid \<Rightarrow> string \<Rightarrow> uuid \<Rightarrow> int \<Rightarrow> (timestamp \<times> offer option \<times> int) tx" where
  "poll env db worker_id credential incarnation_id long_poll_seconds =
     res_bind (worker_auth env db 0 worker_id credential) (\<lambda>worker.
     res_bind (require_current_incarnation db worker incarnation_id False) (\<lambda>_.
     if frozen db \<or> w_health worker \<noteq> READY \<or> w_admin_state worker = DISABLED
     then Inl (state_conflict ''Worker is not eligible to poll for dispatch'')
     else let now = clk env 1; wait = min (max long_poll_seconds 0) 30 in
     case first (offered db worker_id incarnation_id now) of
       None \<Rightarrow> Inr (now, None, wait)
     | Some (a, j, al, l, sp) \<Rightarrow>
         res_bind (one_or_none (filter (\<lambda>ar. Some (ar_artifact_id ar) = sp_input_artifact_id sp \<and>
           ar_tenant_id ar = a_tenant_id a \<and> ar_state ar = AR_COMMITTED) (artifacts db))) (\<lambda>artifact.
         case artifact of None \<Rightarrow> Inl (dependency_unavailable ''Dispatch input artifact is unavailable'')
         | Some ar \<Rightarrow>
             let checkpoint = first (restore_order (a_job_id a)
                   (filter (\<lambda>c. restorable_scope db (a_job_id a) c \<and> not_corrupt db c) (checkpoints db)))
             in Inr (now, Some \<lparr>of_authority = \<lparr>au_worker_id = a_worker_id a,
                    au_worker_incarnation_id = a_worker_incarnation_id a, au_attempt_id = a_attempt_id a,
                    au_allocation_id = al_allocation_id al, au_lease_id = l_lease_id l, au_job_fence = a_job_fence a\<rparr>,
                  of_dispatch_coordinator_epoch = a_dispatch_coordinator_epoch a,
                  of_spec = sp_canonical_spec sp, of_input_artifact = ar, of_checkpoint = checkpoint\<rparr>, wait))))"

subsection \<open>Reserving a result\<close>

definition reserve_result ::
  "env \<Rightarrow> db \<Rightarrow> string \<Rightarrow> uuid \<Rightarrow> uuid \<Rightarrow> string \<Rightarrow> authority \<Rightarrow> (acknowledgment \<times> db) tx" where
  "reserve_result env db credential attempt_id callback_id payload_hash au =
     with_callback env db au credential attempt_id callback_id payload_hash ''workerReserveResult'' (\<lambda>db1 t.
     let now = clk env 1; job = at_job t in
     res_bind (live_authority t now) (\<lambda>_.
     res_bind (result_authority t) (\<lambda>_.
     if a_state (at_attempt t) \<noteq> A_RUNNING then Inl (state_conflict ''Attempt has not started'')
     else res_bind (one_or_none (filter (\<lambda>r. rr_job_id r = j_job_id job \<and> rr_state r = RR_ACTIVE)
       (result_reservations db1))) (\<lambda>existing.
     if existing \<noteq> None
     then Inl (state_conflict ''A different result reservation callback is already active'')
     else Inr (Ack_reserve_result callback_id (ids env 1) (j_job_id job) attempt_id now,
       db1\<lparr>result_reservations := result_reservations db1 @ [\<lparr>rr_result_id = ids env 1,
         rr_tenant_id = j_tenant_id job, rr_job_id = j_job_id job, rr_attempt_id = attempt_id,
         rr_authority_grant_id = g_grant_id (at_grant t), rr_callback_id = callback_id, rr_state = RR_ACTIVE,
         rr_reserved_at = now, rr_superseded_at = None\<rparr>]\<rparr>)))))"

subsection \<open>Claiming\<close>

text \<open>\<open>transition\<close> answers the job as its dictionary is left: with the new state, version and sequence.\<close>

definition transition ::
  "env \<Rightarrow> db \<Rightarrow> job_row \<Rightarrow> authority \<Rightarrow> job_state \<Rightarrow> string \<Rightarrow> timestamp \<Rightarrow> (job_row \<Rightarrow> job_row) \<Rightarrow> job_row \<times> db" where
  "transition env db job au state event_type now changes =
     (job\<lparr>j_state := state, j_version := j_version job + 1, j_event_sequence := j_event_sequence job + 1\<rparr>,
      record_event db job (WORKER (au_worker_id au)) now (started env) event_type (Some (lower event_type))
        (lower event_type) (Some (lower event_type)) False (\<lambda>j. (changes j)\<lparr>j_state := state\<rparr>))"

record restore_scan =
  sc_remaining :: "uuid list"
  sc_selected :: "(checkpoint_row \<times> uuid list) option"
  sc_incompatible :: "string list"
  sc_attempt_number :: int
  sc_inherited :: bool
  sc_restart_safe :: bool

definition restorable_ids :: "db \<Rightarrow> uuid \<Rightarrow> uuid list" where
  "restorable_ids db job_id = map cp_checkpoint_id
     (restore_order job_id (filter (\<lambda>c. restorable_scope db job_id c \<and> not_corrupt db c) (checkpoints db)))"

definition restore_locked :: "db \<Rightarrow> uuid \<Rightarrow> checkpoint_row \<Rightarrow> uuid list \<Rightarrow> bool" where
  "restore_locked db tenant_id row files \<longleftrightarrow>
     length (filter (\<lambda>ar. ar_tenant_id ar = tenant_id \<and> ar_artifact_id ar \<in> set (cp_manifest_artifact_id row # files) \<and>
       ar_state ar = AR_COMMITTED) (artifacts db)) = length files + 1"

definition restore_events :: "restore_scan \<Rightarrow> (string \<times> string) list" where
  "restore_events scan = map (\<lambda>reason. (''CHECKPOINT_INCOMPATIBLE'', reason)) (sc_incompatible scan) @
     (if sc_selected scan \<noteq> None then [(''CHECKPOINT_RESTORE_SELECTED'', ''CHECKPOINT_RESTORED'')]
      else if sc_attempt_number scan > 1 \<or> sc_inherited scan
      then if sc_restart_safe scan then [(''CHECKPOINT_FALLBACK_TO_INPUT'', ''CHECKPOINT_FALLBACK_TO_INPUT'')]
           else [(''CHECKPOINT_RESTORE_UNAVAILABLE'', ''CHECKPOINT_RESTORE_UNAVAILABLE'')]
      else [])"

fun append_events :: "db \<Rightarrow> job_row \<Rightarrow> uuid \<Rightarrow> timestamp \<Rightarrow> (string \<times> string) list \<Rightarrow> db" where
  "append_events db job worker_id now [] = db"
| "append_events db job worker_id now ((event_type, reason) # es) =
     append_events (snd (worker_event db job worker_id now event_type reason True id))
       (job\<lparr>j_event_sequence := j_event_sequence job + 1\<rparr>) worker_id now es"

definition restore_decision ::
  "db \<Rightarrow> job_row \<Rightarrow> authority \<Rightarrow> restore_scan option \<Rightarrow> timestamp \<Rightarrow> (uuid option \<times> db) tx" where
  "restore_decision db job au scan now =
     (let retry = storage_unavailable ''Checkpoint restore selection must be retried'' in
      case scan of None \<Rightarrow> Inl retry
      | Some sc \<Rightarrow>
         if restorable_ids db (j_job_id job) \<noteq> sc_remaining sc then Inl retry
         else case sc_selected sc of
             None \<Rightarrow> Inr (None, append_events db job (au_worker_id au) now (restore_events sc))
           | Some (row, files) \<Rightarrow>
               if \<not> restore_locked db (j_tenant_id job) row files then Inl retry
               else Inr (Some (cp_checkpoint_id row),
                      append_events db job (au_worker_id au) now (restore_events sc)))"

definition spec_of_job :: "db \<Rightarrow> uuid \<Rightarrow> spec_row tx" where
  "spec_of_job db job_id = one (filter (\<lambda>sp. sp_job_id sp = job_id) (job_specs db))"

definition template_of_spec :: "db \<Rightarrow> spec_row \<Rightarrow> template_row tx" where
  "template_of_spec db sp = one (filter (\<lambda>tv. t_template_id tv = sp_template_id sp \<and>
     t_version tv = sp_template_version sp) (template_versions db))"

definition input_ids :: "spec_row \<Rightarrow> uuid list" where
  "input_ids sp = List.map_filter id [sp_input_artifact_id sp, sp_model_artifact_id sp]"

definition claim_inputs :: "db \<Rightarrow> job_row \<Rightarrow> spec_row \<Rightarrow> uuid list" where
  "claim_inputs db job sp = sort (map ar_artifact_id (filter (\<lambda>ar. ar_tenant_id ar = j_tenant_id job \<and>
     ar_artifact_id ar \<in> set (input_ids sp) \<and> ar_state ar = AR_COMMITTED) (artifacts db)))"

text \<open>The first claim freezes the execution context; a later claim answers the frozen one.\<close>

definition claim_context ::
  "db \<Rightarrow> authority_tuple \<Rightarrow> authority \<Rightarrow> restore_scan option \<Rightarrow> timestamp \<Rightarrow> (execution_context \<times> db) tx" where
  "claim_context db t au scan now =
     (let job = at_job t; attempt = at_attempt t in
     if a_state attempt \<noteq> A_CREATED \<or> j_state job \<noteq> J_DISPATCHING
     then Inl (state_conflict ''Attempt is not claimable'')
     else res_bind (spec_of_job db (j_job_id job)) (\<lambda>sp.
     res_bind (template_of_spec db sp) (\<lambda>template.
     res_bind (one (filter (\<lambda>r. tm_template_id r = sp_template_id sp) (templates db))) (\<lambda>_.
     if length (claim_inputs db job sp) \<noteq> card (set (input_ids sp))
     then Inl (state_conflict ''Execution input unavailable'')
     else res_bind (restore_decision db job au scan now) (\<lambda>(restore, db1).
     res_bind (one (filter (\<lambda>ls. ls_job_id ls = j_job_id job) (logical_sessions db1))) (\<lambda>ls.
     let context = \<lparr>x_job_id = j_job_id job, x_logical_session_id = ls_session_id ls, x_authority = au,
           x_execution_intent = a_execution_intent attempt, x_spec = sp_canonical_spec sp,
           x_template = (t_template_id template, t_version template),
           x_adapter = (t_adapter_id template, t_adapter_version template),
           x_image_digest = t_image_digest template, x_checkpointable = t_checkpointable template,
           x_restart_safe = t_restart_safe template, x_allocation_id = al_allocation_id (at_allocation t),
           x_input_artifacts = claim_inputs db job sp, x_restore_checkpoint = restore,
           x_startup_nonce = a_startup_nonce attempt\<rparr> in
     Inr (context, db1\<lparr>attempts := update_where (\<lambda>a. a_attempt_id a = au_attempt_id au)
       (\<lambda>a. a\<lparr>a_state := A_CLAIMED, a_execution_context := Some context, a_claimed_at := Some now\<rparr>)
       (attempts db1)\<rparr>)))))))"

definition claim_attempt ::
  "env \<Rightarrow> db \<Rightarrow> restore_scan option \<Rightarrow> string \<Rightarrow> uuid \<Rightarrow> uuid \<Rightarrow> string \<Rightarrow> authority \<Rightarrow> (acknowledgment \<times> db) tx" where
  "claim_attempt env db scan credential attempt_id callback_id payload_hash au =
     with_callback env db au credential attempt_id callback_id payload_hash ''workerClaimAttempt'' (\<lambda>db1 t.
     let now = clk env 1; job = at_job t in
     res_bind (live_authority t now) (\<lambda>_.
     res_bind (case a_execution_context (at_attempt t) of Some c \<Rightarrow> Inr (c, db1)
               | None \<Rightarrow> claim_context db1 t au scan now) (\<lambda>(context, db2).
     Inr (Ack_claim callback_id now (j_state job) (j_version job) context, db2))))"

subsection \<open>Starting\<close>

record start_request =
  tq_authority :: authority
  tq_startup_nonce :: uuid
  tq_executor_operation_sequence :: int
  tq_container :: container_ref

definition inherits :: "db \<Rightarrow> uuid \<Rightarrow> bool" where
  "inherits db job_id \<longleftrightarrow> list_ex (\<lambda>r. cf_target_job_id r = job_id) (checkpoint_references db)"

definition start_guard :: "db \<Rightarrow> authority_tuple \<Rightarrow> start_request \<Rightarrow> timestamp \<Rightarrow> unit tx" where
  "start_guard db t request now =
     (let attempt = at_attempt t in
      if a_state attempt \<noteq> A_CLAIMED \<or> a_claimed_at attempt = None \<or> now \<ge> a_created_at attempt + seconds 30 \<or>
         tq_startup_nonce request \<noteq> a_startup_nonce attempt
      then Inl (state_conflict ''Attempt startup identity or budget is invalid'')
      else if (a_attempt_number attempt > 1 \<or> inherits db (j_job_id (at_job t))) \<and>
        (case a_execution_context attempt of None \<Rightarrow> True
         | Some c \<Rightarrow> \<not> x_restart_safe c \<and> x_restore_checkpoint c = None)
      then Inl (state_conflict ''Checkpoint restore is required for this Attempt'')
      else Inr ())"

definition start_rows :: "db \<Rightarrow> authority_tuple \<Rightarrow> uuid \<Rightarrow> start_request \<Rightarrow> timestamp \<Rightarrow> db" where
  "start_rows db t attempt_id request now =
     db\<lparr>container_identities := container_identities db @ [\<lparr>c_tenant_id = j_tenant_id (at_job t),
          c_job_id = j_job_id (at_job t), c_attempt_id = attempt_id,
          c_allocation_id = au_allocation_id (tq_authority request), c_startup_nonce = tq_startup_nonce request,
          c_executor_create_sequence = tq_executor_operation_sequence request,
          c_container_id = cn_container_id (tq_container request),
          c_runtime_identity_digest = cn_runtime_identity_digest (tq_container request), c_created_at = now,
          c_stopped_at = None, c_verified_at = None\<rparr>],
        attempts := update_where (\<lambda>a. a_attempt_id a = attempt_id)
          (\<lambda>a. a\<lparr>a_state := A_RUNNING, a_started_at := Some now,
                 a_executor_operation_sequence := Some (tq_executor_operation_sequence request)\<rparr>) (attempts db),
        attempt_leases := update_where (\<lambda>l. l_lease_id l = au_lease_id (tq_authority request))
          (\<lambda>l. l\<lparr>l_expires_at := now + seconds 45\<rparr>) (attempt_leases db)\<rparr>"

definition start_attempt ::
  "env \<Rightarrow> db \<Rightarrow> string \<Rightarrow> uuid \<Rightarrow> uuid \<Rightarrow> string \<Rightarrow> start_request \<Rightarrow> (acknowledgment \<times> db) tx" where
  "start_attempt env db credential attempt_id callback_id payload_hash request =
     with_callback env db (tq_authority request) credential attempt_id callback_id payload_hash ''workerStartAttempt''
     (\<lambda>db1 t.
     let now = clk env 1;
         state = (if a_execution_intent (at_attempt t) = CHECKPOINT_FOR_PAUSE then J_PAUSING else J_RUNNING) in
     res_bind (live_authority t now) (\<lambda>_.
     res_bind (start_guard db1 t request now) (\<lambda>_.
     case transition env (start_rows db1 t attempt_id request now) (at_job t) (tq_authority request) state
       ''ATTEMPT_STARTED'' now id of (job, db2) \<Rightarrow>
     Inr (Ack_start callback_id now (j_state job) (j_version job) (now + seconds 45), db2))))"


subsection \<open>Completing\<close>

text \<open>The grants an authority descends from: the loop follows the predecessors until one is unknown or
  already seen.\<close>

definition grant_dict :: "db \<Rightarrow> uuid \<Rightarrow> (uuid, grant_row) dict" where
  "grant_dict db attempt_id = dict_of (map (\<lambda>g. (g_grant_id g, g))
     (filter (\<lambda>g. g_attempt_id g = attempt_id) (attempt_authority_grants db)))"

function ancestors_from :: "(uuid, grant_row) dict \<Rightarrow> uuid list \<Rightarrow> uuid option \<Rightarrow> uuid list" where
  "ancestors_from grants ancestors current =
     (case current of None \<Rightarrow> ancestors
      | Some c \<Rightarrow> if c \<in> set ancestors then ancestors
          else case map_of grants c of None \<Rightarrow> c # ancestors
            | Some member \<Rightarrow> ancestors_from grants (c # ancestors) (g_predecessor_grant_id member))"
  by pat_completeness auto
termination
proof (relation "measure (\<lambda>(grants, ancestors, _). card (fst ` set grants - set ancestors))", goal_cases)
  case 1
  then show ?case by simp
next
  case (2 grants ancestors current c member)
  then have "c \<in> fst ` set grants" by (metis map_of_eq_None_iff option.distinct(1))
  then have "fst ` set grants - set (c # ancestors) \<subset> fst ` set grants - set ancestors" using 2 by auto
  then show ?case by (simp add: psubset_card_mono)
qed

declare ancestors_from.simps [simp del]

definition uploads_of :: "db \<Rightarrow> artifact_row \<Rightarrow> job_row \<Rightarrow> attempt_row \<Rightarrow> upload_row list" where
  "uploads_of db artifact job attempt =
     concat (map (\<lambda>up. map (\<lambda>_. up) (filter (\<lambda>r. af_owner r = UPLOAD_SESSION (up_upload_id up) \<and>
         af_artifact_id r = ar_artifact_id artifact \<and> af_tenant_id r = j_tenant_id job) (artifact_references db)))
       (filter (\<lambda>up. up_tenant_id up = j_tenant_id job \<and> up_job_id up = Some (j_job_id job) \<and>
         up_attempt_id up = Some (a_attempt_id attempt) \<and> up_state up = UP_COMMITTED \<and>
         up_expected_checksum up = ar_checksum artifact \<and> up_expected_size_bytes up = ar_size_bytes artifact)
         (upload_sessions db)))"

definition upload_from_attempt :: "db \<Rightarrow> artifact_row \<Rightarrow> authority_tuple \<Rightarrow> unit tx" where
  "upload_from_attempt db artifact t =
     (let job = at_job t; attempt = at_attempt t; grant = at_grant t;
          grants = grant_dict db (a_attempt_id attempt);
          ancestors = ancestors_from grants [] (Some (g_grant_id grant)) in
      if list_ex (\<lambda>up. case Option.bind (up_authority_grant_id up) (map_of grants) of None \<Rightarrow> False
           | Some origin \<Rightarrow> g_grant_id origin \<in> set ancestors \<and> g_job_id origin = j_job_id job \<and>
               g_attempt_id origin = a_attempt_id attempt \<and> g_allocation_id origin = g_allocation_id grant \<and>
               g_lease_id origin = g_lease_id grant \<and> g_job_fence origin = g_job_fence grant)
           (uploads_of db artifact job attempt)
      then Inr ()
      else Inl (state_conflict ''Result artifact has no matching upload lineage''))"

record provenance =
  pr_tenant_id :: uuid
  pr_job_id :: uuid
  pr_session_id :: uuid
  pr_attempt_id :: uuid
  pr_job_fence :: int
  pr_input_checksum :: string
  pr_spec_checksum :: string
  pr_template :: "string \<times> int"
  pr_adapter :: "string \<times> string"
  pr_image_digest :: string

record binding =
  bd_artifact_id :: uuid
  bd_media_type :: string
  bd_size_bytes :: int
  bd_checksum :: string
  bd_logical_name :: string

record complete_request =
  mq_authority :: authority
  mq_result_manifest_artifact_id :: uuid
  mq_manifest :: string
  mq_manifest_result_id :: "uuid option"

text \<open>\<^verbatim>\<open>validate_result_manifest\<close> answers the file bindings of a valid manifest, and
  \<^verbatim>\<open>_recognized_result_chunks\<close> the artifact edges of recognized chunks (none where the adapter has no
  chunks).\<close>

record validators =
  vd_manifest :: "db \<Rightarrow> string \<Rightarrow> string \<Rightarrow> artifact_row \<Rightarrow> uuid \<Rightarrow> provenance \<Rightarrow> binding list tx"
  vd_chunks :: "db \<Rightarrow> string \<Rightarrow> provenance \<Rightarrow> binding list \<Rightarrow> (uuid \<times> string \<times> string) list tx"

definition result_manifest_max_bytes :: int where
  "result_manifest_max_bytes = 1024 * 1024"

definition result_artifact ::
  "db \<Rightarrow> authority_tuple \<Rightarrow> complete_request \<Rightarrow> (uuid \<times> string) option \<Rightarrow> artifact_row tx" where
  "result_artifact db t request prefetched =
     res_bind (one_or_none (filter (\<lambda>ar. ar_artifact_id ar = mq_result_manifest_artifact_id request \<and>
       ar_tenant_id ar = j_tenant_id (at_job t) \<and> ar_state ar = AR_COMMITTED \<and> ar_kind ar = ''RESULT_MANIFEST'')
       (artifacts db))) (\<lambda>row.
     case row of None \<Rightarrow> Inl (state_conflict ''Result manifest is not committed'')
     | Some ar \<Rightarrow>
         if ar_size_bytes ar > result_manifest_max_bytes
         then Inl (ApplicationError ''validation_failed'' 422 ''Result manifest exceeds its size bound'')
         else if map_option fst prefetched \<noteq> Some (ar_artifact_id ar)
         then Inl (storage_unavailable ''Artifact storage is unavailable'')
         else res_bind (upload_from_attempt db ar t) (\<lambda>_. Inr ar))"

definition result_provenance :: "db \<Rightarrow> authority_tuple \<Rightarrow> uuid \<Rightarrow> provenance tx" where
  "result_provenance db t attempt_id =
     (let job = at_job t in
     res_bind (spec_of_job db (j_job_id job)) (\<lambda>sp.
     res_bind (template_of_spec db sp) (\<lambda>template.
     res_bind (one (filter (\<lambda>ar. Some (ar_artifact_id ar) = sp_input_artifact_id sp \<and>
       ar_tenant_id ar = j_tenant_id job \<and> ar_state ar = AR_COMMITTED) (artifacts db))) (\<lambda>input_artifact.
     res_bind (one (filter (\<lambda>ls. ls_job_id ls = j_job_id job) (logical_sessions db))) (\<lambda>ls.
     Inr \<lparr>pr_tenant_id = j_tenant_id job, pr_job_id = j_job_id job, pr_session_id = ls_session_id ls,
       pr_attempt_id = attempt_id, pr_job_fence = j_job_fence job, pr_input_checksum = ar_checksum input_artifact,
       pr_spec_checksum = sp_spec_checksum sp, pr_template = (sp_template_id sp, sp_template_version sp),
       pr_adapter = (t_adapter_id template, t_adapter_version template),
       pr_image_digest = t_image_digest template\<rparr>)))))"

fun result_outputs :: "db \<Rightarrow> authority_tuple \<Rightarrow> binding list \<Rightarrow> (uuid \<times> string \<times> string) list tx" where
  "result_outputs db t [] = Inr []"
| "result_outputs db t (b # bs) =
     res_bind (one_or_none (filter (\<lambda>ar. ar_artifact_id ar = bd_artifact_id b \<and>
       ar_tenant_id ar = j_tenant_id (at_job t) \<and> ar_state ar = AR_COMMITTED \<and> ar_kind ar = ''RESULT_FILE'')
       (artifacts db))) (\<lambda>row.
     case row of None \<Rightarrow> Inl (state_conflict ''Result file binding is invalid'')
     | Some output \<Rightarrow>
         if ar_media_type output \<noteq> bd_media_type b \<or> ar_size_bytes output \<noteq> bd_size_bytes b \<or>
            ar_checksum output \<noteq> bd_checksum b
         then Inl (state_conflict ''Result file binding is invalid'')
         else res_bind (upload_from_attempt db output t) (\<lambda>_.
           res_bind (result_outputs db t bs) (\<lambda>edges.
             Inr ((ar_artifact_id output, ''RESULT_FILE'', bd_logical_name b) # edges))))"

text \<open>The statements of a recognized result, before the counters are adjusted.\<close>

definition result_rows ::
  "db \<Rightarrow> authority_tuple \<Rightarrow> uuid \<Rightarrow> uuid \<Rightarrow> uuid \<Rightarrow> artifact_row \<Rightarrow> (uuid \<times> string \<times> string) list \<Rightarrow> timestamp \<Rightarrow> db" where
  "result_rows db t attempt_id callback_id result_id artifact edges now =
     db\<lparr>results := results db @ [\<lparr>re_result_id = result_id, re_tenant_id = j_tenant_id (at_job t),
          re_job_id = j_job_id (at_job t), re_attempt_id = attempt_id,
          re_manifest_artifact_id = ar_artifact_id artifact, re_manifest_checksum = ar_checksum artifact,
          re_completion_callback_id = callback_id, re_created_at = now\<rparr>],
        artifact_references := artifact_references db @ map (\<lambda>(artifact_id, purpose, name).
          \<lparr>af_tenant_id = j_tenant_id (at_job t), af_artifact_id = artifact_id, af_owner = RESULT result_id,
            af_purpose = purpose, af_logical_name = name\<rparr>) edges,
        result_reservations := update_where (\<lambda>r. rr_result_id r = result_id) (\<lambda>r. r\<lparr>rr_state := RR_COMMITTED\<rparr>)
          (result_reservations db),
        attempts := update_where (\<lambda>a. a_attempt_id a = attempt_id)
          (\<lambda>a. a\<lparr>a_state := A_SUCCEEDED, a_ended_at := Some now, a_updated_at := now\<rparr>) (attempts db)\<rparr>"

definition complete_body ::
  "env \<Rightarrow> validators \<Rightarrow> (uuid \<times> string) option \<Rightarrow> counter_row list \<Rightarrow> uuid \<Rightarrow> uuid \<Rightarrow> complete_request \<Rightarrow>
   db \<Rightarrow> authority_tuple \<Rightarrow> (acknowledgment \<times> db) tx" where
  "complete_body env vd prefetched counters attempt_id callback_id request db t =
     (let now = clk env 1; job = at_job t in
     res_bind (live_authority t now) (\<lambda>_.
     res_bind (result_authority t) (\<lambda>_.
     if j_state job \<noteq> J_RUNNING \<or> a_state (at_attempt t) \<noteq> A_RUNNING
     then Inl (state_conflict ''Attempt is not running'')
     else res_bind (one_or_none (filter (\<lambda>r. rr_job_id r = j_job_id job \<and> rr_attempt_id r = attempt_id \<and>
       rr_authority_grant_id r = g_grant_id (at_grant t) \<and> rr_state r = RR_ACTIVE) (result_reservations db))) (\<lambda>row.
     case row of None \<Rightarrow> Inl (state_conflict ''Result reservation identity is invalid'')
     | Some reservation \<Rightarrow>
     if mq_manifest_result_id request \<noteq> Some (rr_result_id reservation)
     then Inl (state_conflict ''Result reservation identity is invalid'')
     else res_bind (result_artifact db t request prefetched) (\<lambda>artifact.
     res_bind (result_provenance db t attempt_id) (\<lambda>provenance.
     res_bind (vd_manifest vd db (mq_manifest request) (snd (the prefetched)) artifact (rr_result_id reservation)
       provenance) (\<lambda>bindings.
     res_bind (result_outputs db t bindings) (\<lambda>outputs.
     res_bind (vd_chunks vd db (mq_manifest request) provenance bindings) (\<lambda>chunk_edges.
     res_bind (adjust_counters (result_rows db t attempt_id callback_id (rr_result_id reservation) artifact
       ((ar_artifact_id artifact, ''RESULT_MANIFEST'', ''manifest'') # outputs @ chunk_edges) now) counters now 1 0) (\<lambda>db1.
     case transition env db1 job (mq_authority request) J_SUCCEEDED ''RESULT_RECOGNIZED'' now
       (\<lambda>j. j\<lparr>j_terminal_at := Some now\<rparr>) of (job', db2) \<Rightarrow>
     Inr (Ack_job callback_id now J_SUCCEEDED (j_version job'),
       extend_retention db2 (j_job_id job) now (terminal_retention_days env))))))))))))"

definition complete_attempt ::
  "env \<Rightarrow> db \<Rightarrow> validators \<Rightarrow> (uuid \<times> string) option \<Rightarrow> string \<Rightarrow> uuid \<Rightarrow> uuid \<Rightarrow> string \<Rightarrow> complete_request \<Rightarrow>
   (acknowledgment \<times> db) tx" where
  "complete_attempt env db vd prefetched credential attempt_id callback_id payload_hash request =
     res_bind (lock_policy_counters db attempt_id) (\<lambda>(_, counters).
     with_callback env db (mq_authority request) credential attempt_id callback_id payload_hash
       ''workerCompleteAttempt'' (complete_body env vd prefetched counters attempt_id callback_id request))"

end
