(* ===== verification/Checkpoint_Service.thy ===== *)
theory Checkpoint_Service
  imports Execution_Service
begin

section \<open>Checkpoint callbacks\<close>

text \<open>
  \<^verbatim>\<open>src/src/nexa/application/checkpoint_service.py\<close>: reserving the identity of a checkpoint and publishing
  it.  A publication is verified inside a savepoint; a defect of the manifest ends the reservation and,
  while a pause is pending, the pause itself.  The checks of manifest bytes
  (\<^verbatim>\<open>checkpoint_validation.py\<close>) and of chunk outputs (\<^verbatim>\<open>_recognized_chunk_graph\<close>) are a record of functions,
  and the bytes read before the transaction an argument.
\<close>

definition checkpoint_phase :: "job_row \<Rightarrow> attempt_row \<Rightarrow> bool" where
  "checkpoint_phase job attempt \<longleftrightarrow>
     (if j_state job = J_RUNNING
      then j_desired_state job = D_RUNNING \<and> j_recovery_intent job = None \<and> a_execution_intent attempt = RUN
      else j_state job = J_PAUSING \<and> j_desired_state job = D_PAUSED \<and>
        j_recovery_intent job = (if a_execution_intent attempt = RUN then None else Some CHECKPOINT_FOR_PAUSE))"

subsection \<open>Reserving a checkpoint\<close>

text \<open>The statements of a reservation whose checks passed.\<close>

definition checkpoint_rows :: "db \<Rightarrow> authority_tuple \<Rightarrow> uuid \<Rightarrow> uuid \<Rightarrow> uuid \<Rightarrow> timestamp \<Rightarrow> db" where
  "checkpoint_rows db t attempt_id callback_id checkpoint_id now =
     (let job = at_job t; sequence = j_checkpoint_sequence job + 1 in
      db\<lparr>jobs := update_where (\<lambda>j. j_job_id j = j_job_id job) (\<lambda>j. j\<lparr>j_checkpoint_sequence := sequence\<rparr>) (jobs db),
         checkpoint_reservations := checkpoint_reservations db @ [\<lparr>cr_checkpoint_id = checkpoint_id,
           cr_tenant_id = j_tenant_id job, cr_job_id = j_job_id job, cr_attempt_id = attempt_id,
           cr_authority_grant_id = g_grant_id (at_grant t), cr_sequence = sequence, cr_callback_id = callback_id,
           cr_state = CR_RESERVED, cr_reserved_at = now, cr_ended_at = None\<rparr>],
         attempts := update_where (\<lambda>a. a_attempt_id a = attempt_id)
           (\<lambda>a. a\<lparr>a_state := A_CHECKPOINTING, a_updated_at := now\<rparr>) (attempts db)\<rparr>)"

definition reserve_checkpoint ::
  "env \<Rightarrow> db \<Rightarrow> string \<Rightarrow> uuid \<Rightarrow> uuid \<Rightarrow> string \<Rightarrow> authority \<Rightarrow> (acknowledgment \<times> db) tx" where
  "reserve_checkpoint env db credential attempt_id callback_id payload_hash au =
     with_callback env db au credential attempt_id callback_id payload_hash ''workerReserveCheckpoint'' (\<lambda>db1 t.
     let now = clk env 1; job = at_job t in
     if frozen db1 then Inl (state_conflict ''Writes are frozen'')
     else res_bind (live_authority t now) (\<lambda>_.
     if a_state (at_attempt t) \<noteq> A_RUNNING \<or> \<not> checkpoint_phase job (at_attempt t)
     then Inl (state_conflict ''Attempt cannot reserve a checkpoint now'')
     else res_bind (spec_of_job db1 (j_job_id job)) (\<lambda>sp.
     res_bind (template_of_spec db1 sp) (\<lambda>template.
     if \<not> t_checkpointable template then Inl (state_conflict ''Template is not checkpointable'')
     else if list_ex (\<lambda>r. cr_attempt_id r = attempt_id \<and> cr_state r = CR_RESERVED) (checkpoint_reservations db1) \<or>
       list_ex (\<lambda>r. rr_job_id r = j_job_id job \<and> rr_state r = RR_ACTIVE) (result_reservations db1)
     then Inl (state_conflict ''A checkpoint or result reservation is already active'')
     else Inr (Ack_reserve_checkpoint callback_id (ids env 1) (j_job_id job) attempt_id
            (j_checkpoint_sequence job + 1) now,
          checkpoint_rows db1 t attempt_id callback_id (ids env 1) now)))))"

subsection \<open>Publishing a checkpoint\<close>

datatype graph_error = Aborted tx_error | CheckpointManifestError string string

definition abort :: "'a tx \<Rightarrow> (graph_error, 'a) result" where
  "abort m = (case m of Inl e \<Rightarrow> Inl (Aborted e) | Inr x \<Rightarrow> Inr x)"

record checkpoint_request =
  kq_authority :: authority
  kq_manifest_artifact_id :: uuid
  kq_manifest :: string
  kq_provenance :: string
  kq_compatibility :: string

record checkpoint_validators =
  kv_compatibility :: "template_row \<Rightarrow> string \<Rightarrow> (graph_error, string) result"
  kv_manifest :: "string \<Rightarrow> string \<Rightarrow> artifact_row \<Rightarrow> uuid \<Rightarrow> int \<Rightarrow> provenance \<Rightarrow> string \<Rightarrow> string \<Rightarrow>
    (graph_error, binding list) result"
  kv_chunks :: "db \<Rightarrow> string \<Rightarrow> provenance \<Rightarrow> binding list \<Rightarrow> string \<Rightarrow> (graph_error, (uuid \<times> string \<times> string) list) result"

definition checkpoint_manifest_max_bytes :: int where
  "checkpoint_manifest_max_bytes = 1024 * 1024"

definition expected_provenance :: "db \<Rightarrow> job_row \<Rightarrow> spec_row \<Rightarrow> template_row \<Rightarrow> uuid \<Rightarrow> int \<Rightarrow> provenance tx" where
  "expected_provenance db job sp template attempt_id fence =
     res_bind (one (filter (\<lambda>ls. ls_job_id ls = j_job_id job) (logical_sessions db))) (\<lambda>ls.
     res_bind (one (filter (\<lambda>ar. Some (ar_artifact_id ar) = sp_input_artifact_id sp \<and>
       ar_tenant_id ar = j_tenant_id job) (artifacts db))) (\<lambda>input_artifact.
     Inr \<lparr>pr_tenant_id = j_tenant_id job, pr_job_id = j_job_id job, pr_session_id = ls_session_id ls,
       pr_attempt_id = attempt_id, pr_job_fence = fence, pr_input_checksum = ar_checksum input_artifact,
       pr_spec_checksum = sp_spec_checksum sp, pr_template = (sp_template_id sp, sp_template_version sp),
       pr_adapter = (t_adapter_id template, t_adapter_version template),
       pr_image_digest = t_image_digest template\<rparr>))"

definition worker_architecture :: "db \<Rightarrow> uuid \<Rightarrow> string option tx" where
  "worker_architecture db worker_id = one_or_none (concat (map (\<lambda>w. map iv_architecture
     (filter (\<lambda>iv. iv_worker_id iv = w_worker_id w \<and> Some (iv_inventory_version iv) = w_current_inventory_version w)
       (worker_inventories db))) (filter (\<lambda>w. w_worker_id w = worker_id) (workers db))))"

definition manifest_artifact ::
  "db \<Rightarrow> authority_tuple \<Rightarrow> checkpoint_request \<Rightarrow> (uuid \<times> string \<times> string) option \<Rightarrow> (graph_error, artifact_row) result" where
  "manifest_artifact db t request prefetched =
     res_bind (abort (one_or_none (filter (\<lambda>ar. ar_artifact_id ar = kq_manifest_artifact_id request \<and>
       ar_tenant_id ar = j_tenant_id (at_job t)) (artifacts db)))) (\<lambda>row.
     let invalid = CheckpointManifestError ''CHECKPOINT_MANIFEST_INVALID'' in
     case row of None \<Rightarrow> Inl (invalid ''Checkpoint manifest artifact is invalid'')
     | Some ar \<Rightarrow>
       if ar_state ar \<noteq> AR_COMMITTED \<or> ar_kind ar \<noteq> ''CHECKPOINT_MANIFEST'' \<or>
          ar_size_bytes ar > checkpoint_manifest_max_bytes
       then Inl (invalid ''Checkpoint manifest artifact is invalid'')
       else case upload_from_attempt db ar t of
           Inl _ \<Rightarrow> Inl (invalid ''Checkpoint manifest has no upload lineage'')
         | Inr _ \<Rightarrow> if map_option fst prefetched \<noteq> Some (ar_artifact_id ar)
             then Inl (Aborted (storage_unavailable ''Artifact storage is unavailable''))
             else Inr ar)"

definition file_dict :: "db \<Rightarrow> uuid \<Rightarrow> binding list \<Rightarrow> (uuid, artifact_row) dict" where
  "file_dict db tenant_id entries = dict_of (map (\<lambda>ar. (ar_artifact_id ar, ar)) (filter (\<lambda>ar.
     ar_artifact_id ar \<in> set (map bd_artifact_id entries) \<and> ar_tenant_id ar = tenant_id) (artifacts db)))"

fun check_file_artifacts ::
  "(uuid, artifact_row) dict \<Rightarrow> uuid \<Rightarrow> binding list \<Rightarrow> (graph_error, artifact_row list) result" where
  "check_file_artifacts rows tenant_id [] = Inr []"
| "check_file_artifacts rows tenant_id (b # bs) =
     (let invalid = Inl (CheckpointManifestError ''CHECKPOINT_FILES_INVALID'' ''Checkpoint file binding is invalid'') in
      case map_of rows (bd_artifact_id b) of None \<Rightarrow> invalid
      | Some ar \<Rightarrow>
         if ar_tenant_id ar \<noteq> tenant_id \<or> ar_state ar \<noteq> AR_COMMITTED \<or> ar_kind ar \<noteq> ''CHECKPOINT_FILE'' \<or>
            ar_media_type ar \<noteq> bd_media_type b \<or> ar_size_bytes ar \<noteq> bd_size_bytes b \<or> ar_checksum ar \<noteq> bd_checksum b
         then invalid
         else res_bind (check_file_artifacts rows tenant_id bs) (\<lambda>ars. Inr (ar # ars)))"

fun check_lineage :: "db \<Rightarrow> authority_tuple \<Rightarrow> artifact_row list \<Rightarrow> (graph_error, unit) result" where
  "check_lineage db t [] = Inr ()"
| "check_lineage db t (ar # ars) = (case upload_from_attempt db ar t of
     Inl _ \<Rightarrow> Inl (CheckpointManifestError ''CHECKPOINT_FILES_INVALID'' ''Checkpoint file has no upload lineage'')
   | Inr _ \<Rightarrow> check_lineage db t ars)"

definition batch_inference_template_id :: string where
  "batch_inference_template_id = ''batch-inference''"

text \<open>The artifact of a verified manifest with the edges its checkpoint refers to.\<close>

definition verified_checkpoint_graph ::
  "db \<Rightarrow> checkpoint_validators \<Rightarrow> authority_tuple \<Rightarrow> checkpoint_reservation_row \<Rightarrow> checkpoint_request \<Rightarrow>
   (uuid \<times> string \<times> string) option \<Rightarrow> (graph_error, artifact_row \<times> (uuid \<times> string \<times> string) list) result" where
  "verified_checkpoint_graph db kv t reservation request prefetched =
     (let job = at_job t; attempt = at_attempt t in
     res_bind (manifest_artifact db t request prefetched) (\<lambda>artifact.
     res_bind (abort (spec_of_job db (j_job_id job))) (\<lambda>sp.
     res_bind (abort (template_of_spec db sp)) (\<lambda>template.
     res_bind (abort (expected_provenance db job sp template (a_attempt_id attempt) (j_job_fence job))) (\<lambda>prov.
     res_bind (abort (worker_architecture db (a_worker_id attempt))) (\<lambda>architecture.
     case architecture of None \<Rightarrow> Inl (Aborted (storage_unavailable ''Worker inventory is not reported yet''))
     | Some arch \<Rightarrow>
     res_bind (kv_compatibility kv template arch) (\<lambda>compatibility.
     res_bind (kv_manifest kv (kq_manifest request) (fst (snd (the prefetched))) artifact
       (cr_checkpoint_id reservation) (cr_sequence reservation) prov compatibility (sp_canonical_spec sp)) (\<lambda>entries.
     res_bind (check_file_artifacts (file_dict db (j_tenant_id job) entries) (j_tenant_id job) entries) (\<lambda>files.
     res_bind (check_lineage db t files) (\<lambda>_.
     res_bind (if fst (pr_template prov) = batch_inference_template_id
       then kv_chunks kv db (kq_manifest request) prov entries (snd (snd (the prefetched))) else Inr []) (\<lambda>chunk_edges.
     Inr (artifact, (ar_artifact_id artifact, ''CHECKPOINT_MANIFEST'', ''manifest'') #
       map2 (\<lambda>entry row. (ar_artifact_id row, ''CHECKPOINT_FILE'', bd_logical_name entry)) entries files @
       chunk_edges))))))))))))"

definition set_attempt_state :: "db \<Rightarrow> uuid \<Rightarrow> attempt_state \<Rightarrow> timestamp \<Rightarrow> db" where
  "set_attempt_state db attempt_id state now = db\<lparr>attempts := update_where (\<lambda>a. a_attempt_id a = attempt_id)
     (\<lambda>a. a\<lparr>a_state := state, a_updated_at := now\<rparr>) (attempts db)\<rparr>"

definition end_reservation :: "db \<Rightarrow> uuid \<Rightarrow> checkpoint_reservation_state \<Rightarrow> timestamp \<Rightarrow> db" where
  "end_reservation db checkpoint_id state now = db\<lparr>checkpoint_reservations :=
     update_where (\<lambda>r. cr_checkpoint_id r = checkpoint_id) (\<lambda>r. r\<lparr>cr_state := state, cr_ended_at := Some now\<rparr>)
       (checkpoint_reservations db)\<rparr>"

definition rejected_rows ::
  "db \<Rightarrow> authority_tuple \<Rightarrow> uuid \<Rightarrow> uuid \<Rightarrow> checkpoint_reservation_row \<Rightarrow> string \<Rightarrow> timestamp \<Rightarrow> db" where
  "rejected_rows db t worker_id attempt_id reservation reason_code now =
     (let db1 = set_attempt_state (end_reservation db (cr_checkpoint_id reservation) CR_REJECTED now)
                  attempt_id A_RUNNING now in
      snd (if j_state (at_job t) = J_PAUSING \<and> a_execution_intent (at_attempt t) = RUN
        then worker_event db1 (at_job t) worker_id now ''PAUSE_ABORTED'' reason_code False
          (\<lambda>j. j\<lparr>j_state := J_RUNNING, j_desired_state := D_RUNNING\<rparr>)
        else worker_event db1 (at_job t) worker_id now ''CHECKPOINT_REJECTED'' reason_code False id))"

definition committed_rows ::
  "db \<Rightarrow> authority_tuple \<Rightarrow> uuid \<Rightarrow> uuid \<Rightarrow> checkpoint_reservation_row \<Rightarrow> checkpoint_request \<Rightarrow> artifact_row \<Rightarrow>
   (uuid \<times> string \<times> string) list \<Rightarrow> timestamp \<Rightarrow> db" where
  "committed_rows db t worker_id attempt_id reservation request artifact edges now =
     (let job = at_job t; checkpoint_id = cr_checkpoint_id reservation;
          db1 = end_reservation db checkpoint_id CR_COMMITTED now;
          db2 = db1\<lparr>checkpoints := checkpoints db1 @ [\<lparr>cp_checkpoint_id = checkpoint_id, cp_tenant_id = j_tenant_id job,
              cp_job_id = j_job_id job, cp_attempt_id = attempt_id, cp_sequence = cr_sequence reservation,
              cp_manifest_artifact_id = ar_artifact_id artifact, cp_manifest_checksum = ar_checksum artifact,
              cp_provenance = kq_provenance request, cp_compatibility = kq_compatibility request,
              cp_created_at = now\<rparr>],
            artifact_references := artifact_references db1 @ map (\<lambda>(artifact_id, purpose, name).
              \<lparr>af_tenant_id = j_tenant_id job, af_artifact_id = artifact_id, af_owner = CHECKPOINT checkpoint_id,
                af_purpose = purpose, af_logical_name = name\<rparr>) edges\<rparr>;
          db3 = set_attempt_state db2 attempt_id (if j_state job = J_PAUSING then A_STOPPING else A_RUNNING) now in
      snd (worker_event db3 job worker_id now ''CHECKPOINT_COMMITTED'' ''CHECKPOINT_COMMITTED'' False id))"

text \<open>A rejected publication commits, and its stored error is raised after the commit.\<close>

definition publish_checkpoint ::
  "env \<Rightarrow> db \<Rightarrow> checkpoint_validators \<Rightarrow> (uuid \<times> string \<times> string) option \<Rightarrow> string \<Rightarrow> uuid \<Rightarrow> uuid \<Rightarrow> string \<Rightarrow>
   checkpoint_request \<Rightarrow> (acknowledgment \<times> db) tx" where
  "publish_checkpoint env db kv prefetched credential attempt_id callback_id payload_hash request =
     with_callback env db (kq_authority request) credential attempt_id callback_id payload_hash
     ''workerPublishCheckpoint'' (\<lambda>db1 t.
     let now = clk env 1; job = at_job t; worker_id = au_worker_id (kq_authority request) in
     if frozen db1 then Inl (state_conflict ''Writes are frozen'')
     else res_bind (live_authority t now) (\<lambda>_.
     if a_state (at_attempt t) \<noteq> A_CHECKPOINTING \<or> \<not> checkpoint_phase job (at_attempt t)
     then Inl (state_conflict ''Attempt has no checkpoint in progress'')
     else res_bind (one_or_none (filter (\<lambda>r. cr_attempt_id r = attempt_id \<and> cr_state r = CR_RESERVED)
       (checkpoint_reservations db1))) (\<lambda>row.
     case row of None \<Rightarrow> Inl (state_conflict ''Checkpoint reservation is not held by this Authority'')
     | Some reservation \<Rightarrow>
     if cr_authority_grant_id reservation \<noteq> g_grant_id (at_grant t)
     then Inl (state_conflict ''Checkpoint reservation is not held by this Authority'')
     else case verified_checkpoint_graph db1 kv t reservation request prefetched of
         Inl (Aborted e) \<Rightarrow> Inl e
       | Inl (CheckpointManifestError reason_code message) \<Rightarrow>
           Inr (Ack_error ''validation_failed'' message,
             rejected_rows db1 t worker_id attempt_id reservation reason_code now)
       | Inr (artifact, edges) \<Rightarrow>
           Inr (Ack_checkpoint (cr_checkpoint_id reservation) (j_job_id job) attempt_id (cr_sequence reservation)
               (ar_artifact_id artifact) (ar_checksum artifact) now,
             committed_rows db1 t worker_id attempt_id reservation request artifact edges now))))"

end
