(* ===== verification/Lifecycle_Worker.thy ===== *)
theory Lifecycle_Worker
  imports Job_Lifecycle Checkpoint_Service
begin

section \<open>Worker callbacks in the life of a job\<close>

text \<open>
  Every worker callback keeps the invariant of the store and moves its job along the documented state
  machine.  An authority that passes the check is that of the one attempt holding the job.
\<close>

subsection \<open>Authority\<close>

lemma distinct_key_other:
  assumes "distinct (map k t)" "r \<in> set t" "r' \<in> set t" "c r' \<noteq> c r"
  shows "k r' \<noteq> k r"
  using distinct_map_inj [OF assms(1,3,2)] assms(4) by blast

lemma authority_rows_Inr:
  assumes "authority_rows db au w = Inr t"
  shows "filter (\<lambda>a. a_attempt_id a = au_attempt_id au) (attempts db) = [at_attempt t]"
    "filter (\<lambda>j. j_job_id j = a_job_id (at_attempt t)) (jobs db) = [at_job t]"
    "filter (\<lambda>l. l_lease_id l = au_lease_id au) (attempt_leases db) = [at_lease t]"
    "filter (\<lambda>al. al_allocation_id al = au_allocation_id au) (allocations db) = [at_allocation t]"
    "filter (\<lambda>g. g_attempt_id g = au_attempt_id au \<and> g_ended_at g = None) (attempt_authority_grants db) = [at_grant t]"
    "\<not> authority_stale au w t" "au_worker_id au = w"
    "\<not> (j_desired_state (at_job t) = D_CANCELLED \<and> j_job_id (at_job t) = a_job_id (at_attempt t) \<and>
        a_worker_id (at_attempt t) = w)"
proof -
  have w: "au_worker_id au = w" using assms by (auto simp: authority_rows_def split: if_splits)
  then obtain ref where ref: "one_or_none (filter (\<lambda>a. a_attempt_id a = au_attempt_id au) (attempts db)) = Inr ref"
    using assms by (auto simp: authority_rows_def res_bind_Inr_iff)
  then obtain a where a: "ref = Some a" using assms w by (auto simp: authority_rows_def split: option.splits)
  obtain job lease allocation grant where rows: "one (filter (\<lambda>j. j_job_id j = a_job_id a) (jobs db)) = Inr job"
      "one_or_none (filter (\<lambda>l. l_lease_id l = au_lease_id au) (attempt_leases db)) = Inr lease"
      "one_or_none (filter (\<lambda>al. al_allocation_id al = au_allocation_id au) (allocations db)) = Inr allocation"
      "one_or_none (filter (\<lambda>g. g_attempt_id g = au_attempt_id au \<and> g_ended_at g = None) (attempt_authority_grants db)) = Inr grant"
    using assms w ref a by (auto simp: authority_rows_def res_bind_Inr_iff)
  have c: "\<not> (j_desired_state job = D_CANCELLED \<and> j_job_id job = a_job_id a \<and> a_worker_id a = w)"
    using assms w ref a rows by (auto simp: authority_rows_def)
  have e: "(case (lease, allocation, grant) of (Some l, Some al, Some g) \<Rightarrow>
        let t = \<lparr>at_job = job, at_attempt = a, at_lease = l, at_allocation = al, at_grant = g\<rparr> in
        if authority_stale au w t then Inl (stale_authority ''Worker authority is stale'') else Inr t
      | _ \<Rightarrow> Inl (stale_authority ''Worker authority is stale'')) = Inr t"
    using assms w ref a rows c by (simp add: authority_rows_def)
  then obtain l al g where some: "lease = Some l" "allocation = Some al" "grant = Some g"
    by (cases lease; cases allocation; cases grant) simp_all
  then have t: "t = \<lparr>at_job = job, at_attempt = a, at_lease = l, at_allocation = al, at_grant = g\<rparr>"
      "\<not> authority_stale au w t"
    using e by (auto simp: Let_def split: if_splits)
  show "filter (\<lambda>a. a_attempt_id a = au_attempt_id au) (attempts db) = [at_attempt t]"
    "filter (\<lambda>j. j_job_id j = a_job_id (at_attempt t)) (jobs db) = [at_job t]"
    "filter (\<lambda>l. l_lease_id l = au_lease_id au) (attempt_leases db) = [at_lease t]"
    "filter (\<lambda>al. al_allocation_id al = au_allocation_id au) (allocations db) = [at_allocation t]"
    "filter (\<lambda>g. g_attempt_id g = au_attempt_id au \<and> g_ended_at g = None) (attempt_authority_grants db) = [at_grant t]"
    using ref a rows some by (simp_all add: t(1) res_simps)
  show "\<not> authority_stale au w t" "au_worker_id au = w" by (rule t w)+
  show "\<not> (j_desired_state (at_job t) = D_CANCELLED \<and> j_job_id (at_job t) = a_job_id (at_attempt t) \<and>
        a_worker_id (at_attempt t) = w)" using c by (simp add: t(1))
qed

lemma authority_held:
  assumes inv: "inv db" and rows: "authority_rows db au w = Inr t"
  shows "at_job t \<in> set (jobs db)" "at_attempt t \<in> set (attempts db)"
    "a_job_id (at_attempt t) = j_job_id (at_job t)" "a_attempt_id (at_attempt t) = au_attempt_id au"
    "held_by (part db (j_job_id (at_job t))) (at_attempt t) (at_allocation t) (at_lease t) (at_grant t)"
    "a_job_fence (at_attempt t) = j_job_fence (at_job t)" "a_execution_intent (at_attempt t) = intent_of (at_job t)"
    "l_lease_id (at_lease t) = au_lease_id au" "al_allocation_id (at_allocation t) = au_allocation_id au"
    "j_desired_state (at_job t) \<noteq> D_CANCELLED" "au_job_fence au = j_job_fence (at_job t)"
proof -
  note r = authority_rows_Inr [OF rows]
  have a: "at_attempt t \<in> set (attempts db)" "a_attempt_id (at_attempt t) = au_attempt_id au"
    using filter_singleton [OF r(1)] by simp_all
  have j: "at_job t \<in> set (jobs db)" "j_job_id (at_job t) = a_job_id (at_attempt t)"
    using filter_singleton [OF r(2)] by simp_all
  have l: "at_lease t \<in> set (attempt_leases db)" "l_lease_id (at_lease t) = au_lease_id au"
    using filter_singleton [OF r(3)] by simp_all
  have al: "at_allocation t \<in> set (allocations db)" "al_allocation_id (at_allocation t) = au_allocation_id au"
    using filter_singleton [OF r(4)] by simp_all
  have g: "at_grant t \<in> set (attempt_authority_grants db)" "g_attempt_id (at_grant t) = au_attempt_id au"
      "g_ended_at (at_grant t) = None"
    using filter_singleton [OF r(5)] by simp_all
  have stale: "a_job_fence (at_attempt t) = au_job_fence au" "j_job_fence (at_job t) = au_job_fence au"
      "g_lease_id (at_grant t) = au_lease_id au" "g_allocation_id (at_grant t) = au_allocation_id au"
      "a_worker_id (at_attempt t) = w"
    using r(6) by (simp_all add: authority_stale_def Let_def)
  have "g_job_id (at_grant t) = a_job_id (at_attempt t)"
    using other_rows(4) [OF inv a(1), of "g_job_id (at_grant t)" "at_grant t"] g a(2) by auto
  then have "at_grant t \<in> set (live_grants (part db (j_job_id (at_job t))))" using g j by (simp add: live_grants_def)
  moreover have ok: "phase_ok (at_job t) (part db (j_job_id (at_job t)))"
    using inv_job(2) [OF inv j(1)] by (simp add: job_inv_def)
  ultimately obtain a' al' l' where h: "held_by (part db (j_job_id (at_job t))) a' al' l' (at_grant t)"
      "a_job_fence a' = j_job_fence (at_job t)" "a_execution_intent a' = intent_of (at_job t)"
    using live_grant_held by blast
  have "a' \<in> set (attempts db)" "a_attempt_id a' = au_attempt_id au" using h(1) g(2) by (simp_all add: held_by_def)
  then have a': "a' = at_attempt t" by (rule filter_singleton_mem [OF r(1)])
  have "al' \<in> set (unreleased (part db (j_job_id (at_job t))))" using h(1) by (simp add: held_by_def)
  then have "al' \<in> set (allocations db)" by (simp add: unreleased_def)
  then have al': "al' = at_allocation t"
    by (rule filter_singleton_mem [OF r(4)]) (use h(1) stale in \<open>simp add: held_by_def\<close>)
  have "l' \<in> set (live_leases (part db (j_job_id (at_job t))))" using h(1) by (simp add: held_by_def)
  then have "l' \<in> set (attempt_leases db)" by (simp add: live_leases_def)
  then have l': "l' = at_lease t"
    by (rule filter_singleton_mem [OF r(3)]) (use h(1) stale in \<open>simp add: held_by_def\<close>)
  show "at_job t \<in> set (jobs db)" "at_attempt t \<in> set (attempts db)"
    "a_job_id (at_attempt t) = j_job_id (at_job t)" "a_attempt_id (at_attempt t) = au_attempt_id au"
    "l_lease_id (at_lease t) = au_lease_id au" "al_allocation_id (at_allocation t) = au_allocation_id au"
    "au_job_fence au = j_job_fence (at_job t)"
    using a j l al stale by simp_all
  show "held_by (part db (j_job_id (at_job t))) (at_attempt t) (at_allocation t) (at_lease t) (at_grant t)"
    "a_job_fence (at_attempt t) = j_job_fence (at_job t)" "a_execution_intent (at_attempt t) = intent_of (at_job t)"
    using h a' al' l' by simp_all
  show "j_desired_state (at_job t) \<noteq> D_CANCELLED" using r(8) j(2) stale(5) by simp
qed

subsection \<open>Updates of the holding attempt\<close>

lemma held_by_mem:
  assumes "held_by (part db x) a al l g"
  shows "a \<in> set (attempts db)" "a_job_id a = x" "al \<in> set (allocations db)" "al_job_id al = x"
    "l \<in> set (attempt_leases db)" "l_job_id l = x" "g \<in> set (attempt_authority_grants db)" "g_job_id g = x"
proof -
  have "al \<in> set (unreleased (part db x))" "l \<in> set (live_leases (part db x))" "g \<in> set (live_grants (part db x))"
    using assms by (simp_all add: held_by_def)
  then show "a \<in> set (attempts db)" "a_job_id a = x" "al \<in> set (allocations db)" "al_job_id al = x"
    "l \<in> set (attempt_leases db)" "l_job_id l = x" "g \<in> set (attempt_authority_grants db)" "g_job_id g = x"
    using assms by (simp_all add: held_by_def unreleased_def live_leases_def live_grants_def)
qed

text \<open>A statement on the holding attempt, on its lease or on its grants leaves the rows of other jobs alone.\<close>

lemma held_other:
  assumes inv: "inv db" and held: "held_by (part db x) a al l g" and "y \<noteq> x"
  shows "update_where (\<lambda>r. a_attempt_id r = a_attempt_id a) F (filter (\<lambda>r. a_job_id r = y) (attempts db)) =
      filter (\<lambda>r. a_job_id r = y) (attempts db)"
    "update_where (\<lambda>r. l_lease_id r = l_lease_id l) L (filter (\<lambda>r. l_job_id r = y) (attempt_leases db)) =
      filter (\<lambda>r. l_job_id r = y) (attempt_leases db)"
    "update_where (\<lambda>r. g_grant_id r = g_grant_id g) G (filter (\<lambda>r. g_job_id r = y) (attempt_authority_grants db)) =
      filter (\<lambda>r. g_job_id r = y) (attempt_authority_grants db)"
    "update_where (\<lambda>r. al_allocation_id r = al_allocation_id al) A (filter (\<lambda>r. al_job_id r = y) (allocations db)) =
      filter (\<lambda>r. al_job_id r = y) (allocations db)"
proof -
  note m = held_by_mem [OF held]
  have keys: "distinct (map l_lease_id (attempt_leases db))" "distinct (map g_grant_id (attempt_authority_grants db))"
      "distinct (map al_allocation_id (allocations db))" "distinct (map a_attempt_id (attempts db))"
    using inv by (simp_all add: inv_def keys_ok_def)
  show "update_where (\<lambda>r. a_attempt_id r = a_attempt_id a) F (filter (\<lambda>r. a_job_id r = y) (attempts db)) =
      filter (\<lambda>r. a_job_id r = y) (attempts db)"
    by (rule update_where_none) (use distinct_key_other [OF keys(4) m(1), where c = a_job_id] m(2) assms(3) in auto)
  show "update_where (\<lambda>r. l_lease_id r = l_lease_id l) L (filter (\<lambda>r. l_job_id r = y) (attempt_leases db)) =
      filter (\<lambda>r. l_job_id r = y) (attempt_leases db)"
    by (rule update_where_none) (use distinct_key_other [OF keys(1) m(5), where c = l_job_id] m(6) assms(3) in auto)
  show "update_where (\<lambda>r. g_grant_id r = g_grant_id g) G (filter (\<lambda>r. g_job_id r = y) (attempt_authority_grants db)) =
      filter (\<lambda>r. g_job_id r = y) (attempt_authority_grants db)"
    by (rule update_where_none) (use distinct_key_other [OF keys(2) m(7), where c = g_job_id] m(8) assms(3) in auto)
  show "update_where (\<lambda>r. al_allocation_id r = al_allocation_id al) A (filter (\<lambda>r. al_job_id r = y) (allocations db)) =
      filter (\<lambda>r. al_job_id r = y) (allocations db)"
    by (rule update_where_none) (use distinct_key_other [OF keys(3) m(3), where c = al_job_id] m(4) assms(3) in auto)
qed

lemma update_where_id [simp]: "update_where p (\<lambda>r. r) t = t" "update_where p id t = t"
  by (induction t) simp_all

text \<open>The holding attempt and its lease are updated, keeping what identifies them.\<close>

definition held_rows_updated ::
  "db \<Rightarrow> db \<Rightarrow> attempt_row \<Rightarrow> (attempt_row \<Rightarrow> attempt_row) \<Rightarrow> lease_row \<Rightarrow> (lease_row \<Rightarrow> lease_row) \<Rightarrow> bool" where
  "held_rows_updated db db' a F l L \<longleftrightarrow>
     attempts db' = update_where (\<lambda>r. a_attempt_id r = a_attempt_id a) F (attempts db) \<and>
     attempt_leases db' = update_where (\<lambda>r. l_lease_id r = l_lease_id l) L (attempt_leases db) \<and>
     allocations db' = allocations db \<and> attempt_authority_grants db' = attempt_authority_grants db \<and>
     jobs db' = jobs db \<and> events db' = events db \<and> retry_schedules db' = retry_schedules db"

definition keeps_attempt :: "(attempt_row \<Rightarrow> attempt_row) \<Rightarrow> bool" where
  "keeps_attempt F \<longleftrightarrow> (\<forall>r. a_attempt_id (F r) = a_attempt_id r \<and> a_job_id (F r) = a_job_id r \<and>
     a_attempt_number (F r) = a_attempt_number r \<and> a_job_fence (F r) = a_job_fence r \<and>
     a_execution_intent (F r) = a_execution_intent r)"

definition keeps_lease :: "(lease_row \<Rightarrow> lease_row) \<Rightarrow> bool" where
  "keeps_lease L \<longleftrightarrow> (\<forall>r. l_lease_id (L r) = l_lease_id r \<and> l_job_id (L r) = l_job_id r \<and>
     l_attempt_id (L r) = l_attempt_id r \<and> l_allocation_id (L r) = l_allocation_id r \<and>
     l_job_fence (L r) = l_job_fence r \<and> l_revoked_at (L r) = l_revoked_at r)"

lemma held_update:
  assumes inv: "inv db" and held: "held_by (part db x) a al l g" and upd: "held_rows_updated db db' a F l L"
    and F: "keeps_attempt F" and L: "keeps_lease L"
  shows "keys_ok db'" "y \<noteq> x \<Longrightarrow> results db' = results db \<Longrightarrow> part db' y = part db y"
    "held_by (part db' x) (F a) al (L l) g"
    "attempts_ok j (part db x) \<Longrightarrow> j_job_fence j \<le> j_job_fence j' \<Longrightarrow> attempts_ok j' (part db' x)"
    "unreleased (part db' x) = unreleased (part db x)" "p_retries (part db' x) = p_retries (part db x)"
proof -
  note u = upd [unfolded held_rows_updated_def] and f = F [unfolded keeps_attempt_def] and k = L [unfolded keeps_lease_def]
  have at: "p_attempts (part db' y) = update_where (\<lambda>r. a_attempt_id r = a_attempt_id a) F (p_attempts (part db y))" for y
    using u f by (simp add: filter_update_where_key)
  have le: "p_leases (part db' y) = update_where (\<lambda>r. l_lease_id r = l_lease_id l) L (p_leases (part db y))" for y
    using u k by (simp add: filter_update_where_key)
  have rest: "p_allocations (part db' y) = p_allocations (part db y)" "p_grants (part db' y) = p_grants (part db y)"
      "p_jobs (part db' y) = p_jobs (part db y)" "p_events (part db' y) = p_events (part db y)"
      "p_retries (part db' y) = p_retries (part db y)" for y
    using u by simp_all
  show "keys_ok db'"
    using inv u f k unfolding inv_def keys_ok_def by (simp add: map_update_where)
  show "part db' y = part db y" if "y \<noteq> x" "results db' = results db"
    by (rule part_eqI) (use rest [of y] at [of y] le [of y] held_other [OF inv held that(1)] that(2) in simp_all)
  show "unreleased (part db' x) = unreleased (part db x)" using rest(1) by (simp add: unreleased_def del: part_sels)
  have "live_leases (part db' x) = update_where (\<lambda>r. l_lease_id r = l_lease_id l) L (live_leases (part db x))"
    unfolding live_leases_def le by (rule filter_update_keep) (use k in simp)
  moreover have "live_grants (part db' x) = live_grants (part db x)" using rest(2) by (simp add: live_grants_def del: part_sels)
  moreover have "F a \<in> set (p_attempts (part db' x))"
    using held unfolding at set_update_where held_by_def by (auto simp del: part_sels)
  ultimately show "held_by (part db' x) (F a) al (L l) g"
    using held f k \<open>unreleased (part db' x) = _\<close> unfolding held_by_def by (simp del: part_sels)
  show "p_retries (part db' x) = p_retries (part db x)" by (rule rest)
  show "attempts_ok j' (part db' x)" if "attempts_ok j (part db x)" "j_job_fence j \<le> j_job_fence j'"
    by (rule attempts_ok_cong [OF that(1)])
      (simp_all only: rest at le that(2) map_update_where f [rule_format] k [rule_format])
qed

subsection \<open>States of the holding attempt\<close>

fun holding :: "job_state \<Rightarrow> attempt_state set" where
  "holding J_DISPATCHING = {A_CREATED, A_CLAIMED}"
| "holding J_RUNNING = {A_RUNNING, A_CHECKPOINTING}"
| "holding J_PAUSING = {A_RUNNING, A_CHECKPOINTING, A_STOPPING}"
| "holding J_SUCCEEDED = {A_SUCCEEDED}"
| "holding _ = {}"

lemma held_by_unique:
  assumes "inv db" "held_by (part db x) a al l g" "held_by (part db x) a' al' l' g'"
  shows "a' = a" "al' = al" "l' = l" "g' = g"
proof -
  have "[al'] = [al]" "[l'] = [l]" "[g'] = [g]" using assms(2,3) by (simp_all add: held_by_def)
  then show eq: "al' = al" "l' = l" "g' = g" by simp_all
  have "distinct (map a_attempt_id (attempts db))" using assms(1) by (simp add: inv_def keys_ok_def)
  then show "a' = a"
    by (rule distinct_map_inj) (use assms(2,3) eq in \<open>simp_all add: held_by_def\<close>)
qed

lemma phase_held:
  assumes "inv db" "j \<in> set (jobs db)" "held_by (part db (j_job_id j)) a al l g"
  shows "a_state a \<in> holding (j_state j)" "a_job_fence a = j_job_fence j" "a_execution_intent a = intent_of j"
proof -
  have ok: "phase_ok j (part db (j_job_id j))" using inv_job(2) [OF assms(1,2)] by (simp add: job_inv_def)
  have not: "\<not> idle (part db (j_job_id j))" "\<not> quarantined_by (part db (j_job_id j)) b bl" for b bl
    using assms(3) by (auto simp: idle_def held_by_def quarantined_by_def)
  have "held_in j (part db (j_job_id j)) (holding (j_state j))"
    using ok not by (cases "j_state j") (auto simp: phase_ok_def)
  then show "a_state a \<in> holding (j_state j)" "a_job_fence a = j_job_fence j" "a_execution_intent a = intent_of j"
    unfolding held_in_def using held_by_unique [OF assms(1,3)] by blast+
qed

lemma phase_ok_held:
  assumes "held_by p a al l g" "a_job_fence a = j_job_fence j" "a_execution_intent a = intent_of j"
    "a_state a \<in> holding (j_state j)"
  shows "phase_ok j p"
  using assms by (cases "j_state j") (auto simp: phase_ok_def held_in_def)

lemma phase_ok_quarantined:
  assumes "quarantined_by p a al" "j_state j \<in> {J_RECOVERING, J_CANCELLING, J_SUCCEEDED}"
    "j_state j = J_RECOVERING \<Longrightarrow> a_failure_class a \<noteq> None"
  shows "phase_ok j p"
  using assms by (cases "j_state j") (auto simp: phase_ok_def)

lemma phase_ok_idle:
  assumes "idle p" "j_state j \<in> {J_QUEUED, J_RETRY_WAIT, J_PAUSED, J_FAILED, J_CANCELLED, J_SUCCEEDED}"
  shows "phase_ok j p"
  using assms by (cases "j_state j") (auto simp: phase_ok_def)

subsection \<open>Receipts\<close>

lemma begin_callback_core: "begin_callback db i w op cb h = Inr (r, rep, db1) \<Longrightarrow> same_core db db1"
  by (auto simp: begin_callback_def same_core_def res_simps split: if_splits option.splits)

lemma complete_callback_core: "complete_callback db i a = Inr db1 \<Longrightarrow> same_core db db1"
  by (auto simp: complete_callback_def same_core_def Let_def split: if_splits)

lemma callback_Inr:
  assumes "callback env db au cred aid cb h op = Inr (receipt, rows, db1)"
  shows "same_core db db1" "au_attempt_id au = aid" "rows = Inr t \<Longrightarrow> authority_rows db1 au (au_worker_id au) = Inr t"
proof -
  have id: "au_attempt_id au = aid" using assms by (auto simp: callback_def split: if_splits)
  obtain r rep db2 where b: "begin_callback db (ids env 0) (au_worker_id au) op cb h = Inr (r, rep, db2)"
    using assms id by (auto simp: callback_def res_bind_Inr_iff)
  then obtain worker inc where w: "worker_auth env db2 0 (au_worker_id au) cred = Inr worker"
      "require_current_incarnation db2 worker (au_worker_incarnation_id au) False = Inr inc"
    using assms id by (auto simp: callback_def res_bind_Inr_iff)
  have e: "(case rep of Some a \<Rightarrow> Inr (r, Inl a, db2)
      | None \<Rightarrow> res_bind (authority_rows db2 au (au_worker_id au)) (\<lambda>t. Inr (r, Inr t, db2))) = Inr (receipt, rows, db1)"
    using assms id b w by (simp add: callback_def)
  then have "db1 = db2" by (cases rep) (auto simp: res_bind_Inr_iff)
  then show "same_core db db1" using begin_callback_core [OF b] by simp
  show "au_attempt_id au = aid" by (rule id)
  show "authority_rows db1 au (au_worker_id au) = Inr t" if "rows = Inr t"
    using e that \<open>db1 = db2\<close> by (cases rep) (auto simp: res_bind_Inr_iff)
qed

lemma with_callback_keeps:
  assumes "with_callback env db au cred aid cb h op body = Inr (r, db')"
    and "\<And>db1 t resp db2. authority_rows db1 au (au_worker_id au) = Inr t \<Longrightarrow> au_attempt_id au = aid \<Longrightarrow>
      same_core db db1 \<Longrightarrow> body db1 t = Inr (resp, db2) \<Longrightarrow> keeps db1 db2"
  shows "keeps db db'"
proof -
  obtain receipt rows db1 where c: "callback env db au cred aid cb h op = Inr (receipt, rows, db1)"
    using assms(1) by (auto simp: with_callback_def res_bind_Inr_iff)
  note core = callback_Inr(1) [OF c]
  show ?thesis
  proof (cases rows)
    case (Inl a)
    then have "db' = db1" using assms(1) c by (simp add: with_callback_def)
    then show ?thesis using keeps_core [OF core] by simp
  next
    case (Inr t)
    obtain resp db2 where b: "body db1 t = Inr (resp, db2)" "complete_callback db2 (the receipt) resp = Inr db'"
      using assms(1) c Inr by (auto simp: with_callback_def res_bind_Inr_iff)
    have "keeps db1 db2" by (rule assms(2) [OF callback_Inr(3) [OF c Inr] callback_Inr(2) [OF c] core b(1)])
    then show ?thesis
      using keeps_core [OF core] keeps_core [OF complete_callback_core [OF b(2)]] keeps_trans by blast
  qed
qed

subsection \<open>Updates without an event\<close>

lemma job_inv_parts:
  assumes "inv db" "j \<in> set (jobs db)"
  shows "attempts_ok j (part db (j_job_id j))" "phase_ok j (part db (j_job_id j))" "control_ok j"
    "retries_ok j (part db (j_job_id j))" "log_ok j (part db (j_job_id j))" "results_ok j (part db (j_job_id j))"
  using inv_job(2) [OF assms] by (simp_all add: job_inv_def)

lemma held_quiet:
  assumes inv: "inv db" and j: "j \<in> set (jobs db)" and held: "held_by (part db (j_job_id j)) a al l g"
    and upd: "held_rows_updated db db' a F l L" and F: "keeps_attempt F" and L: "keeps_lease L"
    and same: "results db' = results db" "admission_counters db' = admission_counters db"
    and st: "a_state (F a) \<in> holding (j_state j)"
  shows "keeps db db'"
proof -
  let ?x = "j_job_id j"
  note u = held_update [OF inv held upd F L]
  have jobs: "jobs db' = jobs db" "events db' = events db" using upd by (simp_all add: held_rows_updated_def)
  have p: "phase_ok j (part db' ?x)"
    by (rule phase_ok_held [OF u(3)]) (use phase_held [OF inv j held] st F in \<open>simp_all add: keeps_attempt_def\<close>)
  have "job_inv j (part db' ?x)"
    unfolding job_inv_def
    using p u(4) [OF job_inv_parts(1) [OF inv j] order_refl] job_inv_parts [OF inv j] u(6) same jobs
    by (simp add: retries_ok_def log_ok_def results_ok_def)
  moreover have "phase_of (part db' ?x) = phase_of (part db ?x)"
    using phase_of_simps(2) [OF u(3)] phase_of_simps(2) [OF held] by simp
  ultimately have "inv db' \<and> store_moves db db'"
    by (intro one_job [OF inv u(1) _ u(2) inv_job(1) [OF inv j], where j' = j and n = 0 and m = 0])
      (use inv_job(1) [OF inv j] jobs same u(5) in \<open>simp_all add: machine_of_def\<close>)
  then show ?thesis by (simp add: keeps_def)
qed

lemma held_event:
  assumes inv: "inv db" and j: "j \<in> set (jobs db)" and held: "held_by (part db (j_job_id j)) a al l g"
    and upd: "held_rows_updated db db1 a F l L" and F: "keeps_attempt F" and L: "keeps_lease L"
    and shift: "shifted (set (counter_scopes j)) n 0 (admission_counters db) (admission_counters db1)"
    and ch: "\<And>i. j_job_id (ch i) = j_job_id i" "counter_scopes (ch j) = counter_scopes j"
      "j_job_fence (ch j) = j_job_fence j" "j_recovery_intent (ch j) = j_recovery_intent j"
      "j_retry_count (ch j) = j_retry_count j" "j_max_retries (ch j) = j_max_retries j"
      "j_state (ch j) \<noteq> J_RETRY_WAIT"
    and st: "a_state (F a) \<in> holding (j_state (ch j))"
    and n: "(if j_state (ch j) \<in> terminal_states then 0 else 1) = (if j_state j \<in> terminal_states then 0 else 1) + n"
    and other: "\<And>y. y \<noteq> j_job_id j \<Longrightarrow> part db1 y = part db y"
    and ok: "control_ok (logged j kv ch now)" "results_ok (logged j kv ch now) (part db1 (j_job_id j))"
    and row: "transition_row (machine_of j (part db (j_job_id j)))
      ((machine_of (logged j kv ch now) (part db (j_job_id j))))"
  shows "keeps db (record_event db1 j ac now c e r act ar kv ch)"
proof -
  let ?x = "j_job_id j"
  note u = held_update [OF inv held upd F L]
  have jobs: "jobs db1 = jobs db" "events db1 = events db" using upd by (simp_all add: held_rows_updated_def)
  have lg: "j_job_fence (logged j kv ch now) = j_job_fence j" "intent_of (logged j kv ch now) = intent_of j"
      "j_state (logged j kv ch now) = j_state (ch j)" "j_retry_count (logged j kv ch now) = j_retry_count j"
      "j_max_retries (logged j kv ch now) = j_max_retries j"
    using ch by (simp_all add: logged_def intent_of_def)
  have p: "phase_ok (logged j kv ch now) (part db1 ?x)"
    by (rule phase_ok_held [OF u(3)]) (use phase_held [OF inv j held] st F lg in \<open>simp_all add: keeps_attempt_def\<close>)
  have "j_state j \<noteq> J_RETRY_WAIT" using phase_held(1) [OF inv j held] by auto
  then have r: "retries_ok (logged j kv ch now) (part db1 ?x)"
    using job_inv_parts(4) [OF inv j] u(6) ch(7) unfolding retries_ok_def lg by (simp del: part_sels)
  have ph: "phase_of (part db1 ?x) = phase_of (part db ?x)"
    using phase_of_simps(2) [OF u(3)] phase_of_simps(2) [OF held] by simp
  have rw: "transition_row (machine_of j (part db ?x)) (machine_of (logged j kv ch now) (part db1 ?x))"
    using row by (simp add: machine_of_def ph)
  show ?thesis
    by (rule event_step [OF inv j jobs u(1) other ch(1,2) shift n _ u(4) [OF job_inv_parts(1) [OF inv j]] p ok(1) r ok(2) rw])
      (simp_all add: u(5) lg)
qed

subsection \<open>Reserving results, renewing, starting\<close>

lemma reserve_result_keeps:
  assumes "reserve_result env db cred aid cb h au = Inr (r, db')"
  shows "keeps db db'"
  by (rule with_callback_keeps [OF assms [unfolded reserve_result_def]], rule keeps_core)
    (auto simp: res_simps same_core_def Let_def split: if_splits option.splits)

lemma live_authority_Inr:
  assumes "live_authority t now = Inr ()"
  shows "j_desired_state (at_job t) \<noteq> D_CANCELLED" "al_state (at_allocation t) = S_HELD"
    "l_revoked_at (at_lease t) = None" "now < l_expires_at (at_lease t)"
    "j_desired_state (at_job t) = D_RUNNING \<and> j_state (at_job t) \<in> {J_DISPATCHING, J_RUNNING} \<and>
        a_execution_intent (at_attempt t) = RUN \<or>
     j_desired_state (at_job t) = D_PAUSED \<and> j_state (at_job t) = J_PAUSING \<and> a_execution_intent (at_attempt t) = RUN \<or>
     j_desired_state (at_job t) = D_PAUSED \<and> j_state (at_job t) \<in> {J_DISPATCHING, J_PAUSING} \<and>
        a_execution_intent (at_attempt t) = CHECKPOINT_FOR_PAUSE"
  using assms by (auto simp: live_authority_def Let_def split: if_splits)

lemma renew_effect_keeps:
  assumes inv: "inv db" and rows: "authority_rows db au w = Inr t" and id: "au_attempt_id au = aid"
  shows "keeps db (renew_effect db t aid au seq progress now)"
proof -
  note a = authority_held [OF inv rows]
  let ?F = "if seq > a_progress_sequence (at_attempt t)
     then (\<lambda>a. a\<lparr>a_progress_sequence := seq, a_progress_snapshot := progress, a_updated_at := now\<rparr>) else id"
  have "held_rows_updated db (renew_effect db t aid au seq progress now) (at_attempt t) ?F (at_lease t)
      (\<lambda>l. l\<lparr>l_expires_at := now + lease_duration\<rparr>)"
    using a(4,8) id by (simp add: held_rows_updated_def renew_effect_def)
  moreover have "keeps_attempt ?F" by (simp add: keeps_attempt_def)
  ultimately show ?thesis
    by (rule held_quiet [OF inv a(1) a(5)])
      (use phase_held(1) [OF inv a(1,5)] in \<open>simp_all add: keeps_lease_def renew_effect_def\<close>)
qed

lemma keepsI: "(inv db \<Longrightarrow> keeps db db') \<Longrightarrow> keeps db db'"
  by (auto simp: keeps_def)

lemma renew_attempt_keeps:
  assumes "renew_attempt env db w cred aid cb h au seq progress = Inr (r, db')"
  shows "keeps db db'"
proof -
  obtain receipt replay db1 where b: "begin_callback db (ids env 0) w ''workerRenewAttempt'' cb h = Inr (receipt, replay, db1)"
    using assms by (auto simp: renew_attempt_def res_bind_Inr_iff)
  obtain worker where w: "worker_auth env db1 0 w cred = Inr worker"
    using assms b by (auto simp: renew_attempt_def res_bind_Inr_iff)
  have id: "au_attempt_id au = aid" using assms b w by (auto simp: renew_attempt_def split: if_splits)
  note core = keeps_core [OF begin_callback_core [OF b]]
  show ?thesis
  proof (cases replay)
    case (Some a)
    then have "db' = db1"
      using assms b w by (auto simp: renew_attempt_def res_bind_Inr_iff split: if_splits)
    then show ?thesis using core by simp
  next
    case None
    obtain t db2 where t: "authority_rows db1 au w = Inr t"
        "db2 = renew_effect db1 t aid au seq progress (clk env 2)"
        "complete_callback db2 (the receipt) r = Inr db'"
      using assms b w None
      by (auto simp: renew_attempt_def res_bind_Inr_iff Let_def split: if_splits)
    have "keeps db1 db2" using renew_effect_keeps [OF _ t(1) id] t(2) by (auto intro: keepsI)
    then show ?thesis
      using core keeps_core [OF complete_callback_core [OF t(3)]] keeps_trans by blast
  qed
qed

lemma logged_simps [simp]:
  "j_state (logged j kv ch now) = j_state (ch j)" "j_desired_state (logged j kv ch now) = j_desired_state (ch j)"
  "j_recovery_intent (logged j kv ch now) = j_recovery_intent (ch j)"
  "j_terminal_at (logged j kv ch now) = j_terminal_at (ch j)"
  "j_job_fence (logged j kv ch now) = j_job_fence (ch j)"
  "j_retry_count (logged j kv ch now) = j_retry_count (ch j)"
  "j_max_retries (logged j kv ch now) = j_max_retries (ch j)"
  "j_version (logged j kv ch now) = (if kv then j_version j else j_version j + 1)"
  "j_event_sequence (logged j kv ch now) = j_event_sequence j + 1"
  by (simp_all add: logged_def)

lemma start_attempt_keeps:
  assumes "start_attempt env db cred aid cb h request = Inr (r, db')"
  shows "keeps db db'"
proof (rule with_callback_keeps [OF assms [unfolded start_attempt_def]])
  fix db1 db2 :: db and t :: authority_tuple and resp
  let ?au = "tq_authority request" and ?now = "clk env 1"
  let ?state = "if a_execution_intent (at_attempt t) = CHECKPOINT_FOR_PAUSE then J_PAUSING else J_RUNNING"
  assume rows: "authority_rows db1 ?au (au_worker_id ?au) = Inr t" and id: "au_attempt_id ?au = aid"
    and body: "(let now = clk env 1; state = ?state in
     res_bind (live_authority t now) (\<lambda>_. res_bind (start_guard db1 t request now) (\<lambda>_.
     case transition env (start_rows db1 t aid request now) (at_job t) ?au state ''ATTEMPT_STARTED'' now id of (job, db2) \<Rightarrow>
     Inr (Ack_start cb now (j_state job) (j_version job) (now + seconds 45), db2)))) = Inr (resp, db2)"
  have live: "live_authority t ?now = Inr ()" and guard: "start_guard db1 t request ?now = Inr ()"
    using body by (auto simp: res_bind_Inr_iff Let_def)
  have db2: "db2 = record_event (start_rows db1 t aid request ?now) (at_job t) (WORKER (au_worker_id ?au)) ?now (started env)
      ''ATTEMPT_STARTED'' (Some (lower ''ATTEMPT_STARTED'')) (lower ''ATTEMPT_STARTED'') (Some (lower ''ATTEMPT_STARTED''))
      False (\<lambda>j. j\<lparr>j_state := ?state\<rparr>)"
    using body live guard by (simp add: Let_def transition_def)
  show "keeps db1 db2"
  proof (rule keepsI)
    assume inv: "inv db1"
    note a = authority_held [OF inv rows]
    let ?j = "at_job t"
    let ?F = "\<lambda>a. a\<lparr>a_state := A_RUNNING, a_started_at := Some ?now,
        a_executor_operation_sequence := Some (tq_executor_operation_sequence request)\<rparr>"
    let ?L = "\<lambda>l. l\<lparr>l_expires_at := ?now + seconds 45\<rparr>"
    have claimed: "a_state (at_attempt t) = A_CLAIMED"
      using guard by (auto simp: start_guard_def Let_def split: if_splits)
    then have st: "j_state ?j = J_DISPATCHING" using phase_held(1) [OF inv a(1,5)] by (cases "j_state ?j") auto
    have upd: "held_rows_updated db1 (start_rows db1 t aid request ?now) (at_attempt t) ?F (at_lease t) ?L"
      using a(4,8) id by (simp add: held_rows_updated_def start_rows_def)
    have ctl: "control_ok ?j" by (rule job_inv_parts(3) [OF inv a(1)])
    have intent: "a_execution_intent (at_attempt t) = intent_of ?j" by (rule a(7))
    have disp: "(j_desired_state ?j, j_recovery_intent ?j) \<in> dispatchable" using ctl st by (simp add: control_ok_def)
    have held: "phase_of (part db1 (j_job_id ?j)) = Held" by (rule phase_of_simps(2) [OF a(5)])
    have row: "transition_row (machine_of ?j (part db1 (j_job_id ?j)))
        (machine_of (logged ?j False (\<lambda>j. j\<lparr>j_state := ?state\<rparr>) ?now) (part db1 (j_job_id ?j)))"
    proof (cases "j_recovery_intent ?j")
      case None
      then have "j_desired_state ?j = D_RUNNING" "?state = J_RUNNING"
        using disp intent by (auto simp: dispatchable_def intent_of_def)
      then show ?thesis
        using transition_row.start [of "machine_of ?j (part db1 (j_job_id ?j))"] st held
        by (simp add: machine_of_def tick_def)
    next
      case (Some i)
      then have "j_desired_state ?j = D_PAUSED" "i = CHECKPOINT_FOR_PAUSE" "?state = J_PAUSING"
        using disp intent by (auto simp: dispatchable_def intent_of_def)
      then show ?thesis
        using transition_row.start_for_pause [of "machine_of ?j (part db1 (j_job_id ?j))"] st held Some
        by (simp add: machine_of_def tick_def)
    qed
    have "control_ok (logged ?j False (\<lambda>j. j\<lparr>j_state := ?state\<rparr>) ?now)"
      using ctl disp st intent by (auto simp: control_ok_def terminal_states_def dispatchable_def intent_of_def)
    moreover have "results_ok (logged ?j False (\<lambda>j. j\<lparr>j_state := ?state\<rparr>) ?now)
        (part (start_rows db1 t aid request ?now) (j_job_id ?j))"
      using job_inv_parts(6) [OF inv a(1)] st by (simp add: results_ok_def start_rows_def)
    ultimately show "keeps db1 db2"
      unfolding db2
      by (intro held_event [OF inv a(1,5) upd, where n = 0])
        (use held_update(2) [OF inv a(5) upd] row st in
          \<open>simp_all add: keeps_attempt_def keeps_lease_def start_rows_def counter_scopes_def terminal_states_def\<close>)
  qed
qed

subsection \<open>Claiming\<close>

lemma record_event_cong:
  "j_job_id job = j_job_id row \<Longrightarrow> j_tenant_id job = j_tenant_id row \<Longrightarrow> j_version job = j_version row \<Longrightarrow>
   j_event_sequence job = j_event_sequence row \<Longrightarrow>
   record_event db job a now c e r ac ar kv ch = record_event db row a now c e r ac ar kv ch"
  by (simp add: record_event_def)

lemma note_keeps:
  assumes inv: "inv db" and j: "j \<in> set (jobs db)" and st: "j_state j \<notin> terminal_states"
  shows "keeps db (record_event db j a now c e r ac ar True id)"
proof -
  note p = job_inv_parts [OF inv j]
  have "transition_row (machine_of j (part db (j_job_id j)))
      (machine_of (logged j True id now) (part db (j_job_id j)))"
    using transition_row.noted [of "machine_of j (part db (j_job_id j))"] st by (simp add: machine_of_def)
  moreover have "phase_ok (logged j True id now) (part db (j_job_id j))"
    using p(2) by (cases "j_state j") (simp_all add: phase_ok_def held_in_def intent_of_def)
  ultimately show ?thesis
    using inv p by (intro event_step [OF inv j, where n = 0 and m = 0])
      (simp_all add: inv_def attempts_ok_def control_ok_def retries_ok_def results_ok_def)
qed

lemma record_event_row:
  assumes "j \<in> set (jobs db)"
  shows "logged j kv ch now \<in> set (jobs (record_event db j a now c e r ac ar kv ch))"
  using assms by (force simp: record_event_def Let_def set_update_where logged_def image_iff)

lemma append_events_keeps:
  assumes "inv db" "row \<in> set (jobs db)" "j_state row \<notin> terminal_states" "j_job_id job = j_job_id row"
    "j_tenant_id job = j_tenant_id row" "j_version job = j_version row" "j_event_sequence job = j_event_sequence row"
  shows "keeps db (append_events db job w now es) \<and>
    attempts (append_events db job w now es) = attempts db \<and> allocations (append_events db job w now es) = allocations db \<and>
    attempt_leases (append_events db job w now es) = attempt_leases db \<and>
    attempt_authority_grants (append_events db job w now es) = attempt_authority_grants db \<and>
    (\<exists>row' \<in> set (jobs (append_events db job w now es)). j_job_id row' = j_job_id row \<and> j_state row' = j_state row)"
  using assms
proof (induction es arbitrary: db job row)
  case Nil
  then show ?case by (auto intro: keeps_core)
next
  case (Cons e es)
  obtain et reason where e: "e = (et, reason)" by (cases e)
  let ?db1 = "record_event db row (WORKER w) now now et (Some reason) (lower et) (Some reason) True id"
  have db1: "snd (worker_event db job w now et reason True id) = ?db1"
    using Cons.prems(4-7) by (simp add: worker_event_def record_event_cong [of job row])
  have k: "keeps db ?db1" by (rule note_keeps [OF Cons.prems(1-3)])
  then have inv1: "inv ?db1" using Cons.prems(1) by (simp add: keeps_def)
  let ?row1 = "logged row True id now"
  have row1: "?row1 \<in> set (jobs ?db1)" by (rule record_event_row [OF Cons.prems(2)])
  have "keeps ?db1 (append_events ?db1 (job\<lparr>j_event_sequence := j_event_sequence job + 1\<rparr>) w now es) \<and>
    attempts (append_events ?db1 (job\<lparr>j_event_sequence := j_event_sequence job + 1\<rparr>) w now es) = attempts ?db1 \<and>
    allocations (append_events ?db1 (job\<lparr>j_event_sequence := j_event_sequence job + 1\<rparr>) w now es) = allocations ?db1 \<and>
    attempt_leases (append_events ?db1 (job\<lparr>j_event_sequence := j_event_sequence job + 1\<rparr>) w now es) = attempt_leases ?db1 \<and>
    attempt_authority_grants (append_events ?db1 (job\<lparr>j_event_sequence := j_event_sequence job + 1\<rparr>) w now es) =
      attempt_authority_grants ?db1 \<and>
    (\<exists>row' \<in> set (jobs (append_events ?db1 (job\<lparr>j_event_sequence := j_event_sequence job + 1\<rparr>) w now es)).
      j_job_id row' = j_job_id ?row1 \<and> j_state row' = j_state ?row1)"
    by (rule Cons.IH [OF inv1 row1]) (use Cons.prems in \<open>simp_all add: logged_def\<close>)
  moreover have "j_job_id ?row1 = j_job_id row" "j_state ?row1 = j_state row" by (simp_all add: logged_def)
  ultimately show ?case using k unfolding e append_events.simps db1 by (auto intro: keeps_trans)
qed

lemma claim_context_keeps:
  assumes inv: "inv db" and rows: "authority_rows db au w = Inr t"
    and body: "claim_context db t au scan now = Inr (context, db')"
  shows "keeps db db'"
proof -
  note a = authority_held [OF inv rows]
  have st: "a_state (at_attempt t) = A_CREATED" "j_state (at_job t) = J_DISPATCHING"
    using body by (auto simp: claim_context_def Let_def split: if_splits)
  let ?F = "\<lambda>a. a\<lparr>a_state := A_CLAIMED, a_execution_context := Some context, a_claimed_at := Some now\<rparr>"
  obtain sc db1 where db1: "db1 = append_events db (at_job t) (au_worker_id au) now (restore_events sc)"
      "db' = db1\<lparr>attempts := update_where (\<lambda>a. a_attempt_id a = au_attempt_id au) ?F (attempts db1)\<rparr>"
    using body by (auto simp: claim_context_def restore_decision_def Let_def res_bind_Inr_iff split: if_splits option.splits)
  have ev: "keeps db db1" "attempts db1 = attempts db" "allocations db1 = allocations db"
      "attempt_leases db1 = attempt_leases db" "attempt_authority_grants db1 = attempt_authority_grants db"
    and "\<exists>row' \<in> set (jobs db1). j_job_id row' = j_job_id (at_job t) \<and> j_state row' = j_state (at_job t)"
    using append_events_keeps [OF inv a(1), of "at_job t" "au_worker_id au" now "restore_events sc"] st
    unfolding db1(1) by (simp_all add: terminal_states_def)
  then obtain row' where row': "row' \<in> set (jobs db1)" "j_job_id row' = j_job_id (at_job t)" "j_state row' = J_DISPATCHING"
    using st(2) by auto
  have inv1: "inv db1" using ev(1) inv by (simp add: keeps_def)
  have held: "held_by (part db1 (j_job_id row')) (at_attempt t) (at_allocation t) (at_lease t) (at_grant t)"
    using a(5) ev row'(2) by (simp add: held_by_def unreleased_def live_leases_def live_grants_def)
  have upd: "held_rows_updated db1 db' (at_attempt t) ?F (at_lease t) id"
    using a(4) by (simp add: held_rows_updated_def db1(2))
  have "keeps db1 db'"
    by (rule held_quiet [OF inv1 row'(1) held upd])
      (use row'(3) in \<open>simp_all add: keeps_attempt_def keeps_lease_def db1(2)\<close>)
  then show ?thesis using ev(1) keeps_trans by blast
qed

lemma claim_attempt_keeps:
  assumes "claim_attempt env db scan cred aid cb h au = Inr (r, db')"
  shows "keeps db db'"
proof (rule with_callback_keeps [OF assms [unfolded claim_attempt_def]])
  fix db1 db2 :: db and t :: authority_tuple and resp
  assume rows: "authority_rows db1 au (au_worker_id au) = Inr t"
    and body: "(let now = clk env 1; job = at_job t in
     res_bind (live_authority t now) (\<lambda>_.
     res_bind (case a_execution_context (at_attempt t) of Some c \<Rightarrow> Inr (c, db1)
               | None \<Rightarrow> claim_context db1 t au scan now) (\<lambda>(context, db2).
     Inr (Ack_claim cb now (j_state job) (j_version job) context, db2)))) = Inr (resp, db2)"
  show "keeps db1 db2"
  proof (cases "a_execution_context (at_attempt t)")
    case None
    with body obtain ctx where "claim_context db1 t au scan (clk env 1) = Inr (ctx, db2)"
      by (auto simp: Let_def res_bind_Inr_iff)
    then show ?thesis using claim_context_keeps [OF _ rows] by (auto intro: keepsI)
  next
    case (Some c)
    with body have "db2 = db1" by (auto simp: Let_def res_bind_Inr_iff)
    then show ?thesis by (simp add: keeps_core)
  qed
qed

subsection \<open>Completing\<close>

lemma concat_singleton_mem:
  assumes "concat (map f xs) = [y]"
  shows "\<exists>x \<in> set xs. y \<in> set (f x)"
proof -
  have "y \<in> set (concat (map f xs))" using assms by simp
  then show ?thesis by auto
qed

lemma lock_policy_counters_Inr:
  assumes "lock_policy_counters db aid = Inr (mode, ks)"
  obtains j a where "a \<in> set (attempts db)" "a_attempt_id a = aid" "j \<in> set (jobs db)" "j_job_id j = a_job_id a"
    "lock_counters db (counter_scopes j) = Inr ks" "mode = operational_mode_of db"
proof -
  obtain j where j: "concat (map (\<lambda>a. filter (\<lambda>j. j_job_id j = a_job_id a) (jobs db))
       (filter (\<lambda>a. a_attempt_id a = aid) (attempts db))) = [j]"
      "lock_counters db (counter_scopes j) = Inr ks" "mode = operational_mode_of db"
    using assms by (auto simp: lock_policy_counters_def res_simps split: option.splits)
  obtain a where "a \<in> set (filter (\<lambda>a. a_attempt_id a = aid) (attempts db))"
      "j \<in> set (filter (\<lambda>j. j_job_id j = a_job_id a) (jobs db))"
    using concat_singleton_mem [OF j(1)] by blast
  then show thesis using that [of a j] j(2,3) by simp
qed

lemma lock_counters_cong:
  "admission_counters db1 = admission_counters db \<Longrightarrow> lock_counters db1 ss = lock_counters db ss"
  by (induction ss) (simp_all cong: option.case_cong)

text \<open>The counters a callback locked are those of the job it acts on.\<close>

lemma locked_scopes:
  assumes "inv db1" "same_core db db1" "lock_policy_counters db aid = Inr (mode, ks)"
    "a \<in> set (attempts db1)" "a_attempt_id a = aid" "j \<in> set (jobs db1)" "a_job_id a = j_job_id j"
  shows "lock_counters db1 (counter_scopes j) = Inr ks"
proof -
  obtain j' a' where r: "a' \<in> set (attempts db)" "a_attempt_id a' = aid" "j' \<in> set (jobs db)" "j_job_id j' = a_job_id a'"
      "lock_counters db (counter_scopes j') = Inr ks"
    using lock_policy_counters_Inr [OF assms(3)] by metis
  have eq: "attempts db1 = attempts db" "jobs db1 = jobs db" using assms(2) by (simp_all add: same_core_def)
  have "distinct (map a_attempt_id (attempts db1))" using assms(1) by (simp add: inv_def keys_ok_def)
  then have "a' = a" by (rule distinct_map_inj) (use r assms eq in simp_all)
  moreover have "j' = j"
    by (rule distinct_map_inj [OF inv_distinct_jobs [OF assms(1)]]) (use r assms eq \<open>a' = a\<close> in simp_all)
  ultimately show ?thesis using r(5) lock_counters_cong [of db1 db] assms(2) by (simp add: same_core_def)
qed

lemma extend_retention_core [simp]: "same_core db (extend_retention db x now n)"
  by (simp add: extend_retention_def same_core_def)

lemma complete_body_keeps:
  assumes core: "same_core db0 db" and rows: "authority_rows db au w = Inr t" and id: "au_attempt_id au = aid"
    and locked: "lock_policy_counters db0 aid = Inr (mode, ks)"
    and body: "complete_body env vd pre ks aid cb request db t = Inr (resp, db')"
  shows "keeps db db'"
proof (rule keepsI)
  assume inv: "inv db"
  note a = authority_held [OF inv rows]
  let ?j = "at_job t" and ?now = "clk env 1"
  let ?ch = "\<lambda>j. j\<lparr>j_terminal_at := Some ?now, j_state := J_SUCCEEDED\<rparr>"
  let ?F = "\<lambda>a. a\<lparr>a_state := A_SUCCEEDED, a_ended_at := Some ?now, a_updated_at := ?now\<rparr>"
  have live: "live_authority t ?now = Inr ()" and st: "j_state ?j = J_RUNNING"
    using body by (auto simp: complete_body_def Let_def res_bind_Inr_iff split: if_splits)
  obtain rid artifact edges db1 where db1:
      "adjust_counters (result_rows db t aid cb rid artifact edges ?now) ks ?now 1 0 = Inr db1"
      "db' = extend_retention (record_event db1 ?j (WORKER (au_worker_id (mq_authority request))) ?now (started env)
        ''RESULT_RECOGNIZED'' (Some (lower ''RESULT_RECOGNIZED'')) (lower ''RESULT_RECOGNIZED'')
        (Some (lower ''RESULT_RECOGNIZED'')) False ?ch) (j_job_id ?j) ?now (terminal_retention_days env)"
    using body by (auto simp: complete_body_def Let_def res_bind_Inr_iff transition_def split: if_splits option.splits)
  have lock: "lock_counters db (counter_scopes ?j) = Inr ks"
    using locked_scopes [OF inv core locked a(2) _ a(1,3)] a(4) id by simp
  obtain cs where cs: "db1 = (result_rows db t aid cb rid artifact edges ?now)\<lparr>admission_counters := cs\<rparr>"
      "shifted (set (counter_scopes ?j)) (- 1) 0 (admission_counters db) cs"
    using adjust_locked_Inr [OF lock db1(1)] by (auto simp: result_rows_def)
  have upd: "held_rows_updated db db1 (at_attempt t) ?F (at_lease t) id"
    using a(4) id by (simp add: held_rows_updated_def cs(1) result_rows_def)
  have K: "keeps_attempt ?F" "keeps_lease id" by (simp_all add: keeps_attempt_def keeps_lease_def)
  have other: "part db1 y = part db y" if "y \<noteq> j_job_id ?j" for y
  proof -
    have "held_rows_updated db (db1\<lparr>results := results db\<rparr>) (at_attempt t) ?F (at_lease t) id"
      using upd by (simp add: held_rows_updated_def)
    then have "part (db1\<lparr>results := results db\<rparr>) y = part db y"
      using held_update(2) [OF inv a(5) _ K that] by simp
    moreover have "filter (\<lambda>r. re_job_id r = y) (results db1) = filter (\<lambda>r. re_job_id r = y) (results db)"
      using that by (simp add: cs(1) result_rows_def)
    ultimately show ?thesis by (simp add: part_def)
  qed
  have ctl: "control_ok ?j" by (rule job_inv_parts(3) [OF inv a(1)])
  then have des: "j_desired_state ?j = D_RUNNING" "j_recovery_intent ?j = None" using st by (simp_all add: control_ok_def)
  have "phase_of (part db (j_job_id ?j)) = Held" by (rule phase_of_simps(2) [OF a(5)])
  then have row: "transition_row (machine_of ?j (part db (j_job_id ?j)))
      (machine_of (logged ?j False ?ch ?now) (part db (j_job_id ?j)))"
    using transition_row.complete [of "machine_of ?j (part db (j_job_id ?j))"] st des by (simp add: machine_of_def tick_def)
  have res: "results_ok (logged ?j False ?ch ?now) (part db1 (j_job_id ?j))"
    using job_inv_parts(6) [OF inv a(1)] st by (simp add: results_ok_def cs(1) result_rows_def)
  have c': "control_ok (logged ?j False ?ch ?now)"
    using ctl des by (simp add: control_ok_def terminal_states_def)
  have "keeps db (record_event db1 ?j (WORKER (au_worker_id (mq_authority request))) ?now (started env)
        ''RESULT_RECOGNIZED'' (Some (lower ''RESULT_RECOGNIZED'')) (lower ''RESULT_RECOGNIZED'')
        (Some (lower ''RESULT_RECOGNIZED'')) False ?ch)"
    by (rule held_event [OF inv a(1,5) upd K _ _ _ _ _ _ _ _ _ _ other c' res row, where n = "- 1"])
      (use cs st in \<open>simp_all add: counter_scopes_def terminal_states_def\<close>)
  then show "keeps db db'" unfolding db1(2) using keeps_trans keeps_core [OF extend_retention_core] by blast
qed

lemma complete_attempt_keeps:
  assumes "complete_attempt env db vd pre cred aid cb h request = Inr (r, db')"
  shows "keeps db db'"
proof -
  obtain mode ks where l: "lock_policy_counters db aid = Inr (mode, ks)"
      "with_callback env db (mq_authority request) cred aid cb h ''workerCompleteAttempt''
        (complete_body env vd pre ks aid cb request) = Inr (r, db')"
    using assms by (auto simp: complete_attempt_def res_bind_Inr_iff)
  show ?thesis
    by (rule with_callback_keeps [OF l(2)]) (rule complete_body_keeps [OF _ _ _ l(1)])
qed

subsection \<open>Columns beside the life of a job\<close>

text \<open>An update of job rows that keeps every column of their life; the version may grow while queued.\<close>

definition same_life :: "job_row \<Rightarrow> job_row \<Rightarrow> bool" where
  "same_life j i \<longleftrightarrow> j_job_id i = j_job_id j \<and> j_tenant_id i = j_tenant_id j \<and>
     j_submitter_user_id i = j_submitter_user_id j \<and> j_state i = j_state j \<and> j_desired_state i = j_desired_state j \<and>
     j_recovery_intent i = j_recovery_intent j \<and> j_job_fence i = j_job_fence j \<and>
     j_event_sequence i = j_event_sequence j \<and> j_retry_count i = j_retry_count j \<and>
     j_max_retries i = j_max_retries j \<and> j_terminal_at i = j_terminal_at j \<and>
     (j_version i = j_version j \<or> j_state j = J_QUEUED \<and> j_version i = j_version j + 1)"

lemma same_life_inv:
  assumes s: "same_life j i" and j: "job_inv j p"
  shows "job_inv i p"
proof -
  have e: "j_job_id i = j_job_id j" "j_state i = j_state j" "j_desired_state i = j_desired_state j"
      "j_recovery_intent i = j_recovery_intent j" "j_job_fence i = j_job_fence j"
      "j_event_sequence i = j_event_sequence j" "j_retry_count i = j_retry_count j"
      "j_max_retries i = j_max_retries j" "j_terminal_at i = j_terminal_at j"
    using s by (simp_all add: same_life_def)
  have "phase_ok i p \<longleftrightarrow> phase_ok j p" "attempts_ok i p \<longleftrightarrow> attempts_ok j p" "retries_ok i p \<longleftrightarrow> retries_ok j p"
      "control_ok i = control_ok j" "results_ok i p \<longleftrightarrow> results_ok j p"
    by (simp_all only: phase_ok_def attempts_ok_def retries_ok_def control_ok_def results_ok_def held_in_def
        intent_of_def e)
  moreover have "log_ok i p" using j s by (auto simp: job_inv_def log_ok_def same_life_def)
  ultimately show ?thesis using j by (simp add: job_inv_def)
qed

lemma same_life_moves:
  assumes "same_life j i"
  shows "moves (Some (machine_of j p)) (Some (machine_of i p))"
proof (cases "j_version i = j_version j")
  case True
  then have "machine_of i p = machine_of j p" using assms by (simp add: same_life_def machine_of_def)
  then show ?thesis by simp
next
  case False
  then have "j_state j = J_QUEUED" "machine_of i p = (machine_of j p)\<lparr>m_version := m_version (machine_of j p) + 1\<rparr>"
    using assms by (auto simp: same_life_def machine_of_def)
  then show ?thesis using moves_row [OF transition_row.mark [of "machine_of j p"]] by (simp add: machine_of_def)
qed

lemma touch_keeps:
  assumes f: "\<And>j. j \<in> set (jobs db) \<Longrightarrow> p j \<Longrightarrow> same_life j (f j)"
    and db': "jobs db' = update_where p f (jobs db)" "attempts db' = attempts db" "allocations db' = allocations db"
      "attempt_leases db' = attempt_leases db" "attempt_authority_grants db' = attempt_authority_grants db"
      "events db' = events db" "retry_schedules db' = retry_schedules db" "results db' = results db"
      "admission_counters db' = admission_counters db"
  shows "keeps db db'"
proof (rule keepsI)
  assume inv: "inv db"
  let ?g = "\<lambda>j. if p j then f j else j"
  have g: "same_life j (?g j)" if "j \<in> set (jobs db)" for j
    using f [OF that] by (simp add: same_life_def)
  have ids: "map j_job_id (jobs db') = map j_job_id (jobs db)"
    unfolding db'(1) update_where_def using g by (auto simp: same_life_def)
  have part: "part db' x = (part db x)\<lparr>p_jobs := map ?g (p_jobs (part db x))\<rparr>" for x
  proof -
    have "filter (\<lambda>j. j_job_id j = x) (map ?g js) = map ?g (filter (\<lambda>j. j_job_id j = x) js)"
      if "set js \<subseteq> set (jobs db)" for js
      using that by (induction js) (use g in \<open>auto simp: same_life_def\<close>)
    then show ?thesis by (simp add: part_def db' update_where_def)
  qed
  have cases: "part db' x = empty_part \<and> part db x = empty_part \<or>
      (\<exists>j \<in> set (jobs db). p_jobs (part db x) = [j] \<and> p_jobs (part db' x) = [?g j] \<and> job_inv j (part db x))" for x
  proof (cases "part db x = empty_part")
    case True
    then show ?thesis by (simp add: part empty_part_def)
  next
    case False
    then obtain j where j: "p_jobs (part db x) = [j]" "job_inv j (part db x)"
      using inv_part [OF inv, of x] unfolding part_inv_def by blast
    then have "j \<in> set (p_jobs (part db x))" by (metis list.set_intros(1))
    then show ?thesis using j by (auto simp: part)
  qed
  have w: "outstanding_of s (part db' x) = outstanding_of s (part db x)"
      "active_of s (part db' x) = active_of s (part db x)" for s x
    using cases [of x] g
    by (auto simp: outstanding_of_def active_of_def counter_scopes_def same_life_def part simp del: part_sels)
  have "counted outstanding_of db' s = counted outstanding_of db s" "counted active_of db' s = counted active_of db s" for s
    unfolding counted_def ids w by simp_all
  moreover have "set (counter_scopes i) \<subseteq> k_scope ` set (admission_counters db')" if i: "i \<in> set (jobs db')" for i
  proof -
    obtain j where j: "j \<in> set (jobs db)" "i = ?g j" using i by (auto simp: db'(1) set_update_where)
    then have "counter_scopes i = counter_scopes j" using g [OF j(1)] by (simp add: same_life_def counter_scopes_def)
    then show ?thesis using inv j(1) db'(9) by (simp add: inv_def counters_ok_def)
  qed
  ultimately have "counters_ok db'" using inv db'(9) by (simp add: inv_def counters_ok_def)
  moreover have "part_inv (part db' x)" for x
    using cases [of x]
  proof
    assume "\<exists>j \<in> set (jobs db). p_jobs (part db x) = [j] \<and> p_jobs (part db' x) = [?g j] \<and> job_inv j (part db x)"
    then obtain j where j: "j \<in> set (jobs db)" "p_jobs (part db' x) = [?g j]" "job_inv j (part db x)" by blast
    have "job_inv (?g j) (part db x)" by (rule same_life_inv [OF g [OF j(1)] j(3)])
    then have "job_inv (?g j) (part db' x)" by (simp add: part job_inv_def)
    with j(2) show ?thesis unfolding part_inv_def by blast
  qed (simp add: part_inv_def)
  moreover have "keys_ok db'" using inv db' by (simp add: inv_def keys_ok_def)
  ultimately have "inv db'" by (simp add: inv_def)
  moreover have "store_moves db db'"
    unfolding store_moves_def
  proof
    fix x
    show "moves (abstract (part db x)) (abstract (part db' x))"
      using cases [of x]
    proof
      assume "\<exists>j \<in> set (jobs db). p_jobs (part db x) = [j] \<and> p_jobs (part db' x) = [?g j] \<and> job_inv j (part db x)"
      then obtain j where j: "j \<in> set (jobs db)" "p_jobs (part db x) = [j]" "p_jobs (part db' x) = [?g j]" by blast
      have "moves (Some (machine_of j (part db x))) (Some (machine_of (?g j) (part db x)))"
        by (rule same_life_moves [OF g [OF j(1)]])
      moreover have "machine_of (?g j) (part db' x) = machine_of (?g j) (part db x)" by (simp add: part)
      ultimately show ?thesis using j by (simp add: abstract_def del: part_sels)
    qed simp
  qed
  ultimately show "keeps db db'" by (simp add: keeps_def)
qed

end
