(* ===== verification/Lifecycle_Callbacks.thy ===== *)
theory Lifecycle_Callbacks
  imports Lifecycle_Worker
begin

section \<open>Checkpoints, adoption, failure and cleanup in the life of a job\<close>

text \<open>
  The callbacks that touch the job row beside an event, hand the authority over, take it away, or
  release the resources.
\<close>

subsection \<open>Checkpoints\<close>

lemma held_by_cong:
  assumes "attempts db' = attempts db" "allocations db' = allocations db" "attempt_leases db' = attempt_leases db"
    "attempt_authority_grants db' = attempt_authority_grants db"
  shows "held_by (part db' x) = held_by (part db x)"
  using assms by (simp add: fun_eq_iff held_by_def unreleased_def live_leases_def live_grants_def)

lemma checkpoint_phase_state:
  "checkpoint_phase j a \<Longrightarrow> j_state j = J_RUNNING \<or> j_state j = J_PAUSING"
  by (auto simp: checkpoint_phase_def split: if_splits)

lemma checkpoint_rows_keeps:
  assumes inv: "inv db" and rows: "authority_rows db au w = Inr t" and id: "au_attempt_id au = aid"
    and phase: "checkpoint_phase (at_job t) (at_attempt t)"
  shows "keeps db (checkpoint_rows db t aid cb cid now)"
proof -
  note a = authority_held [OF inv rows]
  let ?seq = "j_checkpoint_sequence (at_job t) + 1" and ?j = "at_job t"
  let ?p = "\<lambda>j. j_job_id j = j_job_id ?j" and ?f = "\<lambda>j. j\<lparr>j_checkpoint_sequence := ?seq\<rparr>"
  let ?db1 = "db\<lparr>jobs := update_where ?p ?f (jobs db)\<rparr>"
  have touch: "keeps db ?db1"
    by (rule touch_keeps [where p = ?p and f = ?f]) (simp_all add: same_life_def)
  then have inv1: "inv ?db1" using inv by (simp add: keeps_def)
  have j1: "?f ?j \<in> set (jobs ?db1)" using a(1) by (auto simp: set_update_where)
  have held: "held_by (part ?db1 (j_job_id (?f ?j))) (at_attempt t) (at_allocation t) (at_lease t) (at_grant t)"
    using a(5) held_by_cong [of ?db1 db] by simp
  have upd: "held_rows_updated ?db1 (checkpoint_rows db t aid cb cid now) (at_attempt t)
      (\<lambda>a. a\<lparr>a_state := A_CHECKPOINTING, a_updated_at := now\<rparr>) (at_lease t) id"
    using a(4) id by (simp add: held_rows_updated_def checkpoint_rows_def Let_def)
  have "keeps ?db1 (checkpoint_rows db t aid cb cid now)"
    by (rule held_quiet [OF inv1 j1 held upd])
      (use checkpoint_phase_state [OF phase] in
        \<open>auto simp: keeps_attempt_def keeps_lease_def checkpoint_rows_def Let_def\<close>)
  then show ?thesis using touch keeps_trans by blast
qed

lemma reserve_checkpoint_keeps:
  assumes "reserve_checkpoint env db cred aid cb h au = Inr (r, db')"
  shows "keeps db db'"
proof (rule with_callback_keeps [OF assms [unfolded reserve_checkpoint_def]], goal_cases)
  case (1 db1 t resp db2)
  have "checkpoint_phase (at_job t) (at_attempt t)" "db2 = checkpoint_rows db1 t aid cb (ids env 1) (clk env 1)"
    using 1(4) by (auto simp: Let_def res_bind_Inr_iff split: if_splits)
  then show ?case using checkpoint_rows_keeps [OF _ 1(1,2)] by (auto intro: keepsI)
qed

lemma set_attempt_state_updated:
  assumes "a_attempt_id a = aid"
  shows "held_rows_updated db (set_attempt_state db aid s now) a (\<lambda>a. a\<lparr>a_state := s, a_updated_at := now\<rparr>) l id"
  using assms by (simp add: held_rows_updated_def set_attempt_state_def)

text \<open>An event of the holding attempt with a new state for it.\<close>

lemma state_event_keeps:
  assumes inv: "inv db" and rows: "authority_rows db au w = Inr t" and id: "au_attempt_id au = aid"
    and db1: "same_core db db0" "db1 = set_attempt_state db0 aid s now"
    and st: "s \<in> holding (j_state (ch (at_job t)))"
    and ch: "\<And>i. j_job_id (ch i) = j_job_id i" "counter_scopes (ch (at_job t)) = counter_scopes (at_job t)"
      "j_job_fence (ch (at_job t)) = j_job_fence (at_job t)"
      "j_recovery_intent (ch (at_job t)) = j_recovery_intent (at_job t)"
      "j_retry_count (ch (at_job t)) = j_retry_count (at_job t)"
      "j_max_retries (ch (at_job t)) = j_max_retries (at_job t)"
    and states: "j_state (ch (at_job t)) \<in> {J_RUNNING, J_PAUSING}" "j_state (at_job t) \<in> {J_RUNNING, J_PAUSING}"
    and ok: "control_ok (logged (at_job t) kv ch now)"
    and row: "transition_row (machine_of (at_job t) (part db (j_job_id (at_job t))))
      (machine_of (logged (at_job t) kv ch now) (part db (j_job_id (at_job t))))"
  shows "keeps db (record_event db1 (at_job t) ac now c e r act ar kv ch)"
proof -
  note a = authority_held [OF inv rows]
  let ?F = "\<lambda>a. a\<lparr>a_state := s, a_updated_at := now\<rparr>"
  have inv0: "inv db0" using same_core_inv [OF db1(1)] inv by simp
  have j0: "at_job t \<in> set (jobs db0)" using a(1) db1(1) by (simp add: same_core_def)
  have part0: "part db0 = part db" by (rule same_core_part [OF db1(1)])
  note held0 = a(5) [folded part0]
  have upd: "held_rows_updated db0 db1 (at_attempt t) ?F (at_lease t) id"
    unfolding db1(2) by (rule set_attempt_state_updated) (use a(4) id in simp)
  have F: "keeps_attempt ?F" "keeps_lease id" by (simp_all add: keeps_attempt_def keeps_lease_def)
  have same: "results db1 = results db0" "admission_counters db1 = admission_counters db0"
    by (simp_all add: db1(2) set_attempt_state_def)
  have other: "part db1 y = part db0 y" if "y \<noteq> j_job_id (at_job t)" for y
    by (rule held_update(2) [OF inv0 held0 upd F that same(1)])
  have res: "results_ok (logged (at_job t) kv ch now) (part db1 (j_job_id (at_job t)))"
    using job_inv_parts(6) [OF inv0 j0] states same(1) by (auto simp: results_ok_def)
  have "keeps db0 (record_event db1 (at_job t) ac now c e r act ar kv ch)"
    by (rule held_event [OF inv0 j0 held0 upd F, where n = 0])
      (use ch st states ok other res row part0 same(2) in \<open>auto simp: terminal_states_def\<close>)
  then show ?thesis using keeps_core [OF db1(1)] keeps_trans by blast
qed

lemma end_reservation_core [simp]: "same_core db (end_reservation db cid s now)"
  by (simp add: end_reservation_def same_core_def)

lemma remark_row:
  "transition_row (machine_of j p) (machine_of (logged j False id now) p)"
  using transition_row.remark [of "machine_of j p"] by (simp add: machine_of_def tick_def)

lemma control_ok_logged_id [simp]: "control_ok (logged j kv id now) = control_ok j"
  by (simp add: control_ok_def)

lemma rejected_rows_keeps:
  assumes inv: "inv db" and rows: "authority_rows db au w = Inr t" and id: "au_attempt_id au = aid"
    and phase: "checkpoint_phase (at_job t) (at_attempt t)"
  shows "keeps db (rejected_rows db t wid aid reservation reason now)"
proof -
  note a = authority_held [OF inv rows]
  have ctl: "control_ok (at_job t)" by (rule job_inv_parts(3) [OF inv a(1)])
  show ?thesis
  proof (cases "j_state (at_job t) = J_PAUSING \<and> a_execution_intent (at_attempt t) = RUN")
    case True
    then have "j_desired_state (at_job t) = D_PAUSED" "j_recovery_intent (at_job t) = None"
      using phase by (simp_all add: checkpoint_phase_def)
    then have "transition_row (machine_of (at_job t) (part db (j_job_id (at_job t))))
        (machine_of (logged (at_job t) False (\<lambda>j. j\<lparr>j_state := J_RUNNING, j_desired_state := D_RUNNING\<rparr>) now)
          (part db (j_job_id (at_job t))))"
      using transition_row.pause_aborted [of "machine_of (at_job t) (part db (j_job_id (at_job t)))"] True
        phase_of_simps(2) [OF a(5)] by (simp add: machine_of_def tick_def)
    moreover have "control_ok (logged (at_job t) False (\<lambda>j. j\<lparr>j_state := J_RUNNING, j_desired_state := D_RUNNING\<rparr>) now)"
      using ctl True \<open>j_recovery_intent _ = None\<close> by (auto simp: control_ok_def terminal_states_def)
    ultimately show ?thesis
      unfolding rejected_rows_def Let_def worker_event_def if_P [OF True] snd_conv
      by (intro state_event_keeps [OF inv rows id end_reservation_core refl])
        (use True in \<open>simp_all add: counter_scopes_def\<close>)
  next
    case False
    show ?thesis
      unfolding rejected_rows_def Let_def worker_event_def if_not_P [OF False] snd_conv
      by (rule state_event_keeps [OF inv rows id end_reservation_core refl])
        (use checkpoint_phase_state [OF phase] ctl remark_row in auto)
  qed
qed

lemma committed_rows_keeps:
  assumes inv: "inv db" and rows: "authority_rows db au w = Inr t" and id: "au_attempt_id au = aid"
    and phase: "checkpoint_phase (at_job t) (at_attempt t)"
  shows "keeps db (committed_rows db t wid aid reservation request artifact edges now)"
proof -
  have ctl: "control_ok (at_job t)" by (rule job_inv_parts(3) [OF inv authority_held(1) [OF inv rows]])
  show ?thesis
    unfolding committed_rows_def Let_def worker_event_def snd_conv
    by (rule state_event_keeps [OF inv rows id _ refl])
      (use checkpoint_phase_state [OF phase] ctl remark_row in \<open>auto simp: same_core_def end_reservation_def\<close>)
qed

lemma publish_checkpoint_keeps:
  assumes "publish_checkpoint env db kv pre cred aid cb h request = Inr (r, db')"
  shows "keeps db db'"
proof (rule with_callback_keeps [OF assms [unfolded publish_checkpoint_def]], goal_cases)
  case (1 db1 t resp db2)
  note rows = 1(1) and id = 1(2)
  have phase: "checkpoint_phase (at_job t) (at_attempt t)"
    using 1(4) by (auto simp: Let_def res_bind_Inr_iff split: if_splits)
  obtain row where row: "one_or_none (filter (\<lambda>r. cr_attempt_id r = aid \<and> cr_state r = CR_RESERVED)
      (checkpoint_reservations db1)) = Inr row"
    using 1(4) by (auto simp: Let_def res_bind_Inr_iff split: if_splits)
  obtain reservation where some: "row = Some reservation"
    using 1(4) row by (cases row) (auto simp: Let_def res_bind_Inr_iff split: if_splits)
  show ?case
  proof (cases "verified_checkpoint_graph db1 kv t reservation request pre")
    case (Inl e)
    then obtain reason where "db2 = rejected_rows db1 t (au_worker_id (kq_authority request)) aid reservation reason (clk env 1)"
      using 1(4) row some by (cases e) (auto simp: Let_def res_bind_Inr_iff split: if_splits)
    then show ?thesis using rejected_rows_keeps [OF _ rows id phase] by (auto intro: keepsI)
  next
    case (Inr g)
    then have "db2 = committed_rows db1 t (au_worker_id (kq_authority request)) aid reservation request (fst g) (snd g)
        (clk env 1)"
      using 1(4) row some by (cases g) (auto simp: Let_def res_bind_Inr_iff split: if_splits)
    then show ?thesis using committed_rows_keeps [OF _ rows id phase] by (auto intro: keepsI)
  qed
qed

subsection \<open>Adoption\<close>

lemma adopt_effect_keeps:
  assumes inv: "inv db" and rows: "authority_rows db (aq_prior_authority request) w = Inr t"
    and id: "au_attempt_id (aq_prior_authority request) = aid"
    and new: "next \<notin> g_grant_id ` set (attempt_authority_grants db)"
  shows "keeps db (adopt_effect db t w aid cb next request cp rs now)"
proof -
  note a = authority_held [OF inv rows]
  let ?j = "at_job t" and ?g = "at_grant t" and ?prior = "aq_prior_authority request"
  let ?x = "j_job_id ?j" and ?db' = "adopt_effect db t w aid cb next request cp rs now"
  let ?F = "\<lambda>a. a\<lparr>a_worker_incarnation_id := aq_current_worker_incarnation_id request, a_updated_at := now\<rparr>"
  let ?L = "\<lambda>l. l\<lparr>l_current_worker_incarnation_id := aq_current_worker_incarnation_id request,
      l_expires_at := now + lease_duration\<rparr>"
  let ?G = "\<lambda>g. g\<lparr>g_ended_at := Some now\<rparr>" and ?pg = "\<lambda>r. g_grant_id r = g_grant_id ?g"
  let ?new = "\<lparr>g_grant_id = next, g_tenant_id = a_tenant_id (at_attempt t), g_job_id = ?x, g_attempt_id = aid,
      g_allocation_id = au_allocation_id ?prior, g_lease_id = au_lease_id ?prior, g_worker_id = w,
      g_worker_incarnation_id = aq_current_worker_incarnation_id request, g_job_fence = au_job_fence ?prior,
      g_predecessor_grant_id = Some (g_grant_id ?g), g_callback_id = cb, g_granted_at = now, g_ended_at = None\<rparr>"
  let ?mid = "?db'\<lparr>attempt_authority_grants := attempt_authority_grants db\<rparr>"
  have upd: "held_rows_updated db ?mid (at_attempt t) ?F (at_lease t) ?L"
    using a(4,8) id by (simp add: held_rows_updated_def adopt_effect_def Let_def)
  have K: "keeps_attempt ?F" "keeps_lease ?L" by (simp_all add: keeps_attempt_def keeps_lease_def)
  have same: "results ?mid = results db" "jobs ?db' = jobs db" "events ?db' = events db" "results ?db' = results db"
      "retry_schedules ?db' = retry_schedules db" "admission_counters ?db' = admission_counters db"
    by (simp_all add: adopt_effect_def Let_def)
  note u = held_update [OF inv a(5) upd K]
  have gs: "attempt_authority_grants ?db' = update_where ?pg ?G (attempt_authority_grants db) @ [?new]"
    by (simp add: adopt_effect_def Let_def)
  have grants: "p_grants (part ?db' y) = update_where ?pg ?G (p_grants (part db y)) @ (if y = ?x then [?new] else [])" for y
    using gs by (simp add: filter_update_where_key)
  have live: "live_grants (part ?db' ?x) = [?new]"
  proof -
    have "filter (\<lambda>g. g_ended_at g = None) (update_where ?pg ?G (p_grants (part db ?x))) = []"
      by (rule filter_update_drop [where r = ?g]) (use a(5) in \<open>simp_all add: held_by_def live_grants_def\<close>)
    then show ?thesis unfolding live_grants_def grants by simp
  qed
  have mid: "part ?db' y = (part ?mid y)\<lparr>p_grants := p_grants (part ?db' y)\<rparr>" for y by (simp add: part_def)
  have other: "part ?db' y = part db y" if "y \<noteq> ?x" for y
  proof -
    have "p_grants (part ?db' y) = p_grants (part db y)"
      unfolding grants using held_other(3) [OF inv a(5) that, of ?G] that by simp
    then show ?thesis using mid [of y] u(2) [OF that same(1)] by simp
  qed
  have held: "held_by (part ?db' ?x) (?F (at_attempt t)) (at_allocation t) (?L (at_lease t)) ?new"
    using u(3) live a(4,6,8,9,11) id
    by (simp add: held_by_def unreleased_def live_leases_def a(5) [unfolded held_by_def])
  have at: "attempts_ok ?j (part ?db' ?x)"
  proof -
    have "attempts_ok ?j (part ?mid ?x)" by (rule u(4) [OF job_inv_parts(1) [OF inv a(1)] order_refl])
    moreover have "g_attempt_id ` set (p_grants (part ?db' ?x)) \<subseteq> a_attempt_id ` set (p_attempts (part ?mid ?x))"
    proof -
      have "g_attempt_id ` set (p_grants (part db ?x)) \<subseteq> a_attempt_id ` set (p_attempts (part ?mid ?x))"
        using \<open>attempts_ok ?j (part ?mid ?x)\<close> by (simp add: attempts_ok_def)
      moreover have "aid \<in> a_attempt_id ` set (p_attempts (part ?mid ?x))"
        using a(5) imageI [of "?F (at_attempt t)" _ a_attempt_id] u(3) a(4) id unfolding held_by_def by simp
      moreover have "g_attempt_id ` set (p_grants (part ?db' ?x)) \<subseteq> insert aid (g_attempt_id ` set (p_grants (part db ?x)))"
        unfolding grants by (auto simp: set_update_where split: if_splits)
      ultimately show ?thesis by blast
    qed
    ultimately show ?thesis by (simp add: attempts_ok_def)
  qed
  have keys: "keys_ok ?db'"
    using u(1) new inv unfolding keys_ok_def inv_def
    by (simp add: gs map_update_where)
  have "phase_ok ?j (part ?db' ?x)"
    by (rule phase_ok_held [OF held]) (use phase_held [OF inv a(1,5)] in simp_all)
  then have ok: "job_inv ?j (part ?db' ?x)"
    using at job_inv_parts [OF inv a(1)] same by (simp add: job_inv_def retries_ok_def log_ok_def results_ok_def)
  have m: "machine_of ?j (part ?db' ?x) = machine_of ?j (part db ?x)"
    using phase_of_simps(2) [OF held] phase_of_simps(2) [OF a(5)] by (simp add: machine_of_def)
  have "unreleased (part ?db' ?x) = unreleased (part db ?x)"
    using held a(5) unfolding held_by_def by argo
  then have "inv ?db' \<and> store_moves db ?db'"
    using ok m by (intro one_job [OF inv keys _ other inv_job(1) [OF inv a(1)], where j' = ?j and n = 0 and m = 0])
      (use inv_job(1) [OF inv a(1)] same in simp_all)
  then show ?thesis by (simp add: keeps_def)
qed

lemma adopt_attempt_keeps:
  assumes "adopt_attempt env db w cred aid cb h request = Inr (r, db')"
    and new: "ids env 1 \<notin> g_grant_id ` set (attempt_authority_grants db)"
  shows "keeps db db'"
proof -
  obtain receipt replay db1 where b: "begin_callback db (ids env 0) w ''workerAdoptAttempt'' cb h = Inr (receipt, replay, db1)"
    using assms(1) by (auto simp: adopt_attempt_def res_bind_Inr_iff)
  note core = begin_callback_core [OF b]
  have id: "au_attempt_id (aq_prior_authority request) = aid"
    using assms(1) b by (auto simp: adopt_attempt_def res_bind_Inr_iff Let_def split: if_splits)
  show ?thesis
  proof (cases replay)
    case (Some a)
    then have "db' = db1" using assms(1) b by (auto simp: adopt_attempt_def res_bind_Inr_iff Let_def split: if_splits)
    then show ?thesis using keeps_core [OF core] by simp
  next
    case None
    then have lk: "adopt_locked env db1 w cred aid cb receipt request = Inr (r, db')"
      using assms(1) b by (auto simp: adopt_attempt_def res_bind_Inr_iff Let_def split: if_splits)
    obtain t cp rs where t: "authority_rows db1 (aq_prior_authority request) w = Inr t"
        "complete_callback (adopt_effect db1 t w aid cb (ids env 1) request cp rs (clk env 2)) (the receipt) r = Inr db'"
      using lk by (auto simp: adopt_locked_def res_bind_Inr_iff Let_def split: if_splits)
    have "ids env 1 \<notin> g_grant_id ` set (attempt_authority_grants db1)" using new core by (simp add: same_core_def)
    then have "keeps db1 (adopt_effect db1 t w aid cb (ids env 1) request cp rs (clk env 2))"
      using adopt_effect_keeps [OF _ t(1) id] by (blast intro: keepsI)
    then show ?thesis
      using keeps_core [OF core] keeps_core [OF complete_callback_core [OF t(2)]] keeps_trans by blast
  qed
qed

end
