(* ===== verification/Admin_Workers.thy ===== *)
theory Admin_Workers
  imports Job_Admission
begin

section \<open>Worker administration\<close>

text \<open>
  \<^verbatim>\<open>src/src/nexa/application/admin_workers.py\<close>: draining, disabling and enabling a worker through one
  pipeline.  Disabling fences every live lease on the worker and leaves its allocations quarantined.
  The readiness evidence of a worker (\<^verbatim>\<open>worker_readiness_failure\<close>) is an argument.
\<close>

definition admin_authorize :: "services \<Rightarrow> db \<Rightarrow> Principal \<Rightarrow> bool \<Rightarrow> Principal tx" where
  "admin_authorize sv db caller write =
     res_bind (sv_revalidate sv db caller) (\<lambda>live.
     case require_admin live write of Inl m \<Rightarrow> Inl (permission_denied m) | Inr _ \<Rightarrow> Inr live)"

definition ensure_mutable :: "db \<Rightarrow> unit tx" where
  "ensure_mutable db = (if frozen db
     then Inl (state_conflict ''Administrative mutations are disabled while writes are frozen'') else Inr ())"

definition worker_of :: "db \<Rightarrow> uuid \<Rightarrow> worker_row tx" where
  "worker_of db worker_id =
     res_bind (one_or_none (filter (\<lambda>w. w_worker_id w = worker_id) (workers db))) (\<lambda>row.
     case row of None \<Rightarrow> Inl (ApplicationError ''resource_not_found'' 404 ''Worker was not found'')
     | Some w \<Rightarrow> Inr w)"

definition inventory_view :: "db \<Rightarrow> worker_row \<Rightarrow> inventory_row option tx" where
  "inventory_view db worker = (case w_current_inventory_version worker of None \<Rightarrow> Inr None
     | Some version \<Rightarrow> one_or_none (filter (\<lambda>iv. iv_worker_id iv = w_worker_id worker \<and>
         iv_inventory_version iv = version) (worker_inventories db)))"

definition admin_audit :: "db \<Rightarrow> Principal \<Rightarrow> string \<Rightarrow> uuid \<Rightarrow> string \<Rightarrow> int \<Rightarrow> int \<Rightarrow> timestamp \<Rightarrow> db" where
  "admin_audit db live action target reason before after now =
     db\<lparr>audit_records := audit_records db @ [\<lparr>u_actor = ADMIN (user_of live), u_tenant_id = None, u_action = action,
       u_target_id = target, u_before_version = Some before, u_after_version = after, u_reason = Some reason,
       u_created_at = now\<rparr>]\<rparr>"

record worker_request =
  wq_worker_id :: uuid
  wq_reason :: string
  wq_idempotency_key :: string
  wq_request_hash :: string
  wq_expected_version :: expected_version

definition mutate_worker ::
  "services \<Rightarrow> env \<Rightarrow> db \<Rightarrow> Principal \<Rightarrow> worker_request \<Rightarrow> string \<Rightarrow> string \<Rightarrow> int \<Rightarrow>
   (db \<Rightarrow> worker_row \<Rightarrow> timestamp \<Rightarrow> Principal \<Rightarrow> ((worker_row \<Rightarrow> worker_row) \<times> db) tx) \<Rightarrow> (stored_response \<times> db) tx" where
  "mutate_worker sv env db caller request operation_id action status apply_change =
     (let worker_id = wq_worker_id request; now = clk env 0 in
     res_bind (admin_authorize sv db caller True) (\<lambda>live.
     res_bind (begin_idempotency db (ids env 0) (request_scope ''GLOBAL'' live operation_id (wq_idempotency_key request))
       (wq_request_hash request) (started env + days 30) (sv_pending_wait_milliseconds sv)) (\<lambda>(record_id, replay, db1).
     case replay of Some response \<Rightarrow> Inr (response, db1)
     | None \<Rightarrow>
     res_bind (resolve_expected_version (wq_expected_version request)) (\<lambda>expected.
     res_bind (ensure_mutable db1) (\<lambda>_.
     res_bind (worker_of db1 worker_id) (\<lambda>worker.
     if w_version worker \<noteq> expected
     then Inl (ApplicationError ''version_conflict'' 412 ''Worker version does not match If-Match'')
     else res_bind (apply_change db1 worker now live) (\<lambda>(values, db2).
     let db3 = db2\<lparr>workers := update_where (\<lambda>w. w_worker_id w = worker_id)
           (\<lambda>w. (values w)\<lparr>w_version := w_version worker + 1\<rparr>) (workers db2)\<rparr> in
     res_bind (one (filter (\<lambda>w. w_worker_id w = worker_id) (workers db3))) (\<lambda>updated.
     let db4 = admin_audit db3 live action worker_id (wq_reason request) (w_version worker) (w_version updated)
           (started env) in
     res_bind (inventory_view db4 updated) (\<lambda>inventory.
     let response = \<lparr>sr_status = status, sr_body = Some (Worker_body updated inventory),
           sr_headers = [(''ETag'', etag (w_version updated))]\<rparr> in
     res_bind (complete_idempotency db4 record_id response (Some worker_id) False) (\<lambda>db5.
     Inr (response, db5)))))))))))"

definition drain_worker :: "services \<Rightarrow> env \<Rightarrow> db \<Rightarrow> Principal \<Rightarrow> worker_request \<Rightarrow> (stored_response \<times> db) tx" where
  "drain_worker sv env db caller request =
     mutate_worker sv env db caller request ''adminDrainWorker'' ''admin.worker.drain'' 202 (\<lambda>db1 worker now live.
       if w_admin_state worker \<noteq> ENABLED then Inl (state_conflict ''The worker cannot be drained in its state'')
       else Inr (\<lambda>w. w\<lparr>w_admin_state := DRAINING\<rparr>, db1))"

subsection \<open>Disabling\<close>

definition admin_job_event ::
  "db \<Rightarrow> job_row \<Rightarrow> timestamp \<Rightarrow> uuid \<Rightarrow> string \<Rightarrow> bool \<Rightarrow> (job_row \<Rightarrow> job_row) \<Rightarrow> db" where
  "admin_job_event db job now actor_id event_type keep_version changes =
     record_event db job (ADMIN actor_id) now now event_type (Some ''WORKER_DISABLED'') event_type
       (Some ''WORKER_DISABLED'') keep_version changes"

text \<open>The live leases on the worker, in the order of their jobs.\<close>

definition worker_leases :: "db \<Rightarrow> uuid \<Rightarrow> (uuid \<times> uuid) list" where
  "worker_leases db worker_id = sort (concat (map (\<lambda>l. map (\<lambda>_. (l_job_id l, l_lease_id l))
     (filter (\<lambda>al. al_allocation_id al = l_allocation_id l \<and> al_worker_id al = worker_id) (allocations db)))
     (filter (\<lambda>l. l_revoked_at l = None) (attempt_leases db))))"

definition fence_lease :: "timestamp \<Rightarrow> uuid \<Rightarrow> db \<Rightarrow> uuid \<times> uuid \<Rightarrow> db tx" where
  "fence_lease now actor_id db probe = (case probe of (jid, lease_id) \<Rightarrow>
     res_bind (one (filter (\<lambda>j. j_job_id j = jid) (jobs db))) (\<lambda>job.
     res_bind (one (filter (\<lambda>l. l_lease_id l = lease_id) (attempt_leases db))) (\<lambda>lease.
     res_bind (one (filter (\<lambda>a. a_attempt_id a = l_attempt_id lease) (attempts db))) (\<lambda>attempt.
     Inr (if l_revoked_at lease \<noteq> None then db
       else if j_state job \<in> {J_DISPATCHING, J_RUNNING, J_PAUSING} \<and> a_job_fence attempt = j_job_fence job
       then admin_job_event (fence_attempt db (a_attempt_id attempt) now A_STOPPING INFRASTRUCTURE
           ''WORKER_DISABLED'' ''WORKER_DISABLED'') job now actor_id ''ATTEMPT_FENCED'' False
           (\<lambda>j. j\<lparr>j_state := J_RECOVERING, j_job_fence := j_job_fence job + 1\<rparr>)
       else admin_job_event (revoke_leftover_authority db (a_attempt_id attempt) (l_allocation_id lease) now
           ''WORKER_DISABLED'') job now actor_id ''LEASE_REVOKED'' True id)))))"

definition fence_worker_attempts :: "db \<Rightarrow> uuid \<Rightarrow> timestamp \<Rightarrow> uuid \<Rightarrow> db tx" where
  "fence_worker_attempts db worker_id now actor_id =
     fold_result (fence_lease now actor_id) db (worker_leases db worker_id)"

definition disable_worker :: "services \<Rightarrow> env \<Rightarrow> db \<Rightarrow> Principal \<Rightarrow> worker_request \<Rightarrow> (stored_response \<times> db) tx" where
  "disable_worker sv env db caller request =
     mutate_worker sv env db caller request ''adminDisableWorker'' ''admin.worker.disable'' 202 (\<lambda>db1 worker now live.
       if w_admin_state worker = DISABLED then Inl (state_conflict ''The worker is already disabled'')
       else res_bind (fence_worker_attempts db1 (wq_worker_id request) now (user_of live)) (\<lambda>db2.
         Inr (\<lambda>w. w\<lparr>w_admin_state := DISABLED, w_health := STARTING, w_ready_at := None\<rparr>, db2)))"

subsection \<open>Enabling\<close>

definition require_enable_ready ::
  "(db \<Rightarrow> worker_row \<Rightarrow> timestamp \<Rightarrow> string option) \<Rightarrow> db \<Rightarrow> worker_row \<Rightarrow> timestamp \<Rightarrow> unit tx" where
  "require_enable_ready readiness db worker now =
     (if w_admin_state worker = DRAINING \<and> w_health worker \<noteq> READY then Inl (state_conflict ''The worker is not READY'')
      else case readiness db worker now of Some failure \<Rightarrow> Inl (state_conflict failure)
      | None \<Rightarrow>
         if list_ex (\<lambda>al. al_worker_id al = w_worker_id worker \<and> al_state al = S_QUARANTINED) (allocations db)
         then Inl (state_conflict ''Quarantined allocations still await verified cleanup'')
         else Inr ())"

definition enable_worker ::
  "(db \<Rightarrow> worker_row \<Rightarrow> timestamp \<Rightarrow> string option) \<Rightarrow> services \<Rightarrow> env \<Rightarrow> db \<Rightarrow> Principal \<Rightarrow> worker_request \<Rightarrow>
   (stored_response \<times> db) tx" where
  "enable_worker readiness sv env db caller request =
     mutate_worker sv env db caller request ''adminEnableWorker'' ''admin.worker.enable'' 200 (\<lambda>db1 worker now live.
       if w_admin_state worker = ENABLED then Inl (state_conflict ''The worker is already enabled'')
       else res_bind (require_enable_ready readiness db1 worker now) (\<lambda>_.
         Inr (\<lambda>w. w\<lparr>w_admin_state := ENABLED\<rparr>, db1)))"

end
