(* ===== verification/Job_Control.thy ===== *)
theory Job_Control
  imports Job_Admission Execution_Service
begin

section \<open>User control of jobs\<close>

text \<open>
  \<^verbatim>\<open>src/src/nexa/application/job_control.py\<close>: one pipeline for cancel, pause and resume, and the manual
  retry of a failed job.  \<open>compatible\<close> stands for comparing the compatibility of a checkpoint with the
  one its template expects, and the scan of the requested checkpoint's blobs, made before the
  transaction, is an argument.
\<close>

definition infeasible :: "string \<Rightarrow> tx_error" where
  "infeasible m = ApplicationError ''infeasible_request'' 422 m"

definition immediate_cancel :: "job_state set" where
  "immediate_cancel = {J_QUEUED, J_RETRY_WAIT, J_PAUSED}"

definition active_states :: "job_state set" where
  "active_states = {J_DISPATCHING, J_RUNNING, J_PAUSING}"

definition restorable_checkpoint :: "(template_row \<Rightarrow> string \<Rightarrow> bool) \<Rightarrow> db \<Rightarrow> uuid \<Rightarrow> template_row \<Rightarrow> bool" where
  "restorable_checkpoint compatible db job_id template \<longleftrightarrow>
     list_ex (\<lambda>c. restorable_scope db job_id c \<and> not_corrupt db c \<and> compatible template (cp_compatibility c))
       (checkpoints db)"

definition visible_submitter :: "db \<Rightarrow> Principal \<Rightarrow> uuid \<Rightarrow> uuid \<Rightarrow> uuid tx" where
  "visible_submitter db live tenant_id job_id =
     (case require_tenant_membership live tenant_id of
        Inl e \<Rightarrow> Inl (permission_denied e)
      | Inr membership \<Rightarrow>
          res_bind (one_or_none (filter (\<lambda>j. j_tenant_id j = tenant_id \<and> j_job_id j = job_id) (jobs db))) (\<lambda>row.
          let not_found = ApplicationError ''resource_not_found'' 404 ''Job was not found'' in
          case row of None \<Rightarrow> Inl not_found
          | Some j \<Rightarrow>
              if tm_role membership \<noteq> ''TENANT_ADMIN'' \<and> Some (j_submitter_user_id j) \<noteq> pc_user_id live
              then Inl not_found else Inr (j_submitter_user_id j)))"

subsection \<open>The pipeline\<close>

record control_context =
  cc_live :: Principal
  cc_job :: job_row
  cc_counters :: "counter_row list"
  cc_now :: timestamp

text \<open>What a transition stages: the store after its own statements, the changes of the job row, whether
  they end the job, and the type and reason of the event.\<close>

record staged =
  st_db :: db
  st_changes :: "job_row \<Rightarrow> job_row"
  st_terminal :: bool
  st_event :: string
  st_event_reason :: string

definition control_counters :: "db \<Rightarrow> uuid \<Rightarrow> uuid \<Rightarrow> counter_row list tx" where
  "control_counters db tenant_id submitter = lock_counters db [GLOBAL, TENANT tenant_id, USER tenant_id submitter]"

definition control_event :: "db \<Rightarrow> control_context \<Rightarrow> string \<Rightarrow> string \<Rightarrow> string \<Rightarrow> string \<Rightarrow> (job_row \<Rightarrow> job_row) \<Rightarrow> db" where
  "control_event db ctx action event_type reason request_reason changes =
     record_event db (cc_job ctx) (USER_ACTOR (user_of (cc_live ctx))) (cc_now ctx) (cc_now ctx) event_type
       (Some reason) action (Some request_reason) False changes"

record control_request =
  rq_tenant_id :: uuid
  rq_job_id :: uuid
  rq_reason :: string
  rq_idempotency_key :: string
  rq_request_hash :: string
  rq_if_match :: "string option"

definition control_rows ::
  "env \<Rightarrow> db \<Rightarrow> control_request \<Rightarrow> Principal \<Rightarrow> uuid \<Rightarrow> control_context tx" where
  "control_rows env db request live submitter =
     res_bind (resolve_expected_version (VersionPrecondition (rq_if_match request))) (\<lambda>expected.
     if frozen db then Inl (state_conflict ''Writes are frozen'')
     else res_bind (control_counters db (rq_tenant_id request) submitter) (\<lambda>counters.
     res_bind (one (filter (\<lambda>j. j_tenant_id j = rq_tenant_id request \<and> j_job_id j = rq_job_id request) (jobs db))) (\<lambda>job.
     if j_version job \<noteq> expected
     then Inl (ApplicationError ''version_conflict'' 412 ''Job version does not match If-Match'')
     else Inr \<lparr>cc_live = live, cc_job = job, cc_counters = counters, cc_now = clk env 0\<rparr>)))"

definition control ::
  "services \<Rightarrow> env \<Rightarrow> db \<Rightarrow> Principal \<Rightarrow> control_request \<Rightarrow> string \<Rightarrow> string \<Rightarrow>
   (db \<Rightarrow> control_context \<Rightarrow> staged tx) \<Rightarrow> (stored_response \<times> db) tx" where
  "control sv env db caller request operation_id action apply_change =
     (let tenant_id = rq_tenant_id request; job_id = rq_job_id request in
     res_bind (authorize sv db caller tenant_id True) (\<lambda>live.
     res_bind (visible_submitter db live tenant_id job_id) (\<lambda>submitter.
     res_bind (begin_idempotency db (ids env 0) (request_scope tenant_id live operation_id (rq_idempotency_key request))
       (rq_request_hash request) (started env + days (terminal_retention_days env))
       (sv_pending_wait_milliseconds sv)) (\<lambda>(record_id, replay, db1).
     case replay of Some response \<Rightarrow> Inr (response, db1)
     | None \<Rightarrow>
     res_bind (control_rows env db1 request live submitter) (\<lambda>ctx.
     res_bind (apply_change db1 ctx) (\<lambda>st.
     let db2 = control_event (st_db st) ctx action (st_event st) (st_event_reason st) (rq_reason request)
           (st_changes st) in
     res_bind (job_view_of db2 tenant_id job_id) (\<lambda>body.
     let response = \<lparr>sr_status = 202, sr_body = Some (Job_body body), sr_headers = [(''ETag'', etag (v_version body))]\<rparr> in
     res_bind (complete_idempotency db2 record_id response (Some job_id) False) (\<lambda>db3.
     Inr (response, if st_terminal st
       then extend_retention db3 job_id (cc_now ctx) (terminal_retention_days env) else db3)))))))))"

subsection \<open>Cancel\<close>

text \<open>The attempt of a job whose lease is still live.\<close>

definition live_attempt :: "db \<Rightarrow> uuid \<Rightarrow> attempt_row option tx" where
  "live_attempt db job_id = one_or_none (concat (map (\<lambda>a. map (\<lambda>_. a)
     (filter (\<lambda>l. l_attempt_id l = a_attempt_id a \<and> l_revoked_at l = None) (attempt_leases db)))
     (filter (\<lambda>a. a_job_id a = job_id) (attempts db))))"

definition close_waiting :: "db \<Rightarrow> uuid \<Rightarrow> timestamp \<Rightarrow> db" where
  "close_waiting db job_id now =
     db\<lparr>reservations := update_where (\<lambda>r. r_job_id r = job_id \<and> r_invalidated_at r = None)
          (\<lambda>r. r\<lparr>r_invalidated_at := Some now, r_invalidation_reason := Some ''job_cancelled''\<rparr>) (reservations db),
        retry_schedules := update_where (\<lambda>r. rs_job_id r = job_id \<and> rs_closed_at r = None)
          (\<lambda>r. r\<lparr>rs_closed_at := Some now\<rparr>) (retry_schedules db)\<rparr>"

definition cancel_change :: "db \<Rightarrow> control_context \<Rightarrow> staged tx" where
  "cancel_change db ctx =
     (let job = cc_job ctx; now = cc_now ctx; job_id = j_job_id job; state = j_state job;
          cancelling = (\<lambda>j. j\<lparr>j_state := J_CANCELLING, j_desired_state := D_CANCELLED\<rparr>) in
     if state \<in> immediate_cancel
     then res_bind (adjust_counters (close_waiting db job_id now) (cc_counters ctx) now 1 0) (\<lambda>db1.
       Inr \<lparr>st_db = db1, st_changes = (\<lambda>j. j\<lparr>j_state := J_CANCELLED, j_desired_state := D_CANCELLED,
              j_recovery_intent := None, j_waiting_reason := None, j_terminal_at := Some now\<rparr>),
            st_terminal = True, st_event = ''JOB_CANCELLED'', st_event_reason = ''USER_CANCEL''\<rparr>)
     else if state \<in> active_states
     then res_bind (live_attempt db job_id) (\<lambda>attempt.
       Inr (case attempt of
          None \<Rightarrow> \<lparr>st_db = db, st_changes = cancelling, st_terminal = False, st_event = ''CANCEL_REQUESTED'',
                   st_event_reason = ''USER_CANCEL''\<rparr>
        | Some a \<Rightarrow> \<lparr>st_db = fence_attempt db (a_attempt_id a) now A_STOPPING USER_CANCEL ''USER_CANCEL'' ''USER_CANCEL'',
                   st_changes = (\<lambda>j. (cancelling j)\<lparr>j_job_fence := j_job_fence job + 1\<rparr>), st_terminal = False,
                   st_event = ''CANCEL_REQUESTED'', st_event_reason = ''USER_CANCEL''\<rparr>))
     else if state = J_RECOVERING
     then Inr \<lparr>st_db = db, st_changes = cancelling, st_terminal = False, st_event = ''CANCEL_REQUESTED'',
            st_event_reason = ''USER_CANCEL''\<rparr>
     else Inl (state_conflict ''The job cannot be cancelled in its state''))"

definition cancel_job ::
  "services \<Rightarrow> env \<Rightarrow> db \<Rightarrow> Principal \<Rightarrow> control_request \<Rightarrow> (stored_response \<times> db) tx" where
  "cancel_job sv env db caller request = control sv env db caller request ''cancelJob'' ''job.cancel'' cancel_change"

subsection \<open>Pause and resume\<close>

definition spec_and_template :: "db \<Rightarrow> uuid \<Rightarrow> (spec_row \<times> template_row) tx" where
  "spec_and_template db job_id =
     res_bind (spec_of_job db job_id) (\<lambda>sp. res_bind (template_of_spec db sp) (\<lambda>tv. Inr (sp, tv)))"

definition pause_change :: "db \<Rightarrow> control_context \<Rightarrow> staged tx" where
  "pause_change db ctx =
     (let job = cc_job ctx in
     res_bind (spec_and_template db (j_job_id job)) (\<lambda>(_, template).
     if \<not> t_checkpointable template then Inl (infeasible ''Job template is not checkpointable'')
     else if j_state job \<noteq> J_RUNNING \<or> j_desired_state job \<noteq> D_RUNNING
     then Inl (state_conflict ''The job cannot be paused in its state'')
     else Inr \<lparr>st_db = db, st_changes = (\<lambda>j. j\<lparr>j_state := J_PAUSING, j_desired_state := D_PAUSED\<rparr>),
            st_terminal = False, st_event = ''PAUSE_REQUESTED'', st_event_reason = ''USER_PAUSE''\<rparr>))"

definition pause_job ::
  "services \<Rightarrow> env \<Rightarrow> db \<Rightarrow> Principal \<Rightarrow> control_request \<Rightarrow> (stored_response \<times> db) tx" where
  "pause_job sv env db caller request = control sv env db caller request ''pauseJob'' ''job.pause'' pause_change"

definition resume_change ::
  "(template_row \<Rightarrow> string \<Rightarrow> bool) \<Rightarrow> db \<Rightarrow> control_context \<Rightarrow> staged tx" where
  "resume_change compatible db ctx =
     (let job = cc_job ctx; now = cc_now ctx; global_counter = hd (cc_counters ctx) in
     if j_state job \<noteq> J_PAUSED then Inl (state_conflict ''The job cannot be resumed in its state'')
     else res_bind (spec_and_template db (j_job_id job)) (\<lambda>(_, template).
     if \<not> (t_restart_safe template \<or> restorable_checkpoint compatible db (j_job_id job) template)
     then Inl (infeasible ''No compatible checkpoint or restart-safe input'')
     else Inr \<lparr>st_db = db\<lparr>admission_counters := update_where (\<lambda>k. k_scope k = GLOBAL)
              (\<lambda>k. k\<lparr>k_version := k_version global_counter + 1, k_updated_at := now\<rparr>) (admission_counters db)\<rparr>,
            st_changes = (\<lambda>j. j\<lparr>j_state := J_QUEUED, j_desired_state := D_RUNNING, j_recovery_intent := None,
              j_waiting_reason := None, j_ready_sequence := k_version global_counter\<rparr>),
            st_terminal = False, st_event = ''JOB_RESUMED'', st_event_reason = ''USER_RESUME''\<rparr>))"

definition resume_job ::
  "services \<Rightarrow> (template_row \<Rightarrow> string \<Rightarrow> bool) \<Rightarrow> env \<Rightarrow> db \<Rightarrow> Principal \<Rightarrow> control_request \<Rightarrow>
   (stored_response \<times> db) tx" where
  "resume_job sv compatible env db caller request =
     control sv env db caller request ''resumeJob'' ''job.resume'' (resume_change compatible)"

subsection \<open>Manual retry\<close>

datatype retry_scan = ScanValid uuid | ScanInvalid | ScanMissing | ScanSkip | ScanUnavailable

definition checkpoint_files :: "db \<Rightarrow> uuid \<Rightarrow> uuid \<Rightarrow> uuid set" where
  "checkpoint_files db tenant_id checkpoint_id = set (map af_artifact_id (filter (\<lambda>r. af_tenant_id r = tenant_id \<and>
     af_owner r = CHECKPOINT checkpoint_id \<and> af_purpose r = ''CHECKPOINT_FILE'') (artifact_references db)))"

definition lock_retry_checkpoint ::
  "db \<Rightarrow> Principal \<Rightarrow> uuid \<Rightarrow> spec_row \<Rightarrow> uuid \<Rightarrow> retry_scan \<Rightarrow> unit tx" where
  "lock_retry_checkpoint db live tenant_id source_spec checkpoint_id scan =
     (let not_found = ApplicationError ''resource_not_found'' 404 ''Checkpoint was not found'';
          unusable = infeasible ''Checkpoint is not a compatible committed checkpoint'' in
     res_bind (one_or_none (filter (\<lambda>c. cp_checkpoint_id c = checkpoint_id \<and> cp_tenant_id c = tenant_id)
       (checkpoints db))) (\<lambda>row.
     case row of None \<Rightarrow> Inl not_found
     | Some c \<Rightarrow>
     (case visible_submitter db live tenant_id (cp_job_id c) of Inl _ \<Rightarrow> Inl not_found
     | Inr _ \<Rightarrow>
     if scan = ScanUnavailable then Inl (storage_unavailable ''Artifact storage is unavailable'')
     else res_bind (spec_of_job db (cp_job_id c)) (\<lambda>owner_spec.
     if \<not> not_corrupt db c \<or> cp_job_id c \<notin> retry_lineage db tenant_id (sp_job_id source_spec) \<or>
        sp_spec_checksum owner_spec \<noteq> sp_spec_checksum source_spec \<or> scan \<noteq> ScanValid checkpoint_id
     then Inl unusable
     else let wanted = insert (cp_manifest_artifact_id c) (checkpoint_files db tenant_id checkpoint_id) in
       if length (filter (\<lambda>ar. ar_tenant_id ar = tenant_id \<and> ar_artifact_id ar \<in> wanted \<and> ar_state ar = AR_COMMITTED)
            (artifacts db)) \<noteq> card wanted
       then Inl unusable else Inr ()))))"

text \<open>The specification of the source job, read again as a submission; \<open>revalidate\<close> is its model
  validation.\<close>

definition retry_failed_job ::
  "services \<Rightarrow> (string \<Rightarrow> submit_spec option) \<Rightarrow> env \<Rightarrow> db \<Rightarrow> Principal \<Rightarrow> control_request \<Rightarrow> uuid option \<Rightarrow>
   retry_scan \<Rightarrow> (stored_response \<times> db) tx" where
  "retry_failed_job sv revalidate env db caller request checkpoint_id scan =
     (let tenant_id = rq_tenant_id request; job_id = rq_job_id request; new_id = ids env 0; now = started env in
     res_bind (authorize sv db caller tenant_id True) (\<lambda>live.
     res_bind (visible_submitter db live tenant_id job_id) (\<lambda>_.
     res_bind (begin_idempotency db (ids env 2) (request_scope tenant_id live ''retryFailedJob'' (rq_idempotency_key request))
       (rq_request_hash request) (now + days (terminal_retention_days env))
       (sv_pending_wait_milliseconds sv)) (\<lambda>(record_id, replay, db1).
     case replay of Some response \<Rightarrow> Inr (response, db1)
     | None \<Rightarrow>
     res_bind (resolve_expected_version (VersionPrecondition (rq_if_match request))) (\<lambda>expected.
     res_bind (admit sv env db1 live tenant_id False) (\<lambda>(tp, global_counter, db2).
     res_bind (one (filter (\<lambda>j. j_tenant_id j = tenant_id \<and> j_job_id j = job_id) (jobs db2))) (\<lambda>source.
     if j_version source \<noteq> expected
     then Inl (ApplicationError ''version_conflict'' 412 ''Job version does not match If-Match'')
     else if j_state source \<noteq> J_FAILED then Inl (state_conflict ''The job cannot be retried in its state'')
     else res_bind (spec_of_job db2 job_id) (\<lambda>source_spec.
     res_bind (case checkpoint_id of None \<Rightarrow> Inr ()
               | Some c \<Rightarrow> lock_retry_checkpoint db2 live tenant_id source_spec c scan) (\<lambda>_.
     case revalidate (sp_canonical_spec source_spec) of
       None \<Rightarrow> Inl (infeasible ''The source job spec cannot be admitted again'')
     | Some spec \<Rightarrow>
     res_bind (create_job sv env db2 live tenant_id new_id (ids env 1)
       (spec\<lparr>js_payload := sp_canonical_spec source_spec, js_checksum := sp_spec_checksum source_spec\<rparr>) tp
       global_counter (Some job_id) ''MANUAL_RETRY'' ''job.retry'' (rq_reason request)) (\<lambda>db3.
     let db4 = (case checkpoint_id of None \<Rightarrow> db3
       | Some c \<Rightarrow> db3\<lparr>checkpoint_references := checkpoint_references db3 @ [\<lparr>cf_tenant_id = tenant_id,
           cf_source_checkpoint_id = c, cf_target_job_id = new_id, cf_reason = ''MANUAL_RETRY'',
           cf_created_at = now\<rparr>]\<rparr>) in
     res_bind (job_view_of db4 tenant_id new_id) (\<lambda>body.
     let response = \<lparr>sr_status = 202, sr_body = Some (Job_body body), sr_headers = [(''ETag'', etag 1)]\<rparr> in
     res_bind (complete_idempotency db4 record_id response (Some new_id) False) (\<lambda>db5.
     Inr (response, db5)))))))))))))"

end
