(* ===== verification/Lifecycle_Fencing.thy ===== *)
theory Lifecycle_Fencing
  imports Lifecycle_Callbacks Coordinator_Service Admin_Workers Job_Control
begin

section \<open>Taking the authority away\<close>

text \<open>
  A failure, an expired lease, a disabled worker and a cancel all end the authority of the attempt that
  holds a job and quarantine its allocation.
\<close>

subsection \<open>From held to quarantined\<close>

definition fenced_rows ::
  "db \<Rightarrow> db \<Rightarrow> uuid \<Rightarrow> attempt_row \<Rightarrow> allocation_row \<Rightarrow> lease_row \<Rightarrow> grant_row \<Rightarrow> (attempt_row \<Rightarrow> attempt_row) \<Rightarrow> bool" where
  "fenced_rows db db1 x a al l g F \<longleftrightarrow>
     attempts db1 = update_where (\<lambda>r. a_attempt_id r = a_attempt_id a) F (attempts db) \<and>
     (\<exists>p f. allocations db1 = update_where p f (allocations db) \<and> (\<forall>r \<in> set (allocations db). p r \<longleftrightarrow> r = al) \<and>
        (\<forall>r. al_allocation_id (f r) = al_allocation_id r \<and> al_job_id (f r) = al_job_id r \<and>
           al_attempt_id (f r) = al_attempt_id r \<and> al_state (f r) = S_QUARANTINED)) \<and>
     (\<exists>p f. attempt_leases db1 = update_where p f (attempt_leases db) \<and> p l \<and>
        (\<forall>r \<in> set (attempt_leases db). p r \<longrightarrow> l_job_id r = x) \<and>
        (\<forall>r. l_lease_id (f r) = l_lease_id r \<and> l_job_id (f r) = l_job_id r \<and> l_attempt_id (f r) = l_attempt_id r \<and>
           l_revoked_at (f r) \<noteq> None)) \<and>
     (\<exists>p f. attempt_authority_grants db1 = update_where p f (attempt_authority_grants db) \<and> p g \<and>
        (\<forall>r \<in> set (attempt_authority_grants db). p r \<longrightarrow> g_job_id r = x) \<and>
        (\<forall>r. g_grant_id (f r) = g_grant_id r \<and> g_job_id (f r) = g_job_id r \<and> g_attempt_id (f r) = g_attempt_id r \<and>
           g_ended_at (f r) \<noteq> None)) \<and>
     jobs db1 = jobs db \<and> events db1 = events db \<and> retry_schedules db1 = retry_schedules db \<and>
     results db1 = results db \<and> admission_counters db1 = admission_counters db"

lemma filter_key_other:
  assumes "\<And>r. r \<in> set t \<Longrightarrow> p r \<Longrightarrow> k r = x" "\<And>r. k (f r) = k r" "y \<noteq> x"
  shows "filter (\<lambda>r. k r = y) (update_where p f t) = filter (\<lambda>r. k r = y) t"
  using assms by (induction t) auto

lemma fenced_update:
  assumes inv: "inv db" and held: "held_by (part db x) a al l g" and upd: "fenced_rows db db1 x a al l g F"
    and F: "keeps_attempt F"
  shows "keys_ok db1" "y \<noteq> x \<Longrightarrow> part db1 y = part db y" "\<exists>al'. quarantined_by (part db1 x) (F a) al'"
    "attempts_ok j (part db x) \<Longrightarrow> j_job_fence j \<le> j_job_fence j' \<Longrightarrow> attempts_ok j' (part db1 x)"
    "length (unreleased (part db1 x)) = length (unreleased (part db x))"
proof -
  obtain pal fal where al: "allocations db1 = update_where pal fal (allocations db)"
      "\<And>r. r \<in> set (allocations db) \<Longrightarrow> pal r \<longleftrightarrow> r = al"
      "\<And>r. al_allocation_id (fal r) = al_allocation_id r" "\<And>r. al_job_id (fal r) = al_job_id r"
      "\<And>r. al_attempt_id (fal r) = al_attempt_id r" "\<And>r. al_state (fal r) = S_QUARANTINED"
    using upd by (auto simp: fenced_rows_def)
  obtain pl fl where l: "attempt_leases db1 = update_where pl fl (attempt_leases db)" "pl l"
      "\<And>r. r \<in> set (attempt_leases db) \<Longrightarrow> pl r \<Longrightarrow> l_job_id r = x"
      "\<And>r. l_lease_id (fl r) = l_lease_id r" "\<And>r. l_job_id (fl r) = l_job_id r"
      "\<And>r. l_attempt_id (fl r) = l_attempt_id r" "\<And>r. l_revoked_at (fl r) \<noteq> None"
    using upd by (auto simp: fenced_rows_def)
  obtain pg fg where g: "attempt_authority_grants db1 = update_where pg fg (attempt_authority_grants db)" "pg g"
      "\<And>r. r \<in> set (attempt_authority_grants db) \<Longrightarrow> pg r \<Longrightarrow> g_job_id r = x"
      "\<And>r. g_grant_id (fg r) = g_grant_id r" "\<And>r. g_job_id (fg r) = g_job_id r"
      "\<And>r. g_attempt_id (fg r) = g_attempt_id r" "\<And>r. g_ended_at (fg r) \<noteq> None"
    using upd by (auto simp: fenced_rows_def)
  have same: "attempts db1 = update_where (\<lambda>r. a_attempt_id r = a_attempt_id a) F (attempts db)"
      "jobs db1 = jobs db" "events db1 = events db" "retry_schedules db1 = retry_schedules db"
      "results db1 = results db"
    using upd by (simp_all add: fenced_rows_def)
  note f = F [unfolded keeps_attempt_def, rule_format] and m = held_by_mem [OF held]
  show "keys_ok db1"
    using inv al(3) l(4) g(4) f unfolding inv_def keys_ok_def same al(1) l(1) g(1) by (simp add: map_update_where)
  show "part db1 y = part db y" if y: "y \<noteq> x"
  proof (rule part_eqI)
    show "p_attempts (part db1 y) = p_attempts (part db y)"
      using held_other(1) [OF inv held y, of F] f by (simp add: same filter_update_where_key)
    show "p_allocations (part db1 y) = p_allocations (part db y)"
      unfolding part_sels al(1) by (rule filter_key_other [where x = x]) (use al(2,4) m(4) y in auto)
    show "p_leases (part db1 y) = p_leases (part db y)"
      unfolding part_sels l(1) by (rule filter_key_other [where x = x]) (use l(3,5) y in auto)
    show "p_grants (part db1 y) = p_grants (part db y)"
      unfolding part_sels g(1) by (rule filter_key_other [where x = x]) (use g(3,5) y in auto)
  qed (simp_all add: same)
  have at: "p_attempts (part db1 x) = update_where (\<lambda>r. a_attempt_id r = a_attempt_id a) F (p_attempts (part db x))"
    using f by (simp add: same filter_update_where_key)
  have pal: "p_allocations (part db1 x) = update_where pal fal (p_allocations (part db x))"
    using al(4) by (simp add: al(1) filter_update_where_key)
  have ple: "p_leases (part db1 x) = update_where pl fl (p_leases (part db x))"
    using l(5) by (simp add: l(1) filter_update_where_key)
  have pgr: "p_grants (part db1 x) = update_where pg fg (p_grants (part db x))"
    using g(5) by (simp add: g(1) filter_update_where_key)
  have "al_state al = S_HELD" using held by (simp add: held_by_def)
  then have "unreleased (part db1 x) = update_where pal fal (unreleased (part db x))"
    unfolding unreleased_def pal by (intro filter_update_keep) (use al(2,6) in \<open>auto simp: part_sels\<close>)
  then have un: "unreleased (part db1 x) = [fal al]" using held al(2) [OF m(3)] by (simp add: held_by_def)
  then show "length (unreleased (part db1 x)) = length (unreleased (part db x))" using held by (simp add: held_by_def)
  have "live_leases (part db1 x) = []"
    unfolding live_leases_def ple
    by (rule filter_update_drop [where r = l]) (use held l(2,7) in \<open>simp_all add: held_by_def live_leases_def\<close>)
  moreover have "live_grants (part db1 x) = []"
    unfolding live_grants_def pgr
    by (rule filter_update_drop [where r = g]) (use held g(2,7) in \<open>simp_all add: held_by_def live_grants_def\<close>)
  moreover have "F a \<in> set (p_attempts (part db1 x))"
    using held unfolding at set_update_where held_by_def by (auto simp del: part_sels)
  ultimately have "quarantined_by (part db1 x) (F a) (fal al)"
    using un held al(5,6) f by (simp add: quarantined_by_def held_by_def del: part_sels)
  then show "\<exists>al'. quarantined_by (part db1 x) (F a) al'" by blast
  show "attempts_ok j' (part db1 x)" if "attempts_ok j (part db x)" "j_job_fence j \<le> j_job_fence j'"
    by (rule attempts_ok_cong [OF that(1)])
      (simp_all only: pal ple pgr at that(2) map_update_where f al(5) l(6) g(6))
qed

lemma fenced_event:
  assumes inv: "inv db" and j: "j \<in> set (jobs db)" and held: "held_by (part db (j_job_id j)) a al l g"
    and upd: "fenced_rows db db1 (j_job_id j) a al l g F" and F: "keeps_attempt F"
    and ch: "\<And>i. j_job_id (ch i) = j_job_id i" "counter_scopes (ch j) = counter_scopes j"
      "j_job_fence j \<le> j_job_fence (ch j)" "j_retry_count (ch j) = j_retry_count j"
      "j_max_retries (ch j) = j_max_retries j"
    and st: "j_state (ch j) \<in> {J_RECOVERING, J_CANCELLING} \<and> j_state j \<noteq> J_SUCCEEDED \<or> j_state (ch j) = J_SUCCEEDED \<and> j_state j = J_SUCCEEDED"
    and cls: "j_state (ch j) = J_RECOVERING \<Longrightarrow> a_failure_class (F a) \<noteq> None"
    and ok: "control_ok (logged j kv ch now)"
    and row: "\<And>p. phase_of p = Quarantined \<Longrightarrow> transition_row (machine_of j (part db (j_job_id j)))
      (machine_of (logged j kv ch now) p)"
  shows "keeps db (record_event db1 j ac now c e r act ar kv ch)"
proof -
  let ?x = "j_job_id j"
  note u = fenced_update [OF inv held upd F]
  obtain al' where q: "quarantined_by (part db1 ?x) (F a) al'" using u(3) by blast
  have same: "jobs db1 = jobs db" "events db1 = events db" "retry_schedules db1 = retry_schedules db"
      "results db1 = results db" "admission_counters db1 = admission_counters db"
    using upd by (simp_all add: fenced_rows_def)
  have "j_state j \<in> {J_DISPATCHING, J_RUNNING, J_PAUSING, J_SUCCEEDED}"
    using phase_held(1) [OF inv j held] by (cases "j_state j") auto
  then have n: "(if j_state (ch j) \<in> terminal_states then 0 else 1) = (if j_state j \<in> terminal_states then 0 else 1) + (0 :: int)"
    and nr: "j_state j \<noteq> J_RETRY_WAIT"
    using st by (auto simp: terminal_states_def)
  have p: "phase_ok (logged j kv ch now) (part db1 ?x)"
    by (rule phase_ok_quarantined [OF q]) (use st cls in auto)
  have r: "retries_ok (logged j kv ch now) (part db1 ?x)"
    using job_inv_parts(4) [OF inv j] same nr st ch unfolding retries_ok_def by auto
  have re: "results_ok (logged j kv ch now) (part db1 ?x)"
    using job_inv_parts(6) [OF inv j] same st unfolding results_ok_def by auto
  show ?thesis
    by (rule event_step [OF inv j same(1,2) u(1,2) ch(1,2) _ n _ u(4) [OF job_inv_parts(1) [OF inv j]] p ok r re
          row [OF phase_of_simps(3) [OF q]], where m = 0])
      (use same u(5) ch in simp_all)
qed

lemma held_targets:
  assumes inv: "inv db" and held: "held_by (part db x) a al l g"
  shows "r \<in> set (allocations db) \<Longrightarrow> al_attempt_id r = a_attempt_id a \<and> al_state r = S_HELD \<longleftrightarrow> r = al"
    "r \<in> set (allocations db) \<Longrightarrow> al_allocation_id r = al_allocation_id al \<longleftrightarrow> r = al"
    "k \<in> set (attempt_leases db) \<Longrightarrow> l_attempt_id k = a_attempt_id a \<Longrightarrow> l_job_id k = x"
    "h \<in> set (attempt_authority_grants db) \<Longrightarrow> g_attempt_id h = a_attempt_id a \<Longrightarrow> g_job_id h = x"
    "k \<in> set (attempt_leases db) \<Longrightarrow> l_lease_id k = l_lease_id l \<longleftrightarrow> k = l"
    "h \<in> set (attempt_authority_grants db) \<Longrightarrow> g_grant_id h = g_grant_id g \<longleftrightarrow> h = g"
    "l_attempt_id l = a_attempt_id a" "l_revoked_at l = None" "g_attempt_id g = a_attempt_id a" "g_ended_at g = None"
    "al_state al = S_HELD"
proof -
  note m = held_by_mem [OF held]
  have keys: "distinct (map al_allocation_id (allocations db))" "distinct (map l_lease_id (attempt_leases db))"
      "distinct (map g_grant_id (attempt_authority_grants db))"
    using inv by (simp_all add: inv_def keys_ok_def)
  have un: "unreleased (part db x) = [al]" "al_state al = S_HELD" "al_attempt_id al = a_attempt_id a"
      "live_leases (part db x) = [l]" "l_attempt_id l = a_attempt_id a" "live_grants (part db x) = [g]"
      "g_attempt_id g = a_attempt_id a"
    using held by (simp_all add: held_by_def)
  have "l \<in> set (live_leases (part db x))" "g \<in> set (live_grants (part db x))" using un(4,6) by simp_all
  then show "l_revoked_at l = None" "g_ended_at g = None" by (simp_all add: live_leases_def live_grants_def)
  show "l_attempt_id l = a_attempt_id a" "g_attempt_id g = a_attempt_id a" "al_state al = S_HELD" by (fact un)+
  show "al_allocation_id r = al_allocation_id al \<longleftrightarrow> r = al" if "r \<in> set (allocations db)"
    using distinct_map_inj [OF keys(1) that m(3)] by blast
  show "l_lease_id k = l_lease_id l \<longleftrightarrow> k = l" if "k \<in> set (attempt_leases db)"
    using distinct_map_inj [OF keys(2) that m(5)] by blast
  show "g_grant_id h = g_grant_id g \<longleftrightarrow> h = g" if "h \<in> set (attempt_authority_grants db)"
    using distinct_map_inj [OF keys(3) that m(7)] by blast
  show "l_job_id k = x" if "k \<in> set (attempt_leases db)" "l_attempt_id k = a_attempt_id a"
    using other_rows(3) [OF inv m(1), of "l_job_id k" k] that m(2) by auto
  show "g_job_id h = x" if "h \<in> set (attempt_authority_grants db)" "g_attempt_id h = a_attempt_id a"
    using other_rows(4) [OF inv m(1), of "g_job_id h" h] that m(2) by auto
  show "al_attempt_id r = a_attempt_id a \<and> al_state r = S_HELD \<longleftrightarrow> r = al" if r: "r \<in> set (allocations db)"
  proof
    assume s: "al_attempt_id r = a_attempt_id a \<and> al_state r = S_HELD"
    then have "al_job_id r = x" using other_rows(2) [OF inv m(1), of "al_job_id r" r] r m(2) by auto
    then have "r \<in> set (unreleased (part db x))" using r s by (simp add: unreleased_def)
    then show "r = al" using un(1) by simp
  qed (use un in simp)
qed

lemma fence_attempt_rows:
  assumes inv: "inv db" and held: "held_by (part db x) a al l g"
  shows "fenced_rows db (fence_attempt db (a_attempt_id a) now s cls fr rr) x a al l g
    (\<lambda>a. a\<lparr>a_state := s, a_failure_class := Some cls, a_failure_reason := Some fr, a_updated_at := now\<rparr>)"
proof -
  note h = held_targets [OF inv held]
  have "\<exists>p f. quarantine (\<lambda>r. al_attempt_id r = a_attempt_id a) now (allocations db) = update_where p f (allocations db) \<and>
      (\<forall>r \<in> set (allocations db). p r \<longleftrightarrow> r = al) \<and>
      (\<forall>r. al_allocation_id (f r) = al_allocation_id r \<and> al_job_id (f r) = al_job_id r \<and>
        al_attempt_id (f r) = al_attempt_id r \<and> al_state (f r) = S_QUARANTINED)"
    unfolding quarantine_def
    by (rule exI [of _ "\<lambda>r. al_attempt_id r = a_attempt_id a \<and> al_state r = S_HELD"],
        rule exI [of _ "\<lambda>r. r\<lparr>al_state := S_QUARANTINED, al_quarantined_at := Some now\<rparr>"]) (use h(1) in simp)
  moreover have "\<exists>p f. revoke_leases (a_attempt_id a) now rr (attempt_leases db) = update_where p f (attempt_leases db) \<and> p l \<and>
      (\<forall>r \<in> set (attempt_leases db). p r \<longrightarrow> l_job_id r = x) \<and>
      (\<forall>r. l_lease_id (f r) = l_lease_id r \<and> l_job_id (f r) = l_job_id r \<and> l_attempt_id (f r) = l_attempt_id r \<and>
        l_revoked_at (f r) \<noteq> None)"
    unfolding revoke_leases_def
    by (rule exI [of _ "\<lambda>l. l_attempt_id l = a_attempt_id a \<and> l_revoked_at l = None"],
        rule exI [of _ "\<lambda>l. l\<lparr>l_revoked_at := Some now, l_revoke_reason := Some rr\<rparr>"]) (use h(3,7,8) in simp)
  moreover have "\<exists>p f. end_grants (a_attempt_id a) now (attempt_authority_grants db) =
        update_where p f (attempt_authority_grants db) \<and> p g \<and>
      (\<forall>r \<in> set (attempt_authority_grants db). p r \<longrightarrow> g_job_id r = x) \<and>
      (\<forall>r. g_grant_id (f r) = g_grant_id r \<and> g_job_id (f r) = g_job_id r \<and> g_attempt_id (f r) = g_attempt_id r \<and>
        g_ended_at (f r) \<noteq> None)"
    unfolding end_grants_def
    by (rule exI [of _ "\<lambda>g. g_attempt_id g = a_attempt_id a \<and> g_ended_at g = None"],
        rule exI [of _ "\<lambda>g. g\<lparr>g_ended_at := Some now\<rparr>"]) (use h(4,9,10) in simp)
  ultimately show ?thesis by (simp add: fenced_rows_def fence_attempt_def)
qed

lemma leftover_rows:
  assumes inv: "inv db" and held: "held_by (part db x) a al l g"
  shows "fenced_rows db (revoke_leftover_authority db (a_attempt_id a) (al_allocation_id al) now rr) x a al l g id"
proof -
  note h = held_targets [OF inv held]
  have "quarantine (\<lambda>r. al_allocation_id r = al_allocation_id al) now (allocations db) =
      quarantine (\<lambda>r. al_attempt_id r = a_attempt_id a) now (allocations db)"
    unfolding quarantine_def update_where_def by (rule map_cong [OF refl]) (use h(1,2,11) in auto)
  then show ?thesis
    using fence_attempt_rows [OF inv held, of now undefined undefined undefined rr]
    by (simp add: fenced_rows_def fence_attempt_def revoke_leftover_authority_def)
qed

lemma live_lease_job:
  assumes inv: "inv db" and l: "l \<in> set (attempt_leases db)" "l_revoked_at l = None"
    and j: "j \<in> set (jobs db)" "j_job_id j = l_job_id l"
    and a: "a \<in> set (attempts db)" "a_attempt_id a = l_attempt_id l"
  obtains al g where "held_by (part db (j_job_id j)) a al l g" "a_job_fence a = j_job_fence j"
    "l_allocation_id l = al_allocation_id al"
proof -
  have "l \<in> set (live_leases (part db (j_job_id j)))" using l j by (simp add: live_leases_def)
  then obtain a' al g where h: "held_by (part db (j_job_id j)) a' al l g" "a_job_fence a' = j_job_fence j"
    using live_lease_held [OF job_inv_parts(2) [OF inv j(1)]] by blast
  have "distinct (map a_attempt_id (attempts db))" using inv by (simp add: inv_def keys_ok_def)
  then have "a' = a" by (rule distinct_map_inj) (use held_by_mem(1) [OF h(1)] h(1) a in \<open>simp_all add: held_by_def\<close>)
  then show thesis using that [of al g] h by (simp add: held_by_def)
qed

lemma fault_keeps:
  assumes inv: "inv db" and j: "j \<in> set (jobs db)" and held: "held_by (part db (j_job_id j)) a al l g"
    and upd: "fenced_rows db db1 (j_job_id j) a al l g F" and F: "keeps_attempt F" "a_failure_class (F a) \<noteq> None"
    and st: "j_state j \<in> {J_DISPATCHING, J_RUNNING, J_PAUSING}"
  shows "keeps db (record_event db1 j ac now c e r act ar False (\<lambda>i. i\<lparr>j_state := J_RECOVERING, j_job_fence := j_job_fence j + 1\<rparr>))"
proof -
  let ?ch = "\<lambda>i. i\<lparr>j_state := J_RECOVERING, j_job_fence := j_job_fence j + 1\<rparr>"
  have "control_ok j" by (rule job_inv_parts(3) [OF inv j])
  then have "control_ok (logged j False ?ch now)"
    using st unfolding control_ok_def terminal_states_def logged_simps by (cases "j_state j") simp_all
  moreover have "transition_row (machine_of j (part db (j_job_id j))) (machine_of (logged j False ?ch now) p)"
    if "phase_of p = Quarantined" for p
    using transition_row.fault [of "machine_of j (part db (j_job_id j))"] st phase_of_simps(2) [OF held] that
    by (simp add: machine_of_def tick_def)
  ultimately show ?thesis
    by (intro fenced_event [OF inv j held upd F(1)]) (use F(2) st in \<open>auto simp: counter_scopes_def\<close>)
qed

lemma revoke_keeps:
  assumes inv: "inv db" and j: "j \<in> set (jobs db)" and held: "held_by (part db (j_job_id j)) a al l g"
    and upd: "fenced_rows db db1 (j_job_id j) a al l g id" and st: "j_state j = J_SUCCEEDED"
  shows "keeps db (record_event db1 j ac now c e r act ar True id)"
proof -
  have "control_ok j" by (rule job_inv_parts(3) [OF inv j])
  moreover have "transition_row (machine_of j (part db (j_job_id j))) (machine_of (logged j True id now) p)"
    if "phase_of p = Quarantined" for p
    using transition_row.revoke [of "machine_of j (part db (j_job_id j))"] st phase_of_simps(2) [OF held] that
    by (simp add: machine_of_def)
  ultimately show ?thesis
    by (intro fenced_event [OF inv j held upd]) (use st in \<open>simp_all add: keeps_attempt_def\<close>)
qed

subsection \<open>Failure reports\<close>

lemma check_observation_core:
  assumes "check_observation db t aid request now = Inr db'"
  shows "same_core db db'"
proof -
  obtain ct where ct: "container_of db aid = Inr ct" using assms by (auto simp: check_observation_def res_bind_Inr_iff)
  show ?thesis
  proof (cases "fq_observation request")
    case (NoContainerObservation pf)
    then have "db' = db" using assms ct by (auto simp: check_observation_def split: if_splits)
    then show ?thesis by simp
  next
    case (ContainerObservation ref observed oom limit)
    let ?db1 = "if ct = None \<and> a_state (at_attempt t) = A_CLAIMED \<and> a_started_at (at_attempt t) = None \<and>
        j_state (at_job t) = J_DISPATCHING \<and> a_created_at (at_attempt t) \<le> observed \<and> observed \<le> now + seconds 5
      then bind_container db t aid ref observed else db"
    have core: "same_core db ?db1" by (simp add: bind_container_def same_core_def)
    obtain c where c: "container_of ?db1 aid = Inr c"
      using assms ct ContainerObservation by (auto simp: check_observation_def res_bind_Inr_iff Let_def)
    have "db' = ?db1"
    proof (cases c)
      case None
      then show ?thesis using assms ct c ContainerObservation by (simp add: check_observation_def Let_def)
    next
      case (Some k)
      then show ?thesis
        using assms ct c ContainerObservation unfolding check_observation_def Let_def
        by (simp only: res_bind_simps observation.case option.case split: if_split_asm) simp_all
    qed
    then show ?thesis using core by simp
  qed
qed

lemma fail_rows:
  assumes inv: "inv db" and held: "held_by (part db x) a al l g"
    and db1: "db1 = db\<lparr>attempts := update_where (\<lambda>r. a_attempt_id r = a_attempt_id a) F (attempts db),
      attempt_leases := update_where (\<lambda>r. l_lease_id r = l_lease_id l) (\<lambda>l. l\<lparr>l_revoked_at := Some now\<rparr>) (attempt_leases db),
      attempt_authority_grants := update_where (\<lambda>r. g_grant_id r = g_grant_id g) (\<lambda>g. g\<lparr>g_ended_at := Some now\<rparr>)
        (attempt_authority_grants db),
      allocations := update_where (\<lambda>r. al_allocation_id r = al_allocation_id al)
        (\<lambda>al. al\<lparr>al_state := S_QUARANTINED, al_quarantined_at := Some now\<rparr>) (allocations db),
      result_reservations := rs, checkpoint_reservations := cs\<rparr>"
  shows "fenced_rows db db1 x a al l g F"
proof -
  note h = held_targets [OF inv held] and m = held_by_mem [OF held]
  have "\<exists>p f. allocations db1 = update_where p f (allocations db) \<and> (\<forall>r \<in> set (allocations db). p r \<longleftrightarrow> r = al) \<and>
      (\<forall>r. al_allocation_id (f r) = al_allocation_id r \<and> al_job_id (f r) = al_job_id r \<and>
        al_attempt_id (f r) = al_attempt_id r \<and> al_state (f r) = S_QUARANTINED)"
    by (rule exI [of _ "\<lambda>r. al_allocation_id r = al_allocation_id al"],
        rule exI [of _ "\<lambda>r. r\<lparr>al_state := S_QUARANTINED, al_quarantined_at := Some now\<rparr>"]) (use h(2) in \<open>simp add: db1\<close>)
  moreover have "\<exists>p f. attempt_leases db1 = update_where p f (attempt_leases db) \<and> p l \<and>
      (\<forall>r \<in> set (attempt_leases db). p r \<longrightarrow> l_job_id r = x) \<and>
      (\<forall>r. l_lease_id (f r) = l_lease_id r \<and> l_job_id (f r) = l_job_id r \<and> l_attempt_id (f r) = l_attempt_id r \<and>
        l_revoked_at (f r) \<noteq> None)"
    by (rule exI [of _ "\<lambda>r. l_lease_id r = l_lease_id l"], rule exI [of _ "\<lambda>l. l\<lparr>l_revoked_at := Some now\<rparr>"])
      (use h(5) m(6) in \<open>simp add: db1\<close>)
  moreover have "\<exists>p f. attempt_authority_grants db1 = update_where p f (attempt_authority_grants db) \<and> p g \<and>
      (\<forall>r \<in> set (attempt_authority_grants db). p r \<longrightarrow> g_job_id r = x) \<and>
      (\<forall>r. g_grant_id (f r) = g_grant_id r \<and> g_job_id (f r) = g_job_id r \<and> g_attempt_id (f r) = g_attempt_id r \<and>
        g_ended_at (f r) \<noteq> None)"
    by (rule exI [of _ "\<lambda>r. g_grant_id r = g_grant_id g"], rule exI [of _ "\<lambda>g. g\<lparr>g_ended_at := Some now\<rparr>"])
      (use h(6) m(8) in \<open>simp add: db1\<close>)
  ultimately show ?thesis by (simp add: fenced_rows_def) (simp add: db1)
qed

lemma fail_effect_keeps:
  assumes core: "same_core db0 db" and inv: "inv db0" and rows: "authority_rows db0 au w = Inr t"
    and id: "au_attempt_id au = aid" and guard: "fail_guard t request now = Inr ()"
  shows "keeps db (snd (fail_effect db t wid aid request now))"
proof -
  note a = authority_held [OF inv rows]
  have inv1: "inv db" using same_core_inv [OF core] inv by simp
  have j: "at_job t \<in> set (jobs db)" using a(1) core by (simp add: same_core_def)
  have held: "held_by (part db (j_job_id (at_job t))) (at_attempt t) (at_allocation t) (at_lease t) (at_grant t)"
    using a(5) same_core_part [OF core] by simp
  let ?F = "\<lambda>a. a\<lparr>a_state := A_STOPPING, a_failure_class := Some (fq_failure_class request),
      a_failure_reason := Some (fq_reason_code request), a_updated_at := now\<rparr>"
  have st: "j_state (at_job t) \<in> {J_DISPATCHING, J_RUNNING, J_PAUSING}"
    using guard by (auto simp: fail_guard_def split: if_splits)
  have aid: "aid = a_attempt_id (at_attempt t)" using a(4) id by simp
  show ?thesis
    unfolding fail_effect_def worker_event_def snd_conv aid
    by (intro fault_keeps [OF inv1 j held fail_rows [OF inv1 held refl] _ _ st])
      (simp_all add: keeps_attempt_def)
qed

lemma fail_attempt_keeps:
  assumes "fail_attempt env db w cred aid cb h request = Inr (r, db')"
  shows "keeps db db'"
proof -
  obtain receipt replay db1 where b: "begin_callback db (ids env 0) w ''workerFailAttempt'' cb h = Inr (receipt, replay, db1)"
    using assms by (auto simp: fail_attempt_def res_bind_Inr_iff)
  note core = keeps_core [OF begin_callback_core [OF b]]
  have id: "au_attempt_id (fq_authority request) = aid"
    using assms b by (auto simp: fail_attempt_def res_bind_Inr_iff split: if_splits)
  show ?thesis
  proof (cases replay)
    case (Some a)
    then have "db' = db1" using assms b by (auto simp: fail_attempt_def res_bind_Inr_iff split: if_splits)
    then show ?thesis using core by simp
  next
    case None
    then obtain t db2 where t: "authority_rows db1 (fq_authority request) w = Inr t"
        "fail_guard t request (clk env 1) = Inr ()" "check_observation db1 t aid request (clk env 1) = Inr db2"
        "complete_callback (snd (fail_effect db2 t w aid request (clk env 1))) (the receipt) r = Inr db'"
      using assms b by (auto simp: fail_attempt_def res_bind_Inr_iff Let_def case_prod_beta split: if_splits)
    note obs = check_observation_core [OF t(3)]
    have "keeps db1 (snd (fail_effect db2 t w aid request (clk env 1)))"
    proof (rule keepsI)
      assume inv: "inv db1"
      show "keeps db1 (snd (fail_effect db2 t w aid request (clk env 1)))"
        using fail_effect_keeps [OF obs inv t(1) id t(2)] keeps_core [OF obs] keeps_trans by blast
    qed
    then show ?thesis using core keeps_core [OF complete_callback_core [OF t(4)]] keeps_trans by blast
  qed
qed

subsection \<open>Expired leases and disabled workers\<close>

lemma live_lease_states:
  assumes "inv db" "j \<in> set (jobs db)" "held_by (part db (j_job_id j)) a al l g"
  shows "j_state j \<in> {J_DISPATCHING, J_RUNNING, J_PAUSING} \<or> j_state j = J_SUCCEEDED"
  using phase_held(1) [OF assms] by (cases "j_state j") auto

text \<open>The two ways a live lease ends without its worker, shared by the reaper and by disabling.\<close>

lemma lease_ended_keeps:
  assumes inv: "inv db" and l: "l \<in> set (attempt_leases db)" "l_revoked_at l = None"
    and j: "j \<in> set (jobs db)" "j_job_id j = l_job_id l" and a: "a \<in> set (attempts db)" "a_attempt_id a = l_attempt_id l"
  shows "j_state j \<in> {J_DISPATCHING, J_RUNNING, J_PAUSING} \<and> a_job_fence a = j_job_fence j \<Longrightarrow>
      keeps db (record_event (fence_attempt db (a_attempt_id a) now s cls fr rr) j ac now c e r act ar False
        (\<lambda>i. i\<lparr>j_state := J_RECOVERING, j_job_fence := j_job_fence j + 1\<rparr>))"
    "\<not> (j_state j \<in> {J_DISPATCHING, J_RUNNING, J_PAUSING} \<and> a_job_fence a = j_job_fence j) \<Longrightarrow>
      keeps db (record_event (revoke_leftover_authority db (a_attempt_id a) (l_allocation_id l) now rr) j ac now c e r act ar
        True id)"
proof -
  obtain al g where h: "held_by (part db (j_job_id j)) a al l g" "a_job_fence a = j_job_fence j"
      "l_allocation_id l = al_allocation_id al"
    using live_lease_job [OF inv l j a] by blast
  show "keeps db (record_event (fence_attempt db (a_attempt_id a) now s cls fr rr) j ac now c e r act ar False
        (\<lambda>i. i\<lparr>j_state := J_RECOVERING, j_job_fence := j_job_fence j + 1\<rparr>))"
    if "j_state j \<in> {J_DISPATCHING, J_RUNNING, J_PAUSING} \<and> a_job_fence a = j_job_fence j"
    by (rule fault_keeps [OF inv j(1) h(1) fence_attempt_rows [OF inv h(1)] _ _ conjunct1 [OF that]])
      (simp_all add: keeps_attempt_def)
  show "keeps db (record_event (revoke_leftover_authority db (a_attempt_id a) (l_allocation_id l) now rr) j ac now c e r act ar
        True id)"
    if "\<not> (j_state j \<in> {J_DISPATCHING, J_RUNNING, J_PAUSING} \<and> a_job_fence a = j_job_fence j)"
    unfolding h(3)
    by (rule revoke_keeps [OF inv j(1) h(1) leftover_rows [OF inv h(1)]])
      (use that h(2) live_lease_states [OF inv j(1) h(1)] in blast)
qed

lemma reap_lease_locked_keeps:
  assumes "reap_lease_locked db lid holder now_fn = Inr (b, db')"
  shows "keeps db db'"
proof (rule keepsI)
  assume inv: "inv db"
  obtain ref where ref: "one_or_none (filter (\<lambda>l. l_lease_id l = lid) (attempt_leases db)) = Inr ref"
    using assms by (auto simp: reap_lease_locked_def res_bind_Inr_iff)
  show "keeps db db'"
  proof (cases ref)
    case None
    then show ?thesis using assms ref by (auto simp: reap_lease_locked_def intro: keeps_core)
  next
    case (Some l)
    obtain j a now where r: "filter (\<lambda>j. j_job_id j = l_job_id l) (jobs db) = [j]"
        "filter (\<lambda>a. a_attempt_id a = l_attempt_id l) (attempts db) = [a]" "now_fn = Inr now"
      using assms ref Some by (auto simp: reap_lease_locked_def res_bind_Inr_iff one_Inr)
    have m: "l \<in> set (attempt_leases db)" "j \<in> set (jobs db)" "j_job_id j = l_job_id l" "a \<in> set (attempts db)"
        "a_attempt_id a = l_attempt_id l"
      using ref Some filter_singleton [of _ "attempt_leases db" l] filter_singleton [OF r(1)] filter_singleton [OF r(2)]
      by (auto simp: one_or_none_Inr)
    show ?thesis
    proof (cases "l_revoked_at l \<noteq> None \<or> l_expires_at l > now")
      case True
      then show ?thesis using assms ref Some r by (auto simp: reap_lease_locked_def one_def intro: keeps_core)
    next
      case live: False
      then have rev: "l_revoked_at l = None" by simp
      note k = lease_ended_keeps [OF inv m(1) rev m(2-5)]
      show ?thesis
      proof (cases "j_state j \<in> {J_DISPATCHING, J_RUNNING, J_PAUSING} \<and> a_job_fence a = j_job_fence j")
        case True
        then have "db' = coordinator_event (fence_attempt db (a_attempt_id a) now A_LOST INFRASTRUCTURE ''LEASE_EXPIRED''
            ''LEASE_EXPIRED'') (Some j) now holder ''ATTEMPT_LOST'' (Some ''LEASE_EXPIRED'') False
            (\<lambda>i. i\<lparr>j_state := J_RECOVERING, j_job_fence := j_job_fence j + 1\<rparr>)"
          using assms ref Some r live by (simp add: reap_lease_locked_def one_def reaped_states_def)
        then show ?thesis using k(1) [OF True] by (simp add: coordinator_event_def)
      next
        case False
        then have "db' = coordinator_event (revoke_leftover_authority db (a_attempt_id a) (l_allocation_id l) now
            ''LEASE_EXPIRED'') (Some j) now holder ''LEASE_REVOKED'' (Some ''LEASE_EXPIRED'') True id"
          using assms ref Some r live by (auto simp: reap_lease_locked_def one_def reaped_states_def split: if_splits)
        then show ?thesis using k(2) [OF False] by (simp add: coordinator_event_def)
      qed
    qed
  qed
qed

lemma reap_lease_keeps:
  assumes "reap_lease co env db lid = Inr (b, db')"
  shows "keeps db db'"
proof (cases "frozen db")
  case True
  then show ?thesis using assms by (auto simp: reap_lease_def res_bind_Inr_iff intro: keeps_core)
next
  case False
  then have "reap_lease_locked db lid (co_holder_id co) (check_leader co env 1) = Inr (b, db')"
    using assms by (auto simp: reap_lease_def res_bind_Inr_iff)
  then show ?thesis by (rule reap_lease_locked_keeps)
qed

definition lease_keys :: "db \<Rightarrow> (uuid \<times> uuid) list" where
  "lease_keys db = map (\<lambda>l. (l_job_id l, l_lease_id l)) (attempt_leases db)"

lemma fence_lease_keys: "fence_lease now actor db probe = Inr db' \<Longrightarrow> lease_keys db' = lease_keys db"
  by (auto simp: fence_lease_def lease_keys_def res_bind_Inr_iff admin_job_event_def fence_attempt_def
      revoke_leftover_authority_def revoke_leases_def map_update_where split: prod.splits if_splits)

lemma fence_lease_keeps:
  assumes "fence_lease now actor db (jid, lid) = Inr db'" "(jid, lid) \<in> set (lease_keys db)"
  shows "keeps db db'"
proof (rule keepsI)
  assume inv: "inv db"
  obtain j l a where r: "filter (\<lambda>j. j_job_id j = jid) (jobs db) = [j]"
      "filter (\<lambda>l. l_lease_id l = lid) (attempt_leases db) = [l]"
      "filter (\<lambda>a. a_attempt_id a = l_attempt_id l) (attempts db) = [a]"
    using assms(1) by (auto simp: fence_lease_def res_bind_Inr_iff one_Inr)
  have m: "l \<in> set (attempt_leases db)" "j \<in> set (jobs db)" "j_job_id j = jid" "a \<in> set (attempts db)"
      "a_attempt_id a = l_attempt_id l" "l_lease_id l = lid"
    using filter_singleton [OF r(1)] filter_singleton [OF r(2)] filter_singleton [OF r(3)] by simp_all
  have "l_job_id l = jid" using assms(2) filter_singleton_mem [OF r(2)] by (auto simp: lease_keys_def)
  then have jl: "j_job_id j = l_job_id l" using m(3) by simp
  show "keeps db db'"
  proof (cases "l_revoked_at l = None")
    case False
    then have "db' = db" using assms(1) r by (simp add: fence_lease_def one_def)
    then show ?thesis by (simp add: keeps_core)
  next
    case rev: True
    note k = lease_ended_keeps [OF inv m(1) rev m(2) jl m(4,5)]
    show ?thesis
    proof (cases "j_state j \<in> {J_DISPATCHING, J_RUNNING, J_PAUSING} \<and> a_job_fence a = j_job_fence j")
      case True
      then have "db' = admin_job_event (fence_attempt db (a_attempt_id a) now A_STOPPING INFRASTRUCTURE
           ''WORKER_DISABLED'' ''WORKER_DISABLED'') j now actor ''ATTEMPT_FENCED'' False
           (\<lambda>i. i\<lparr>j_state := J_RECOVERING, j_job_fence := j_job_fence j + 1\<rparr>)"
        using assms(1) r rev by (simp add: fence_lease_def one_def)
      then show ?thesis using k(1) [OF True] by (simp add: admin_job_event_def)
    next
      case False
      then have "db' = admin_job_event (revoke_leftover_authority db (a_attempt_id a) (l_allocation_id l) now
           ''WORKER_DISABLED'') j now actor ''LEASE_REVOKED'' True id"
        using assms(1) r rev by (auto simp: fence_lease_def one_def split: if_splits)
      then show ?thesis using k(2) [OF False] by (simp add: admin_job_event_def)
    qed
  qed
qed

lemma fold_fence_keeps:
  "fold_result (fence_lease now actor) db probes = Inr db' \<Longrightarrow> set probes \<subseteq> set (lease_keys db) \<Longrightarrow> keeps db db'"
proof (induction probes arbitrary: db)
  case (Cons p ps)
  then obtain db1 where d: "fence_lease now actor db p = Inr db1" "fold_result (fence_lease now actor) db1 ps = Inr db'"
    by (auto split: sum.splits)
  have "keeps db db1" using fence_lease_keeps [of now actor db "fst p" "snd p"] d(1) Cons.prems(2) by simp
  moreover have "keeps db1 db'" using Cons.IH [OF d(2)] Cons.prems(2) fence_lease_keys [OF d(1)] by simp
  ultimately show ?case by (rule keeps_trans)
qed (simp add: keeps_core)

lemma worker_leases_keys: "set (worker_leases db w) \<subseteq> set (lease_keys db)"
  by (auto simp: worker_leases_def lease_keys_def)

lemma begin_idempotency_core: "begin_idempotency db i sc h ex wait = Inr (rid, rep, db1) \<Longrightarrow> same_core db db1"
  by (auto simp: begin_idempotency_def same_core_def res_simps split: if_splits option.splits)

lemma complete_idempotency_core: "complete_idempotency db rid resp res ots = Inr db1 \<Longrightarrow> same_core db db1"
  by (auto simp: complete_idempotency_def same_core_def Let_def split: if_splits)

lemma mutate_worker_keeps:
  assumes "mutate_worker sv env db caller request op act status change = Inr (r, db')"
    and change: "\<And>db1 w now live v db2. change db1 w now live = Inr (v, db2) \<Longrightarrow> keeps db1 db2"
  shows "keeps db db'"
proof -
  obtain live rid replay db1 where b: "admin_authorize sv db caller True = Inr live"
      "begin_idempotency db (ids env 0) (request_scope ''GLOBAL'' live op (wq_idempotency_key request))
       (wq_request_hash request) (started env + days 30) (sv_pending_wait_milliseconds sv) = Inr (rid, replay, db1)"
    using assms(1) by (auto simp: mutate_worker_def res_bind_Inr_iff Let_def)
  note core = keeps_core [OF begin_idempotency_core [OF b(2)]]
  show ?thesis
  proof (cases replay)
    case (Some a)
    then have "db' = db1" using assms(1) b by (auto simp: mutate_worker_def Let_def)
    then show ?thesis using core by simp
  next
    case None
    obtain expected worker where w: "resolve_expected_version (wq_expected_version request) = Inr expected"
        "ensure_mutable db1 = Inr ()" "worker_of db1 (wq_worker_id request) = Inr worker" "w_version worker = expected"
      using assms(1) b None by (auto simp: mutate_worker_def res_bind_Inr_iff Let_def split: if_splits)
    obtain v db2 where c1: "change db1 worker (clk env 0) live = Inr (v, db2)"
      using assms(1) b None w by (auto simp: mutate_worker_def res_bind_Inr_iff Let_def)
    let ?db3 = "db2\<lparr>workers := update_where (\<lambda>w. w_worker_id w = wq_worker_id request)
        (\<lambda>w. (v w)\<lparr>w_version := w_version worker + 1\<rparr>) (workers db2)\<rparr>"
    obtain updated where u: "one (filter (\<lambda>w. w_worker_id w = wq_worker_id request) (workers ?db3)) = Inr updated"
      using assms(1) b None w c1 by (auto simp: mutate_worker_def res_bind_Inr_iff Let_def)
    let ?db4 = "admin_audit ?db3 live act (wq_worker_id request) (wq_reason request) (w_version worker)
        (w_version updated) (started env)"
    have "res_bind (inventory_view ?db4 updated) (\<lambda>inventory.
       let response = \<lparr>sr_status = status, sr_body = Some (Worker_body updated inventory),
             sr_headers = [(''ETag'', etag (w_version updated))]\<rparr> in
       res_bind (complete_idempotency ?db4 rid response (Some (wq_worker_id request)) False)
         (\<lambda>db5. Inr (response, db5))) = Inr (r, db')"
      using assms(1) b None w c1 u by (simp add: mutate_worker_def Let_def)
    then have c: "complete_idempotency ?db4 rid r (Some (wq_worker_id request)) False = Inr db'"
      by (auto simp: res_bind_Inr_iff Let_def)
    have "same_core db2 ?db4" by (simp add: same_core_def admin_audit_def)
    then have "keeps db2 db'" using complete_idempotency_core [OF c] same_core_trans keeps_core by blast
    then show ?thesis using core change [OF c1] keeps_trans by blast
  qed
qed

lemma drain_worker_keeps: "drain_worker sv env db caller request = Inr (r, db') \<Longrightarrow> keeps db db'"
  unfolding drain_worker_def by (erule mutate_worker_keeps) (auto split: if_splits intro: keeps_core)

lemma enable_worker_keeps: "enable_worker ready sv env db caller request = Inr (r, db') \<Longrightarrow> keeps db db'"
  unfolding enable_worker_def by (erule mutate_worker_keeps) (auto simp: res_bind_Inr_iff split: if_splits intro: keeps_core)

lemma disable_worker_keeps: "disable_worker sv env db caller request = Inr (r, db') \<Longrightarrow> keeps db db'"
  unfolding disable_worker_def
  by (erule mutate_worker_keeps)
    (auto simp: res_bind_Inr_iff fence_worker_attempts_def split: if_splits dest!: fold_fence_keeps [OF _ worker_leases_keys])

end
