(* ===== verification/Lifecycle_Control.thy ===== *)
theory Lifecycle_Control
  imports Lifecycle_Fencing
begin

section \<open>User requests in the life of a job\<close>

text \<open>
  Cancel, pause and resume move a job along the documented table; submission and manual retry create a
  job in the initial state and count it in its three scopes.
\<close>

subsection \<open>The control pipeline\<close>

lemma visible_submitter_Inr:
  assumes "visible_submitter db live tid jid = Inr s"
  obtains j where "filter (\<lambda>j. j_tenant_id j = tid \<and> j_job_id j = jid) (jobs db) = [j]" "j_submitter_user_id j = s"
proof -
  obtain row where row: "one_or_none (filter (\<lambda>j. j_tenant_id j = tid \<and> j_job_id j = jid) (jobs db)) = Inr row"
    using assms by (auto simp: visible_submitter_def res_bind_Inr_iff split: sum.splits)
  then obtain j where "row = Some j" "j_submitter_user_id j = s"
    using assms by (cases row) (auto simp: visible_submitter_def Let_def split: sum.splits if_splits)
  then show thesis using that [of j] row by (simp add: one_or_none_Inr)
qed

lemma control_rows_Inr:
  assumes "control_rows env db request live submitter = Inr ctx"
    and "filter (\<lambda>j. j_tenant_id j = rq_tenant_id request \<and> j_job_id j = rq_job_id request) (jobs db) = [j]"
      "j_submitter_user_id j = submitter"
  shows "cc_job ctx \<in> set (jobs db)" "lock_counters db (counter_scopes (cc_job ctx)) = Inr (cc_counters ctx)"
proof -
  obtain ks where "control_counters db (rq_tenant_id request) submitter = Inr ks" "cc_counters ctx = ks" "cc_job ctx = j"
    using assms by (auto simp: control_rows_def res_bind_Inr_iff one_def split: if_splits)
  moreover have "j \<in> set (jobs db)" "j_tenant_id j = rq_tenant_id request" using filter_singleton [OF assms(2)] by simp_all
  ultimately show "cc_job ctx \<in> set (jobs db)" "lock_counters db (counter_scopes (cc_job ctx)) = Inr (cc_counters ctx)"
    using assms(3) by (simp_all add: control_counters_def counter_scopes_def)
qed

lemma control_keeps:
  assumes "control sv env db caller request op act change = Inr (r, db')"
    and change: "\<And>db1 ctx st reason. inv db1 \<Longrightarrow> cc_job ctx \<in> set (jobs db1) \<Longrightarrow>
      lock_counters db1 (counter_scopes (cc_job ctx)) = Inr (cc_counters ctx) \<Longrightarrow> change db1 ctx = Inr st \<Longrightarrow>
      keeps db1 (control_event (st_db st) ctx act (st_event st) (st_event_reason st) reason (st_changes st))"
  shows "keeps db db'"
proof (rule keepsI)
  assume inv: "inv db"
  obtain live submitter where a: "authorize sv db caller (rq_tenant_id request) True = Inr live"
      "visible_submitter db live (rq_tenant_id request) (rq_job_id request) = Inr submitter"
    using assms(1) by (auto simp: control_def res_bind_Inr_iff Let_def)
  obtain rid replay db1 where b: "begin_idempotency db (ids env 0)
       (request_scope (rq_tenant_id request) live op (rq_idempotency_key request))
       (rq_request_hash request) (started env + days (terminal_retention_days env))
       (sv_pending_wait_milliseconds sv) = Inr (rid, replay, db1)"
    using assms(1) a by (auto simp: control_def res_bind_Inr_iff Let_def)
  note core = begin_idempotency_core [OF b]
  show "keeps db db'"
  proof (cases replay)
    case (Some x)
    then have "db' = db1" using assms(1) a b by (simp add: control_def Let_def)
    then show ?thesis using keeps_core [OF core] by simp
  next
    case None
    obtain ctx where ctx: "control_rows env db1 request live submitter = Inr ctx"
      using assms(1) a b None by (auto simp: control_def res_bind_Inr_iff Let_def)
    obtain st where st: "change db1 ctx = Inr st"
      using assms(1) a b None ctx by (auto simp: control_def res_bind_Inr_iff Let_def)
    let ?db2 = "control_event (st_db st) ctx act (st_event st) (st_event_reason st) (rq_reason request) (st_changes st)"
    obtain body where body: "job_view_of ?db2 (rq_tenant_id request) (rq_job_id request) = Inr body"
      using assms(1) a b None ctx st by (auto simp: control_def res_bind_Inr_iff Let_def)
    obtain db3 where db3: "complete_idempotency ?db2 rid \<lparr>sr_status = 202, sr_body = Some (Job_body body),
          sr_headers = [(''ETag'', etag (v_version body))]\<rparr> (Some (rq_job_id request)) False = Inr db3"
        "db' = (if st_terminal st
          then extend_retention db3 (rq_job_id request) (cc_now ctx) (terminal_retention_days env) else db3)"
      using assms(1) a b None ctx st body by (auto simp: control_def res_bind_Inr_iff Let_def)
    obtain j where j: "filter (\<lambda>j. j_tenant_id j = rq_tenant_id request \<and> j_job_id j = rq_job_id request) (jobs db) = [j]"
        "j_submitter_user_id j = submitter"
      using visible_submitter_Inr [OF a(2)] by blast
    have "filter (\<lambda>j. j_tenant_id j = rq_tenant_id request \<and> j_job_id j = rq_job_id request) (jobs db1) = [j]"
      using j(1) core by (simp add: same_core_def)
    note rows = control_rows_Inr [OF ctx this j(2)]
    have "inv db1" using inv same_core_inv [OF core] by simp
    then have "keeps db1 ?db2" by (rule change [OF _ rows st])
    moreover have "same_core ?db2 db'"
      using complete_idempotency_core [OF db3(1)] extend_retention_core same_core_trans unfolding db3(2) by auto
    ultimately show ?thesis using keeps_core [OF core] keeps_core keeps_trans by blast
  qed
qed

subsection \<open>Pause and resume\<close>

lemma pause_job_keeps:
  assumes "pause_job sv env db caller request = Inr (r, db')"
  shows "keeps db db'"
proof (rule control_keeps [OF assms [unfolded pause_job_def]])
  fix db1 :: db and ctx :: control_context and st :: staged and reason
  let ?j = "cc_job ctx" and ?ch = "\<lambda>j. j\<lparr>j_state := J_PAUSING, j_desired_state := D_PAUSED\<rparr>"
  assume inv: "inv db1" and j: "?j \<in> set (jobs db1)" and ch: "pause_change db1 ctx = Inr st"
  have st: "j_state ?j = J_RUNNING" "j_desired_state ?j = D_RUNNING" "st_db st = db1" "st_changes st = ?ch"
    using ch by (auto simp: pause_change_def res_bind_Inr_iff Let_def split: if_splits prod.splits)
  have ctl: "control_ok ?j" and "phase_ok ?j (part db1 (j_job_id ?j))" using job_inv_parts [OF inv j] by simp_all
  then obtain a al l g where held: "held_by (part db1 (j_job_id ?j)) a al l g" "a_state a \<in> {A_RUNNING, A_CHECKPOINTING}"
    using st by (auto simp: phase_ok_def held_in_def)
  have upd: "held_rows_updated db1 db1 a id l id" by (simp add: held_rows_updated_def)
  have intent: "j_recovery_intent ?j = None" using ctl st by (simp add: control_ok_def)
  have "transition_row (machine_of ?j (part db1 (j_job_id ?j)))
      (machine_of (logged ?j False ?ch (cc_now ctx)) (part db1 (j_job_id ?j)))"
    using transition_row.pause [of "machine_of ?j (part db1 (j_job_id ?j))"] st by (simp add: machine_of_def tick_def)
  moreover have "control_ok (logged ?j False ?ch (cc_now ctx))"
    using ctl st intent by (auto simp: control_ok_def terminal_states_def)
  moreover have "results_ok (logged ?j False ?ch (cc_now ctx)) (part db1 (j_job_id ?j))"
    using job_inv_parts(6) [OF inv j] st by (simp add: results_ok_def)
  ultimately show "keeps db1 (control_event (st_db st) ctx ''job.pause'' (st_event st) (st_event_reason st) reason
      (st_changes st))"
    unfolding control_event_def st(3,4)
    by (intro held_event [OF inv j held(1) upd, where n = 0])
      (use held(2) st in \<open>auto simp: keeps_attempt_def keeps_lease_def counter_scopes_def terminal_states_def\<close>)
qed

text \<open>An event of a job that holds nothing; its own statements may close retries and move counters.\<close>

lemma idle_event:
  assumes inv: "inv db" and j: "j \<in> set (jobs db)" and idle: "idle (part db (j_job_id j))"
    and db1: "jobs db1 = jobs db" "events db1 = events db" "attempts db1 = attempts db" "allocations db1 = allocations db"
      "attempt_leases db1 = attempt_leases db" "attempt_authority_grants db1 = attempt_authority_grants db"
      "results db1 = results db"
      "\<And>y. y \<noteq> j_job_id j \<Longrightarrow> filter (\<lambda>r. rs_job_id r = y) (retry_schedules db1) = filter (\<lambda>r. rs_job_id r = y) (retry_schedules db)"
    and ch: "\<And>i. j_job_id (ch i) = j_job_id i" "counter_scopes (ch j) = counter_scopes j" "j_job_fence (ch j) = j_job_fence j"
      "j_state (ch j) \<in> {J_QUEUED, J_RETRY_WAIT, J_PAUSED, J_FAILED, J_CANCELLED}" "j_state j \<noteq> J_SUCCEEDED"
    and shift: "shifted (set (counter_scopes j)) n 0 (admission_counters db) (admission_counters db1)"
    and n: "(if j_state (ch j) \<in> terminal_states then 0 else 1) = (if j_state j \<in> terminal_states then 0 else 1) + n"
    and ok: "control_ok (logged j kv ch now)" "retries_ok (logged j kv ch now) (part db1 (j_job_id j))"
    and row: "transition_row (machine_of j (part db (j_job_id j))) (machine_of (logged j kv ch now) (part db (j_job_id j)))"
  shows "keeps db (record_event db1 j ac now c e r act ar kv ch)"
proof -
  let ?x = "j_job_id j"
  note p = job_inv_parts [OF inv j]
  have part: "part db1 y = (part db y)\<lparr>p_retries := p_retries (part db1 y)\<rparr>" for y by (simp add: part_def db1)
  have other: "part db1 y = part db y" if "y \<noteq> ?x" for y by (subst part) (use db1(8) [OF that] in \<open>simp add: part_def\<close>)
  have un: "unreleased (part db1 ?x) = unreleased (part db ?x)" "idle (part db1 ?x) = idle (part db ?x)"
      "phase_of (part db1 ?x) = phase_of (part db ?x)"
    by (simp_all add: unreleased_def idle_def live_leases_def live_grants_def phase_of_def db1)
  have "attempts_ok (logged j kv ch now) (part db1 ?x)" using p(1) ch(3) by (simp add: attempts_ok_def db1)
  moreover have "phase_ok (logged j kv ch now) (part db1 ?x)" by (rule phase_ok_idle) (use idle un ch(4) in auto)
  moreover have "results_ok (logged j kv ch now) (part db1 ?x)" using p(6) ch(4,5) by (auto simp: results_ok_def db1)
  moreover have "keys_ok db1" using inv by (simp add: inv_def keys_ok_def db1)
  moreover have "transition_row (machine_of j (part db ?x)) (machine_of (logged j kv ch now) (part db1 ?x))"
    using row un(3) by (simp add: machine_of_def)
  ultimately show ?thesis
    by (intro event_step [OF inv j db1(1,2) _ other ch(1,2) shift n]) (use ok un(1) in simp_all)
qed

lemma resume_job_keeps:
  assumes "resume_job sv compatible env db caller request = Inr (r, db')"
  shows "keeps db db'"
proof (rule control_keeps [OF assms [unfolded resume_job_def]])
  fix db1 :: db and ctx :: control_context and st :: staged and reason
  let ?j = "cc_job ctx" and ?k = "hd (cc_counters ctx)"
  let ?ch = "\<lambda>j. j\<lparr>j_state := J_QUEUED, j_desired_state := D_RUNNING, j_recovery_intent := None,
      j_waiting_reason := None, j_ready_sequence := k_version ?k\<rparr>"
  let ?db2 = "db1\<lparr>admission_counters := update_where (\<lambda>k. k_scope k = GLOBAL)
      (\<lambda>k. k\<lparr>k_version := k_version ?k + 1, k_updated_at := cc_now ctx\<rparr>) (admission_counters db1)\<rparr>"
  assume inv: "inv db1" and j: "?j \<in> set (jobs db1)" and ch: "resume_change compatible db1 ctx = Inr st"
  have st: "j_state ?j = J_PAUSED" "st_db st = ?db2" "st_changes st = ?ch"
    using ch by (auto simp: resume_change_def res_bind_Inr_iff Let_def split: if_splits prod.splits)
  have ctl: "control_ok ?j" and r: "retries_ok ?j (part db1 (j_job_id ?j))" and idle: "idle (part db1 (j_job_id ?j))"
    using job_inv_parts [OF inv j] st by (simp_all add: phase_ok_def)
  have "shifted (set (counter_scopes ?j)) 0 0 (admission_counters db1) (admission_counters ?db2)"
    by (simp add: shifted_update_version)
  moreover have "transition_row (machine_of ?j (part db1 (j_job_id ?j)))
      (machine_of (logged ?j False ?ch (cc_now ctx)) (part db1 (j_job_id ?j)))"
    using transition_row.resume [of "machine_of ?j (part db1 (j_job_id ?j))"] st by (simp add: machine_of_def tick_def)
  moreover have "control_ok (logged ?j False ?ch (cc_now ctx))"
    using ctl st by (auto simp: control_ok_def terminal_states_def dispatchable_def)
  moreover have "retries_ok (logged ?j False ?ch (cc_now ctx)) (part ?db2 (j_job_id ?j))"
    using r st by (simp add: retries_ok_def)
  ultimately show "keeps db1 (control_event (st_db st) ctx ''job.resume'' (st_event st) (st_event_reason st) reason
      (st_changes st))"
    unfolding control_event_def st(2,3)
    by (intro idle_event [OF inv j idle, where n = 0])
      (use st(1) in \<open>simp_all add: counter_scopes_def terminal_states_def\<close>)
qed

subsection \<open>Cancel\<close>

lemma cancel_waiting_keeps:
  assumes inv: "inv db" and j: "cc_job ctx \<in> set (jobs db)"
    and lock: "lock_counters db (counter_scopes (cc_job ctx)) = Inr (cc_counters ctx)"
    and st: "j_state (cc_job ctx) \<in> {J_QUEUED, J_RETRY_WAIT, J_PAUSED}"
    and db1: "adjust_counters (close_waiting db (j_job_id (cc_job ctx)) now) (cc_counters ctx) now 1 0 = Inr db1"
  shows "keeps db (record_event db1 (cc_job ctx) ac now c e r act ar False (\<lambda>j. j\<lparr>j_state := J_CANCELLED,
    j_desired_state := D_CANCELLED, j_recovery_intent := None, j_waiting_reason := None, j_terminal_at := Some now\<rparr>))"
proof -
  let ?j = "cc_job ctx" and ?ch = "\<lambda>j. j\<lparr>j_state := J_CANCELLED, j_desired_state := D_CANCELLED,
    j_recovery_intent := None, j_waiting_reason := None, j_terminal_at := Some now\<rparr>"
  let ?db0 = "close_waiting db (j_job_id ?j) now"
  obtain cs where cs: "db1 = ?db0\<lparr>admission_counters := cs\<rparr>"
      "shifted (set (counter_scopes ?j)) (- 1) 0 (admission_counters db) cs"
    using adjust_locked_Inr [OF lock db1] by (auto simp: close_waiting_def)
  have p: "retries_ok ?j (part db (j_job_id ?j))" "idle (part db (j_job_id ?j))"
    using job_inv_parts [OF inv j] st by (auto simp: phase_ok_def)
  have rs: "filter (\<lambda>r. rs_job_id r = y) (retry_schedules db1) = update_where (\<lambda>r. rs_job_id r = j_job_id ?j \<and> rs_closed_at r = None)
      (\<lambda>r. r\<lparr>rs_closed_at := Some now\<rparr>) (filter (\<lambda>r. rs_job_id r = y) (retry_schedules db))" for y
    unfolding cs(1) close_waiting_def by (simp add: filter_update_where_key)
  have other: "filter (\<lambda>r. rs_job_id r = y) (retry_schedules db1) = filter (\<lambda>r. rs_job_id r = y) (retry_schedules db)"
    if "y \<noteq> j_job_id ?j" for y
    unfolding rs by (rule update_where_none) (use that in auto)
  have "filter (\<lambda>r. rs_closed_at r = None) (update_where (\<lambda>r. rs_job_id r = j_job_id ?j \<and> rs_closed_at r = None)
      (\<lambda>r. r\<lparr>rs_closed_at := Some now\<rparr>) (filter (\<lambda>r. rs_job_id r = j_job_id ?j) ts)) = []" for ts
    by (induction ts) auto
  then have "retries_ok (logged ?j False ?ch now) (part db1 (j_job_id ?j))"
    using p(1) by (simp add: retries_ok_def rs map_update_where)
  moreover have "control_ok (logged ?j False ?ch now)" by (simp add: control_ok_def terminal_states_def)
  moreover have "transition_row (machine_of ?j (part db (j_job_id ?j)))
      (machine_of (logged ?j False ?ch now) (part db (j_job_id ?j)))"
    using transition_row.cancel_waiting [of "machine_of ?j (part db (j_job_id ?j))"] st phase_of_simps(1) [OF p(2)]
    by (simp add: machine_of_def tick_def)
  ultimately show ?thesis
    by (intro idle_event [OF inv j p(2) _ _ _ _ _ _ _ other, where n = "- 1"])
      (use st cs(2) in \<open>auto simp: cs(1) close_waiting_def counter_scopes_def terminal_states_def\<close>)
qed

lemma live_attempt_held:
  assumes inv: "inv db" and j: "j \<in> set (jobs db)" and st: "j_state j \<in> {J_DISPATCHING, J_RUNNING, J_PAUSING}"
    and la: "live_attempt db (j_job_id j) = Inr x"
  obtains a al l g where "x = Some a" "held_by (part db (j_job_id j)) a al l g"
proof -
  obtain a al l g where h: "held_by (part db (j_job_id j)) a al l g"
    using job_inv_parts(2) [OF inv j] st by (auto simp: phase_ok_def held_in_def)
  note m = held_by_mem [OF h] and t = held_targets [OF inv h]
  let ?rows = "concat (map (\<lambda>a. map (\<lambda>_. a) (filter (\<lambda>l. l_attempt_id l = a_attempt_id a \<and> l_revoked_at l = None)
     (attempt_leases db))) (filter (\<lambda>a. a_job_id a = j_job_id j) (attempts db)))"
  have mem: "a \<in> set ?rows" using m(1,2,5) t(7,8) by auto
  then have "?rows \<noteq> []" by (metis list.set(1) empty_iff)
  moreover have x: "x = None \<and> ?rows = [] \<or> (\<exists>y. x = Some y \<and> ?rows = [y])"
    using la by (cases x) (simp_all add: live_attempt_def one_or_none_Inr)
  ultimately obtain y where y: "x = Some y" "?rows = [y]" by blast
  then have "y = a" using mem by (metis list.set(1) list.simps(15) singletonD)
  then show thesis using that y(1) h by blast
qed

lemma cancel_active_keeps:
  assumes inv: "inv db" and j: "j \<in> set (jobs db)" and st: "j_state j \<in> {J_DISPATCHING, J_RUNNING, J_PAUSING}"
    and h: "held_by (part db (j_job_id j)) a al l g"
  shows "keeps db (record_event (fence_attempt db (a_attempt_id a) now A_STOPPING USER_CANCEL ''USER_CANCEL'' ''USER_CANCEL'')
    j ac now c e r act ar False
    (\<lambda>i. (i\<lparr>j_state := J_CANCELLING, j_desired_state := D_CANCELLED\<rparr>)\<lparr>j_job_fence := j_job_fence j + 1\<rparr>))"
proof -
  let ?ch = "\<lambda>i. (i\<lparr>j_state := J_CANCELLING, j_desired_state := D_CANCELLED\<rparr>)\<lparr>j_job_fence := j_job_fence j + 1\<rparr>"
  have "control_ok (logged j False ?ch now)"
    using job_inv_parts(3) [OF inv j] st unfolding control_ok_def terminal_states_def logged_simps
    by (cases "j_state j") simp_all
  moreover have "transition_row (machine_of j (part db (j_job_id j))) (machine_of (logged j False ?ch now) p)"
    if "phase_of p = Quarantined" for p
    using transition_row.cancel_active [of "machine_of j (part db (j_job_id j))"] st phase_of_simps(2) [OF h] that
    by (simp add: machine_of_def tick_def)
  ultimately show ?thesis
    by (intro fenced_event [OF inv j h fence_attempt_rows [OF inv h]])
      (use st in \<open>auto simp: counter_scopes_def keeps_attempt_def\<close>)
qed

lemma cancel_recovering_keeps:
  assumes inv: "inv db" and j: "j \<in> set (jobs db)" and st: "j_state j = J_RECOVERING"
  shows "keeps db (record_event db j ac now c e r act ar False
    (\<lambda>i. i\<lparr>j_state := J_CANCELLING, j_desired_state := D_CANCELLED\<rparr>))"
proof -
  let ?ch = "\<lambda>i. i\<lparr>j_state := J_CANCELLING, j_desired_state := D_CANCELLED\<rparr>"
  note p = job_inv_parts [OF inv j]
  obtain a al where q: "quarantined_by (part db (j_job_id j)) a al" using p(2) st by (auto simp: phase_ok_def)
  have "control_ok (logged j False ?ch now)" using p(3) st by (simp add: control_ok_def terminal_states_def)
  moreover have "phase_ok (logged j False ?ch now) (part db (j_job_id j))" by (rule phase_ok_quarantined [OF q]) simp_all
  moreover have "transition_row (machine_of j (part db (j_job_id j))) (machine_of (logged j False ?ch now) (part db (j_job_id j)))"
    using transition_row.cancel_recovering [of "machine_of j (part db (j_job_id j))"] st by (simp add: machine_of_def tick_def)
  moreover have "attempts_ok (logged j False ?ch now) (part db (j_job_id j))" using p(1) by (simp add: attempts_ok_def)
  moreover have "retries_ok (logged j False ?ch now) (part db (j_job_id j))" using p(4) st by (simp add: retries_ok_def)
  moreover have "results_ok (logged j False ?ch now) (part db (j_job_id j))" using p(6) st by (simp add: results_ok_def)
  moreover have "keys_ok db" using inv by (simp add: inv_def)
  ultimately show ?thesis
    by (intro event_step [OF inv j, where n = 0 and m = 0]) (use st in \<open>simp_all add: counter_scopes_def terminal_states_def\<close>)
qed

lemma cancel_job_keeps:
  assumes "cancel_job sv env db caller request = Inr (r, db')"
  shows "keeps db db'"
proof (rule control_keeps [OF assms [unfolded cancel_job_def]])
  fix db1 :: db and ctx :: control_context and st :: staged and reason
  let ?j = "cc_job ctx"
  assume inv: "inv db1" and j: "?j \<in> set (jobs db1)"
    and lock: "lock_counters db1 (counter_scopes ?j) = Inr (cc_counters ctx)" and ch: "cancel_change db1 ctx = Inr st"
  consider (waiting) "j_state ?j \<in> immediate_cancel" | (active) "j_state ?j \<notin> immediate_cancel" "j_state ?j \<in> active_states"
    | (recovering) "j_state ?j \<notin> immediate_cancel" "j_state ?j \<notin> active_states" "j_state ?j = J_RECOVERING"
    using ch by (auto simp: cancel_change_def Let_def split: if_splits)
  then show "keeps db1 (control_event (st_db st) ctx ''job.cancel'' (st_event st) (st_event_reason st) reason (st_changes st))"
  proof cases
    case waiting
    then obtain db2 where "adjust_counters (close_waiting db1 (j_job_id ?j) (cc_now ctx)) (cc_counters ctx) (cc_now ctx) 1 0 = Inr db2"
        "st_db st = db2" "st_changes st = (\<lambda>j. j\<lparr>j_state := J_CANCELLED, j_desired_state := D_CANCELLED,
          j_recovery_intent := None, j_waiting_reason := None, j_terminal_at := Some (cc_now ctx)\<rparr>)"
      using ch by (auto simp: cancel_change_def res_bind_Inr_iff Let_def)
    then show ?thesis
      using cancel_waiting_keeps [OF inv j lock] waiting by (simp add: control_event_def immediate_cancel_def)
  next
    case active
    then obtain x where x: "live_attempt db1 (j_job_id ?j) = Inr x"
      using ch by (auto simp: cancel_change_def res_bind_Inr_iff Let_def)
    have s: "j_state ?j \<in> {J_DISPATCHING, J_RUNNING, J_PAUSING}" using active by (simp add: active_states_def)
    obtain a al l g where h: "x = Some a" "held_by (part db1 (j_job_id ?j)) a al l g"
      using live_attempt_held [OF inv j s x] by blast
    have "st_db st = fence_attempt db1 (a_attempt_id a) (cc_now ctx) A_STOPPING USER_CANCEL ''USER_CANCEL'' ''USER_CANCEL''"
        "st_changes st = (\<lambda>i. (i\<lparr>j_state := J_CANCELLING, j_desired_state := D_CANCELLED\<rparr>)\<lparr>j_job_fence := j_job_fence ?j + 1\<rparr>)"
      using ch active x h(1) by (auto simp: cancel_change_def Let_def)
    then show ?thesis using cancel_active_keeps [OF inv j s h(2)] by (simp add: control_event_def)
  next
    case recovering
    then have "st_db st = db1" "st_changes st = (\<lambda>i. i\<lparr>j_state := J_CANCELLING, j_desired_state := D_CANCELLED\<rparr>)"
      using ch by (auto simp: cancel_change_def Let_def)
    then show ?thesis using cancel_recovering_keeps [OF inv j recovering(3)] by (simp add: control_event_def)
  qed
qed

subsection \<open>Creating a job\<close>

lemma counted_no_scope:
  assumes inv: "inv db" and s: "s \<notin> k_scope ` set (admission_counters db)"
  shows "counted outstanding_of db s = 0" "counted active_of db s = 0"
proof -
  have z: "outstanding_of s (part db x) = 0 \<and> active_of s (part db x) = 0" for x
  proof (cases "p_jobs (part db x)")
    case (Cons j js)
    then have "j \<in> set (p_jobs (part db x))" by simp
    then have "j \<in> set (jobs db)" by simp
    then have "s \<notin> set (counter_scopes j)" using inv s by (auto simp: inv_def counters_ok_def)
    then show ?thesis using Cons by (cases js) (simp_all add: outstanding_of_def active_of_def del: part_sels)
  qed (simp add: outstanding_of_def active_of_def del: part_sels)
  then show "counted outstanding_of db s = 0" "counted active_of db s = 0"
    unfolding counted_def by (simp_all add: comp_def del: part_sels)
qed

lemma counter_lock_keeps:
  assumes "counter_lock env db s = Inr (row, db')"
  shows "keeps db db'" "jobs db' = jobs db" "s \<in> k_scope ` set (admission_counters db')"
    "k_scope ` set (admission_counters db) \<subseteq> k_scope ` set (admission_counters db')"
proof -
  let ?new = "\<lparr>k_scope = s, k_outstanding = 0, k_active_attempts = 0, k_version = 1, k_updated_at = started env\<rparr>"
  have db': "db' = (if list_ex (\<lambda>k. k_scope k = s) (admission_counters db) then db
      else db\<lparr>admission_counters := admission_counters db @ [?new]\<rparr>)"
    using assms by (auto simp: counter_lock_def res_bind_Inr_iff Let_def)
  show "jobs db' = jobs db" "s \<in> k_scope ` set (admission_counters db')"
      "k_scope ` set (admission_counters db) \<subseteq> k_scope ` set (admission_counters db')"
    unfolding db' by (auto simp: list_ex_iff)
  show "keeps db db'"
  proof (cases "list_ex (\<lambda>k. k_scope k = s) (admission_counters db)")
    case True
    then show ?thesis by (simp add: db' keeps_core)
  next
    case False
    then have d: "db' = db\<lparr>admission_counters := admission_counters db @ [?new]\<rparr>" by (simp add: db')
    have s: "s \<notin> k_scope ` set (admission_counters db)" using False by (auto simp: list_ex_iff)
    have part: "part db' = part db" unfolding d by (intro ext part_cong) simp_all
    then have cnt: "counted w db' u = counted w db u" for w u unfolding counted_def by (simp add: d)
    have "inv db'" if inv: "inv db"
      using inv counted_no_scope [OF inv s] s part cnt unfolding inv_def counters_ok_def keys_ok_def by (auto simp: d)
    moreover have "store_moves db db'" by (simp add: store_moves_def part)
    ultimately show ?thesis by (simp add: keeps_def)
  qed
qed

lemma new_job_simps [simp]:
  "j_job_id (new_job i t u w ro pr rs now) = i" "j_state (new_job i t u w ro pr rs now) = J_QUEUED"
  "counter_scopes (new_job i t u w ro pr rs now) = [GLOBAL, TENANT t, USER t u]"
  by (simp_all add: new_job_def counter_scopes_def)

lemma new_job_inv:
  assumes "p_jobs p = [new_job i t u w ro pr rs now]" "p_attempts p = []" "p_allocations p = []" "p_leases p = []"
    "p_grants p = []" "map e_sequence (p_events p) = [1]" "p_retries p = []" "p_results p = []"
  shows "part_inv p" "abstract p = Some initial" "outstanding_of s p = (if s \<in> {GLOBAL, TENANT t, USER t u} then 1 else 0)"
    "active_of s p = 0"
proof -
  let ?j = "new_job i t u w ro pr rs now"
  have "job_inv ?j p"
    unfolding job_inv_def attempts_ok_def phase_ok_def control_ok_def retries_ok_def log_ok_def results_ok_def idle_def
      unreleased_def live_leases_def live_grants_def
    using assms by (simp add: new_job_def terminal_states_def dispatchable_def)
  then show "part_inv p" unfolding part_inv_def using assms(1) by blast
  show "abstract p = Some initial"
    using assms by (simp add: abstract_def machine_of_def initial_def phase_of_def unreleased_def new_job_def)
  show "outstanding_of s p = (if s \<in> {GLOBAL, TENANT t, USER t u} then 1 else 0)" "active_of s p = 0"
    using assms by (simp_all add: outstanding_of_def active_of_def unreleased_def terminal_states_def)
qed

lemma job_rows_keeps:
  assumes inv: "inv db" and new: "x \<notin> j_job_id ` set (jobs db)"
    and sc: "{GLOBAL, TENANT t, USER t u} \<subseteq> k_scope ` set (admission_counters db)"
  shows "keeps db (job_rows db (new_job x t u w ro pr rs now) sess spec input model er act ar now')"
proof -
  let ?j = "new_job x t u w ro pr rs now" and ?db' = "job_rows db (new_job x t u w ro pr rs now) sess spec input model er act ar now'"
  have empty: "part db x = empty_part" by (rule inv_no_job [OF inv new])
  have tabs: "p_jobs (part db x) = []" "p_attempts (part db x) = []" "p_allocations (part db x) = []" "p_leases (part db x) = []"
      "p_grants (part db x) = []" "p_events (part db x) = []" "p_retries (part db x) = []" "p_results (part db x) = []"
    unfolding empty by simp_all
  have other: "part ?db' y = part db y" if "y \<noteq> x" for y using that by (simp add: part_def job_rows_def)
  have own: "p_jobs (part ?db' x) = [?j]" "p_attempts (part ?db' x) = []" "p_allocations (part ?db' x) = []"
      "p_leases (part ?db' x) = []" "p_grants (part ?db' x) = []" "map e_sequence (p_events (part ?db' x)) = [1]"
      "p_retries (part ?db' x) = []" "p_results (part ?db' x) = []"
    using tabs by (simp_all add: job_rows_def)
  note n = new_job_inv [OF own]
  have ids: "map j_job_id (jobs ?db') = map j_job_id (jobs db) @ [x]" by (simp add: job_rows_def)
  have cnt: "counted f ?db' s = counted f db s + f s (part ?db' x)" for f s
  proof -
    have "map (\<lambda>y. f s (part ?db' y)) (map j_job_id (jobs db)) = map (\<lambda>y. f s (part db y)) (map j_job_id (jobs db))"
    proof (rule map_cong [OF refl])
      fix y
      assume "y \<in> set (map j_job_id (jobs db))"
      then have "y \<noteq> x" using new by auto
      then show "f s (part ?db' y) = f s (part db y)" by (intro arg_cong [where f = "f s"] other)
    qed
    then show ?thesis unfolding counted_def ids map_append sum_list_append by (simp only: list.map sum_list.Cons sum_list.Nil add_0_right)
  qed
  have ac: "admission_counters ?db' = update_where (\<lambda>k. k_scope k \<in> {GLOBAL, TENANT t, USER t u})
      (\<lambda>k. k\<lparr>k_outstanding := k_outstanding k + 1, k_version := k_version k + 1, k_updated_at := now'\<rparr>) (admission_counters db)"
    by (simp add: job_rows_def)
  have "counters_ok ?db'"
  proof -
    have c: "distinct (map k_scope (admission_counters db))"
        "\<And>k. k \<in> set (admission_counters db) \<Longrightarrow> k_outstanding k = counted outstanding_of db (k_scope k) \<and>
          k_active_attempts k = counted active_of db (k_scope k)"
        "\<And>j. j \<in> set (jobs db) \<Longrightarrow> set (counter_scopes j) \<subseteq> k_scope ` set (admission_counters db)"
      using inv by (auto simp: inv_def counters_ok_def)
    have scopes: "map k_scope (admission_counters ?db') = map k_scope (admission_counters db)"
      unfolding ac by (simp add: map_update_where)
    have "k_outstanding k = counted outstanding_of ?db' (k_scope k) \<and> k_active_attempts k = counted active_of ?db' (k_scope k)"
      if "k \<in> set (admission_counters ?db')" for k
      using that c(2) unfolding cnt n(3,4) ac set_update_where by auto
    moreover have "k_scope ` set (admission_counters ?db') = k_scope ` set (admission_counters db)"
      using scopes by (metis set_map)
    ultimately show ?thesis
      unfolding counters_ok_def scopes using c sc by (auto simp: job_rows_def [of db] simp del: set_update_where)
  qed
  moreover have "part_inv (part ?db' y)" for y using other inv_part [OF inv, of y] n(1) by (cases "y = x") auto
  moreover have "keys_ok ?db'" using inv by (simp add: inv_def keys_ok_def job_rows_def)
  moreover have "store_moves db ?db'"
    unfolding store_moves_def
  proof
    fix y
    show "moves (abstract (part db y)) (abstract (part ?db' y))"
    proof (cases "y = x")
      case True
      then show ?thesis using n(2) empty by (simp add: abstract_def moves_def)
    qed (simp add: other)
  qed
  ultimately show ?thesis by (simp add: keeps_def inv_def)
qed

lemma rate_lock_core: "rate_lock db s cap rate now = Inr (tokens, db') \<Longrightarrow> same_core db db'"
  by (auto simp: rate_lock_def same_core_def res_bind_Inr_iff Let_def split: if_splits)

lemma admit_keeps:
  assumes "admit sv env db live tid chk = Inr (tp, gc, db')"
  shows "keeps db db'" "jobs db' = jobs db"
    "{GLOBAL, TENANT tid, USER tid (user_of live)} \<subseteq> k_scope ` set (admission_counters db')"
proof -
  obtain c1 db1 c2 db2 c3 db3 t4 db4 t5 where a: "counter_lock env db GLOBAL = Inr (c1, db1)"
      "counter_lock env db1 (TENANT tid) = Inr (c2, db2)" "counter_lock env db2 (USER tid (user_of live)) = Inr (c3, db3)"
      "rate_lock db3 (TENANT tid) (tp_tenant_rate_burst tp) (tp_tenant_rate_per_second tp) (clk env 0) = Inr (t4, db4)"
      "rate_lock db4 (USER tid (user_of live)) (tp_user_rate_burst tp) (tp_user_rate_per_second tp) (clk env 1) = Inr (t5, db')"
    using assms by (auto simp: admit_def res_bind_Inr_iff Let_def split: if_splits option.splits)
  have core: "same_core db3 db'" by (rule same_core_trans [OF rate_lock_core [OF a(4)] rate_lock_core [OF a(5)]])
  show "keeps db db'"
    using counter_lock_keeps(1) [OF a(1)] counter_lock_keeps(1) [OF a(2)] counter_lock_keeps(1) [OF a(3)]
      keeps_core [OF core] keeps_trans by blast
  show "jobs db' = jobs db"
    using counter_lock_keeps(2) [OF a(1)] counter_lock_keeps(2) [OF a(2)] counter_lock_keeps(2) [OF a(3)] core
    by (simp add: same_core_def)
  show "{GLOBAL, TENANT tid, USER tid (user_of live)} \<subseteq> k_scope ` set (admission_counters db')"
    using counter_lock_keeps(3,4) [OF a(1)] counter_lock_keeps(3,4) [OF a(2)] counter_lock_keeps(3,4) [OF a(3)] core
    unfolding same_core_def by (metis (no_types, lifting) insert_subset empty_subsetI subset_iff)
qed

lemma create_job_keeps:
  assumes "create_job sv env db live tid x sess spec tp gc ro er act ar = Inr db'"
    and "x \<notin> j_job_id ` set (jobs db)"
    and "{GLOBAL, TENANT tid, USER tid (user_of live)} \<subseteq> k_scope ` set (admission_counters db)"
  shows "keeps db db'"
proof (rule keepsI)
  assume inv: "inv db"
  obtain waiting input model where "db' = job_rows db (new_job x tid (user_of live) waiting ro (js_priority spec) (k_version gc)
      (started env)) sess spec input model er act ar (started env)"
    using assms(1) by (auto simp: create_job_def res_bind_Inr_iff split: if_splits)
  then show "keeps db db'" using job_rows_keeps [OF inv assms(2,3)] by simp
qed

text \<open>A submission answers a replay, or admits and creates its job.\<close>

lemma submit_Inr:
  assumes "submit sv env db caller tid spec key h = Inr (r, db')"
  obtains "same_core db db'"
  | live db1 tp gc db2 db3 where "authorize sv db caller tid True = Inr live" "same_core db db1" "tenant_policies db1 = tenant_policies db"
      "policy db1 = policy db" "admit sv env db1 live tid True = Inr (tp, gc, db2)"
      "create_job sv env db2 live tid (ids env 0) (ids env 1) spec tp gc None ''Job accepted'' ''job.submit''
        ''Job accepted'' = Inr db3" "same_core db3 db'"
proof -
  obtain live where l: "authorize sv db caller tid True = Inr live"
    using assms(1) by (auto simp: submit_def res_bind_Inr_iff)
  obtain rid replay db1 where b: "begin_idempotency db (ids env 2) (request_scope tid live ''submitJob'' key) h
       (started env + days (terminal_retention_days env)) (sv_pending_wait_milliseconds sv) = Inr (rid, replay, db1)"
    using assms(1) l by (auto simp: submit_def res_bind_Inr_iff)
  note core = begin_idempotency_core [OF b]
  show thesis
  proof (cases replay)
    case (Some x)
    then have "db' = db1" using assms(1) l b by (simp add: submit_def)
    then show thesis using core that(1) by simp
  next
    case None
    obtain tp gc db2 where a: "admit sv env db1 live tid True = Inr (tp, gc, db2)"
      using assms(1) l b None by (auto simp: submit_def res_bind_Inr_iff)
    obtain db3 where c: "create_job sv env db2 live tid (ids env 0) (ids env 1) spec tp gc None ''Job accepted'' ''job.submit''
        ''Job accepted'' = Inr db3"
      using assms(1) l b None a by (auto simp: submit_def res_bind_Inr_iff)
    obtain body where v: "job_view_of db3 tid (ids env 0) = Inr body"
      using assms(1) l b None a c by (auto simp: submit_def res_bind_Inr_iff)
    have "complete_idempotency db3 rid r (Some (ids env 0)) False = Inr db'"
      using assms(1) l b None a c v by (auto simp: submit_def res_bind_Inr_iff Let_def)
    note last = complete_idempotency_core [OF this]
    have "tenant_policies db1 = tenant_policies db" "policy db1 = policy db"
      using b None by (auto simp: begin_idempotency_def one_or_none_def split: if_splits option.splits list.splits)
    then show thesis using that(2) [OF l core _ _ a c last] by blast
  qed
qed

lemma submit_keeps:
  assumes "submit sv env db caller tid spec key h = Inr (r, db')" and new: "ids env 0 \<notin> j_job_id ` set (jobs db)"
  shows "keeps db db'"
  using assms(1)
proof (cases rule: submit_Inr)
  case 1
  then show ?thesis by (rule keeps_core)
next
  case (2 live db1 tp gc db2 db3)
  note ad = admit_keeps [OF 2(5)]
  have "ids env 0 \<notin> j_job_id ` set (jobs db2)" using new 2(2) ad(2) by (simp add: same_core_def)
  then have "keeps db2 db3" by (rule create_job_keeps [OF 2(6) _ ad(3)])
  then show ?thesis using keeps_core [OF 2(2)] ad(1) keeps_core [OF 2(7)] keeps_trans by blast
qed

lemma retry_failed_job_keeps:
  assumes "retry_failed_job sv revalidate env db caller request cid scan = Inr (r, db')"
    and new: "ids env 0 \<notin> j_job_id ` set (jobs db)"
  shows "keeps db db'"
proof -
  let ?tid = "rq_tenant_id request"
  obtain live where l: "authorize sv db caller ?tid True = Inr live"
    using assms(1) by (auto simp: retry_failed_job_def res_bind_Inr_iff Let_def)
  obtain sub where s: "visible_submitter db live ?tid (rq_job_id request) = Inr sub"
    using assms(1) l by (auto simp: retry_failed_job_def res_bind_Inr_iff Let_def)
  obtain rid replay db1 where b: "begin_idempotency db (ids env 2)
       (request_scope ?tid live ''retryFailedJob'' (rq_idempotency_key request)) (rq_request_hash request)
       (started env + days (terminal_retention_days env)) (sv_pending_wait_milliseconds sv) = Inr (rid, replay, db1)"
    using assms(1) l s by (auto simp: retry_failed_job_def res_bind_Inr_iff Let_def)
  note core = begin_idempotency_core [OF b]
  show ?thesis
  proof (cases replay)
    case (Some x)
    then have "db' = db1" using assms(1) l s b by (simp add: retry_failed_job_def Let_def)
    then show ?thesis using keeps_core [OF core] by simp
  next
    case None
    obtain expected where e: "resolve_expected_version (VersionPrecondition (rq_if_match request)) = Inr expected"
      using assms(1) l s b None by (auto simp: retry_failed_job_def res_bind_Inr_iff Let_def)
    obtain tp gc db2 where a: "admit sv env db1 live ?tid False = Inr (tp, gc, db2)"
      using assms(1) l s b None e by (auto simp: retry_failed_job_def res_bind_Inr_iff Let_def)
    obtain src sp where src: "one (filter (\<lambda>j. j_tenant_id j = ?tid \<and> j_job_id j = rq_job_id request) (jobs db2)) = Inr src"
        "j_version src = expected" "j_state src = J_FAILED" "spec_of_job db2 (rq_job_id request) = Inr sp"
      using assms(1) l s b None e a by (auto simp: retry_failed_job_def res_bind_Inr_iff Let_def split: if_splits)
    obtain spec where spec: "revalidate (sp_canonical_spec sp) = Some spec"
      using assms(1) l s b None e a src
      by (cases "revalidate (sp_canonical_spec sp)") (auto simp: retry_failed_job_def res_bind_Inr_iff Let_def)
    obtain db3 where c: "create_job sv env db2 live ?tid (ids env 0) (ids env 1)
       (spec\<lparr>js_payload := sp_canonical_spec sp, js_checksum := sp_spec_checksum sp\<rparr>) tp gc (Some (rq_job_id request))
       ''MANUAL_RETRY'' ''job.retry'' (rq_reason request) = Inr db3"
      using assms(1) l s b None e a src spec by (auto simp: retry_failed_job_def res_bind_Inr_iff Let_def)
    let ?db4 = "case cid of None \<Rightarrow> db3
       | Some c \<Rightarrow> db3\<lparr>checkpoint_references := checkpoint_references db3 @ [\<lparr>cf_tenant_id = ?tid,
           cf_source_checkpoint_id = c, cf_target_job_id = ids env 0, cf_reason = ''MANUAL_RETRY'',
           cf_created_at = started env\<rparr>]\<rparr>"
    obtain body where v: "job_view_of ?db4 ?tid (ids env 0) = Inr body"
      using assms(1) l s b None e a src spec c by (auto simp: retry_failed_job_def res_bind_Inr_iff Let_def)
    have "complete_idempotency ?db4 rid r (Some (ids env 0)) False = Inr db'"
      using assms(1) l s b None e a src spec c v by (auto simp: retry_failed_job_def res_bind_Inr_iff Let_def)
    note k = keeps_core [OF complete_idempotency_core [OF this]] and ad = admit_keeps [OF a]
    have r: "keeps db3 ?db4" by (rule keeps_core) (simp add: same_core_def split: option.split)
    have "ids env 0 \<notin> j_job_id ` set (jobs db2)" using new core ad(2) by (simp add: same_core_def)
    then have "keeps db2 db3" by (rule create_job_keeps [OF c _ ad(3)])
    then show ?thesis using keeps_core [OF core] ad(1) r k keeps_trans by blast
  qed
qed

end
