(* ===== verification/Lifecycle_Cleanup.thy ===== *)
theory Lifecycle_Cleanup
  imports Lifecycle_Fencing
begin

section \<open>Verified cleanup in the life of a job\<close>

text \<open>
  The only transaction that releases an allocation: it ends what authority is left, counts the attempt
  out, and moves the job to the state its outcome demands.
\<close>

subsection \<open>From held or quarantined to idle\<close>

lemma rebase_locked_core: "rebase_locked db now f = Inr db' \<Longrightarrow> \<exists>segs. db' = db\<lparr>allocation_ledger_segments := segs\<rparr>"
  by (auto simp: rebase_locked_def res_bind_Inr_iff Let_def split: if_splits)

text \<open>The holder of an allocation that is not released is the attempt it was made for.\<close>

lemma unreleased_holder:
  assumes inv: "inv db" and a: "a \<in> set (attempts db)" "a_job_id a = x" and al: "al \<in> set (allocations db)"
      "al_attempt_id al = a_attempt_id a" "al_state al \<noteq> S_RELEASED"
    and j: "j \<in> set (jobs db)" "j_job_id j = x"
  shows "al_job_id al = x" "(\<exists>l g. held_by (part db x) a al l g) \<or> quarantined_by (part db x) a al"
proof -
  show x: "al_job_id al = x" using other_rows(2) [OF inv a(1), of "al_job_id al" al] al a(2) by auto
  have mem: "al \<in> set (unreleased (part db x))" using al x by (simp add: unreleased_def)
  have d: "distinct (map a_attempt_id (attempts db))" using inv by (simp add: inv_def keys_ok_def)
  have "phase_ok j (part db x)" using job_inv_parts(2) [OF inv j(1)] j(2) by simp
  moreover have "\<not> idle (part db x)" using mem by (auto simp: idle_def)
  ultimately consider a' al' l g where "held_by (part db x) a' al' l g" | a' al' where "quarantined_by (part db x) a' al'"
    using phase_ok_cases unfolding held_in_def by blast
  then show "(\<exists>l g. held_by (part db x) a al l g) \<or> quarantined_by (part db x) a al"
  proof cases
    case (1 a' al' l g)
    then have "al' = al" using mem by (simp add: held_by_def)
    moreover from this have "a' = a"
      by (intro distinct_map_inj [OF d]) (use 1 a al in \<open>simp_all add: held_by_def\<close>)
    ultimately show ?thesis using 1 by blast
  next
    case (2 a' al')
    then have "al' = al" using mem by (simp add: quarantined_by_def)
    moreover from this have "a' = a"
      by (intro distinct_map_inj [OF d]) (use 2 a al in \<open>simp_all add: quarantined_by_def\<close>)
    ultimately show ?thesis using 2 by blast
  qed
qed

definition released_rows ::
  "db \<Rightarrow> db \<Rightarrow> attempt_row \<Rightarrow> allocation_row \<Rightarrow> lease_row \<Rightarrow> (attempt_row \<Rightarrow> attempt_row) \<Rightarrow> timestamp \<Rightarrow> retry_row list \<Rightarrow> bool" where
  "released_rows db db1 a al l F now rs \<longleftrightarrow>
     attempts db1 = update_where (\<lambda>r. a_attempt_id r = a_attempt_id a) F (attempts db) \<and>
     allocations db1 = update_where (\<lambda>r. al_allocation_id r = al_allocation_id al)
       (\<lambda>r. r\<lparr>al_state := S_RELEASED, al_released_at := Some now, al_release_reason := Some ''VERIFIED_CLEANUP''\<rparr>)
       (allocations db) \<and>
     attempt_leases db1 = (if l_revoked_at l = None
       then update_where (\<lambda>r. l_lease_id r = l_lease_id l) (\<lambda>r. r\<lparr>l_revoked_at := Some now\<rparr>) (attempt_leases db)
       else attempt_leases db) \<and>
     attempt_authority_grants db1 = end_grants (a_attempt_id a) now (attempt_authority_grants db) \<and>
     jobs db1 = jobs db \<and> events db1 = events db \<and> results db1 = results db \<and>
     retry_schedules db1 = retry_schedules db @ rs"

lemma filter_none_update:
  assumes "\<And>r. r \<in> set t \<Longrightarrow> Q r \<Longrightarrow> p r" "\<And>r. \<not> Q (f r)"
  shows "filter Q (update_where p f t) = []"
  using assms by (induction t) auto

lemma released_update:
  assumes inv: "inv db" and a: "a \<in> set (attempts db)" "a_job_id a = x" and al: "al \<in> set (allocations db)"
      "al_attempt_id al = a_attempt_id a" "al_state al \<noteq> S_RELEASED"
    and j: "j \<in> set (jobs db)" "j_job_id j = x"
    and l: "filter (\<lambda>l. l_attempt_id l = a_attempt_id a) (attempt_leases db) = [l]"
    and upd: "released_rows db db1 a al l F now rs" and F: "keeps_attempt F" and rs: "\<forall>r \<in> set rs. rs_job_id r = x"
  shows "keys_ok db1" "y \<noteq> x \<Longrightarrow> part db1 y = part db y" "idle (part db1 x)"
    "attempts_ok i (part db x) \<Longrightarrow> j_job_fence i \<le> j_job_fence i' \<Longrightarrow> attempts_ok i' (part db1 x)"
    "length (unreleased (part db x)) = 1" "p_retries (part db1 x) = p_retries (part db x) @ rs"
proof -
  note u = upd [unfolded released_rows_def] and f = F [unfolded keeps_attempt_def, rule_format]
  note h = unreleased_holder [OF inv a al j]
  have lm: "l \<in> set (attempt_leases db)" "l_attempt_id l = a_attempt_id a" using filter_singleton [OF l] by simp_all
  have keys: "distinct (map al_allocation_id (allocations db))" "distinct (map l_lease_id (attempt_leases db))"
    using inv by (simp_all add: inv_def keys_ok_def)
  have lx: "l_job_id l = x" using other_rows(3) [OF inv a(1), of "l_job_id l" l] lm a(2) by auto
  let ?L = "\<lambda>r. r\<lparr>l_revoked_at := Some now\<rparr>" and ?pl = "\<lambda>r. l_revoked_at l = None \<and> l_lease_id r = l_lease_id l"
  have leases: "attempt_leases db1 = update_where ?pl ?L (attempt_leases db)"
    using u by (cases "l_revoked_at l") (auto intro!: update_where_none [symmetric])
  show "keys_ok db1"
    using inv f unfolding inv_def keys_ok_def leases by (simp add: u end_grants_def map_update_where)
  have at: "p_attempts (part db1 y) = update_where (\<lambda>r. a_attempt_id r = a_attempt_id a) F (p_attempts (part db y))" for y
    using u f by (simp add: filter_update_where_key)
  have pal: "p_allocations (part db1 y) = update_where (\<lambda>r. al_allocation_id r = al_allocation_id al)
      (\<lambda>r. r\<lparr>al_state := S_RELEASED, al_released_at := Some now, al_release_reason := Some ''VERIFIED_CLEANUP''\<rparr>)
      (p_allocations (part db y))" for y
    using u by (simp add: filter_update_where_key)
  have ple: "p_leases (part db1 y) = update_where ?pl ?L (p_leases (part db y))" for y
    by (simp add: leases filter_update_where_key)
  have pgr: "p_grants (part db1 y) = update_where (\<lambda>g. g_attempt_id g = a_attempt_id a \<and> g_ended_at g = None)
      (\<lambda>g. g\<lparr>g_ended_at := Some now\<rparr>) (p_grants (part db y))" for y
    using u by (simp add: end_grants_def filter_update_where_key)
  show "p_retries (part db1 x) = p_retries (part db x) @ rs" using u rs by (simp add: filter_id_conv)
  show "part db1 y = part db y" if y: "y \<noteq> x"
  proof (rule part_eqI)
    show "p_attempts (part db1 y) = p_attempts (part db y)"
      unfolding at by (rule update_where_none) (use other_rows(1) [OF inv a(1)] y a(2) in blast)
    show "p_allocations (part db1 y) = p_allocations (part db y)"
      unfolding pal by (rule update_where_none)
        (use distinct_key_other [OF keys(1) al(1), where c = al_job_id] h(1) y in auto)
    show "p_leases (part db1 y) = p_leases (part db y)"
      unfolding ple by (rule update_where_none)
        (use distinct_key_other [OF keys(2) lm(1), where c = l_job_id] lx y in auto)
    show "p_grants (part db1 y) = p_grants (part db y)"
      unfolding pgr by (rule update_where_none) (use other_rows(4) [OF inv a(1)] y a(2) in blast)
    show "p_retries (part db1 y) = p_retries (part db y)" using u rs y by (auto simp: filter_empty_conv)
  qed (use u in simp_all)
  have un: "unreleased (part db x) = [al]" using h(2) by (auto simp: held_by_def quarantined_by_def)
  then show "length (unreleased (part db x)) = 1" by simp
  have "unreleased (part db1 x) = []"
    unfolding unreleased_def pal
    by (rule filter_update_drop [where r = al]) (use un in \<open>simp_all add: unreleased_def\<close>)
  moreover have "live_leases (part db1 x) = []"
    unfolding live_leases_def ple
  proof (rule filter_none_update)
    fix r
    assume r: "r \<in> set (p_leases (part db x))" "l_revoked_at r = None"
    then have "r \<in> set (live_leases (part db x))" by (simp add: live_leases_def)
    then obtain g where "held_by (part db x) a al r g" using h(2) by (auto simp: held_by_def quarantined_by_def)
    then have "l_attempt_id r = a_attempt_id a" by (simp add: held_by_def)
    then have "r = l" using filter_singleton_mem [OF l] r(1) by simp
    then show "?pl r" using r(2) by simp
  qed simp
  moreover have "live_grants (part db1 x) = []"
    unfolding live_grants_def pgr
  proof (rule filter_none_update)
    fix r
    assume r: "r \<in> set (p_grants (part db x))" "g_ended_at r = None"
    then have "r \<in> set (live_grants (part db x))" by (simp add: live_grants_def)
    then obtain k where "held_by (part db x) a al k r" using h(2) by (auto simp: held_by_def quarantined_by_def)
    then show "g_attempt_id r = a_attempt_id a \<and> g_ended_at r = None" using r(2) by (simp add: held_by_def)
  qed simp
  ultimately show "idle (part db1 x)" by (simp add: idle_def)
  show "attempts_ok i' (part db1 x)" if "attempts_ok i (part db x)" "j_job_fence i \<le> j_job_fence i'"
    by (rule attempts_ok_cong [OF that(1)]) (simp_all add: pal ple pgr at that(2) map_update_where f del: part_sels)
qed

subsection \<open>Outcomes\<close>

text \<open>What an outcome has to be for a job in its state.\<close>

definition outcome_changes :: "cleanup_outcome \<Rightarrow> job_row \<Rightarrow> timestamp \<Rightarrow> job_row \<Rightarrow> job_row" where
  "outcome_changes out job now j =
     ((if co_state out \<in> terminal_states \<and> j_state job \<notin> terminal_states
       then (co_changes out j)\<lparr>j_recovery_intent := None, j_terminal_at := Some now\<rparr>
       else co_changes out j)\<lparr>j_state := co_state out\<rparr>)"

definition good_outcome :: "cleanup_outcome \<Rightarrow> job_row \<Rightarrow> timestamp \<Rightarrow> bool" where
  "good_outcome out job now \<longleftrightarrow> (let ch = outcome_changes out job now in
     (\<forall>i. j_job_id (ch i) = j_job_id i \<and> counter_scopes (ch i) = counter_scopes i \<and> j_job_fence (ch i) = j_job_fence i \<and>
        j_max_retries (ch i) = j_max_retries i) \<and>
     co_state out \<in> {J_RETRY_WAIT, J_PAUSED, J_FAILED, J_CANCELLED, J_SUCCEEDED} \<and>
     (co_state out = J_SUCCEEDED \<longleftrightarrow> j_state job = J_SUCCEEDED) \<and>
     keeps_attempt (co_attempt out) \<and>
     control_ok (logged job False ch now) \<and>
     (case co_retry out of None \<Rightarrow> co_state out \<noteq> J_RETRY_WAIT \<and> j_retry_count (ch job) = j_retry_count job
      | Some r \<Rightarrow> co_state out = J_RETRY_WAIT \<and> rs_job_id r = j_job_id job \<and> rs_closed_at r = None \<and>
          rs_retry_number r = j_retry_count job + 1 \<and> j_retry_count (ch job) = j_retry_count job + 1 \<and>
          j_retry_count job < j_max_retries job))"

lemma good_outcomeI:
  assumes "\<And>i. j_job_id (outcome_changes out job now i) = j_job_id i \<and>
      counter_scopes (outcome_changes out job now i) = counter_scopes i \<and>
      j_job_fence (outcome_changes out job now i) = j_job_fence i \<and>
      j_max_retries (outcome_changes out job now i) = j_max_retries i"
    "co_state out \<in> {J_RETRY_WAIT, J_PAUSED, J_FAILED, J_CANCELLED, J_SUCCEEDED}"
    "co_state out = J_SUCCEEDED \<longleftrightarrow> j_state job = J_SUCCEEDED" "keeps_attempt (co_attempt out)"
    "control_ok (logged job False (outcome_changes out job now) now)"
    "case co_retry out of None \<Rightarrow> co_state out \<noteq> J_RETRY_WAIT \<and> j_retry_count (outcome_changes out job now job) = j_retry_count job
      | Some r \<Rightarrow> co_state out = J_RETRY_WAIT \<and> rs_job_id r = j_job_id job \<and> rs_closed_at r = None \<and>
          rs_retry_number r = j_retry_count job + 1 \<and> j_retry_count (outcome_changes out job now job) = j_retry_count job + 1 \<and>
          j_retry_count job < j_max_retries job"
  shows "good_outcome out job now"
  using assms unfolding good_outcome_def Let_def by blast

lemma keeps_ended [simp]: "keeps_attempt (ended_attempt attempt s now)"
  by (simp add: keeps_attempt_def ended_attempt_def)

text \<open>The outcome of a recovering job is that of its row of the table.\<close>

lemma recover_outcome_good:
  assumes st: "j_state job = J_RECOVERING" and ctl: "control_ok job"
  shows "good_outcome (recover_outcome env job attempt safe ckpt now) job now"
    "phase_of p = Quarantined \<Longrightarrow> phase_of q = Idle \<Longrightarrow> transition_row (machine_of job p)
      (machine_of (logged job False (outcome_changes (recover_outcome env job attempt safe ckpt now) job now) now) q)"
proof -
  let ?out = "recover_outcome env job attempt safe ckpt now"
  let ?infra = "a_failure_class attempt = Some INFRASTRUCTURE" and ?paused = "j_desired_state job = D_PAUSED"
  have des: "j_desired_state job \<noteq> D_CANCELLED" "j_desired_state job = D_RUNNING \<Longrightarrow> j_recovery_intent job = None"
      "j_terminal_at job = None"
    using ctl st by (simp_all add: control_ok_def terminal_states_def)
  consider (paused) "?infra \<and> ?paused \<and> ckpt"
    | (retry) "\<not> (?infra \<and> ?paused \<and> ckpt)"
        "?infra \<and> j_retry_count job < j_max_retries job \<and> (safe \<or> ckpt \<and> \<not> ?paused)"
    | (failed) "\<not> (?infra \<and> ?paused \<and> ckpt)"
        "\<not> (?infra \<and> j_retry_count job < j_max_retries job \<and> (safe \<or> ckpt \<and> \<not> ?paused))" by blast
  then have "good_outcome ?out job now \<and> (phase_of p = Quarantined \<longrightarrow> phase_of q = Idle \<longrightarrow> transition_row (machine_of job p)
      (machine_of (logged job False (outcome_changes ?out job now) now) q))"
  proof cases
    case paused
    then have out: "?out = \<lparr>co_state = J_PAUSED, co_changes = (\<lambda>j. j\<lparr>j_recovery_intent := None, j_waiting_reason := None\<rparr>),
        co_attempt = ended_attempt attempt A_FAILED now, co_retry = None\<rparr>"
      by (simp add: recover_outcome_def Let_def)
    have "good_outcome ?out job now"
      unfolding out by (rule good_outcomeI)
        (use st paused des in \<open>auto simp: outcome_changes_def control_ok_def counter_scopes_def terminal_states_def\<close>)
    moreover have "transition_row (machine_of job p) (machine_of (logged job False (outcome_changes ?out job now) now) q)"
      if "phase_of p = Quarantined" "phase_of q = Idle"
      using transition_row.recover_paused [of "machine_of job p"] that st paused
      unfolding out by (simp add: outcome_changes_def machine_of_def tick_def terminal_states_def)
    ultimately show ?thesis by blast
  next
    case retry
    let ?ready = "now + retry_backoff (j_retry_count job + 1) (jitter_ms env)"
    have out: "?out = \<lparr>co_state = J_RETRY_WAIT,
        co_changes = (\<lambda>j. j\<lparr>j_recovery_intent := (if ?paused then Some CHECKPOINT_FOR_PAUSE else j_recovery_intent j),
          j_retry_count := j_retry_count job + 1, j_retry_ready_at := Some ?ready,
          j_waiting_reason := Some ''waiting_for_retry''\<rparr>),
        co_attempt = ended_attempt attempt A_FAILED now,
        co_retry = Some \<lparr>rs_job_id = j_job_id job, rs_tenant_id = j_tenant_id job, rs_retry_number = j_retry_count job + 1,
          rs_ready_at = ?ready, rs_jitter_milliseconds = jitter_ms env, rs_reason = ''INFRASTRUCTURE'',
          rs_closed_at = None, rs_created_at = now\<rparr>\<rparr>"
      unfolding recover_outcome_def Let_def if_not_P [OF retry(1)] if_P [OF retry(2)] ..
    have "good_outcome ?out job now"
      unfolding out by (rule good_outcomeI)
        (use st retry des in \<open>cases "j_desired_state job";
          simp add: outcome_changes_def control_ok_def counter_scopes_def terminal_states_def dispatchable_def\<close>)+
    moreover have "transition_row (machine_of job p) (machine_of (logged job False (outcome_changes ?out job now) now) q)"
      if "phase_of p = Quarantined" "phase_of q = Idle"
      using transition_row.recover_retry [of "machine_of job p"] that st retry(2)
      unfolding out by (cases ?paused) (simp_all add: outcome_changes_def machine_of_def tick_def terminal_states_def)
    ultimately show ?thesis by blast
  next
    case failed
    have out: "?out = \<lparr>co_state = J_FAILED, co_changes = id, co_attempt = ended_attempt attempt A_FAILED now,
        co_retry = None\<rparr>"
      unfolding recover_outcome_def Let_def if_not_P [OF failed(1)] if_not_P [OF failed(2)] ..
    have "good_outcome ?out job now"
      unfolding out by (rule good_outcomeI)
        (use st des in \<open>auto simp: outcome_changes_def control_ok_def counter_scopes_def terminal_states_def\<close>)
    moreover have "transition_row (machine_of job p) (machine_of (logged job False (outcome_changes ?out job now) now) q)"
      if "phase_of p = Quarantined" "phase_of q = Idle"
      using transition_row.recover_failed [of "machine_of job p"] that st
      unfolding out by (simp add: outcome_changes_def machine_of_def tick_def terminal_states_def)
    ultimately show ?thesis by blast
  qed
  then show "good_outcome ?out job now"
    "phase_of p = Quarantined \<Longrightarrow> phase_of q = Idle \<Longrightarrow> transition_row (machine_of job p)
      (machine_of (logged job False (outcome_changes ?out job now) now) q)" by blast+
qed

lemma outcome_good:
  assumes out: "outcome_of env db t now = Inr out" and ctl: "control_ok (ct_job t)"
    and st: "j_state (ct_job t) \<in> {J_CANCELLING, J_PAUSING, J_RECOVERING, J_SUCCEEDED}"
    and p: "phase_of p \<noteq> Idle" "j_state (ct_job t) \<in> {J_CANCELLING, J_RECOVERING} \<Longrightarrow> phase_of p = Quarantined"
      "phase_of q = Idle"
  shows "good_outcome out (ct_job t) now \<and> transition_row (machine_of (ct_job t) p)
    (machine_of (logged (ct_job t) False (outcome_changes out (ct_job t) now) now) q)"
proof -
  let ?j = "ct_job t"
  consider "j_state ?j = J_CANCELLING" | "j_state ?j = J_PAUSING" | "j_state ?j = J_RECOVERING" | "j_state ?j = J_SUCCEEDED"
    using st by auto
  then show ?thesis
  proof cases
    case 1
    then have o: "out = \<lparr>co_state = J_CANCELLED, co_changes = id, co_attempt = ended_attempt (ct_attempt t) A_CANCELLED now,
        co_retry = None\<rparr>" using out by (simp add: outcome_of_def)
    have "good_outcome out ?j now"
      unfolding o by (rule good_outcomeI)
        (use 1 ctl in \<open>auto simp: outcome_changes_def control_ok_def counter_scopes_def terminal_states_def\<close>)
    then show ?thesis
      using transition_row.cancelled [of "machine_of ?j p"] p 1
      unfolding o by (simp add: outcome_changes_def machine_of_def tick_def terminal_states_def)
  next
    case 2
    then have o: "out = \<lparr>co_state = J_PAUSED, co_changes = (\<lambda>j. j\<lparr>j_recovery_intent := None, j_waiting_reason := None\<rparr>),
        co_attempt = (\<lambda>a. a\<lparr>a_state := A_CANCELLED, a_failure_reason := Some ''PAUSE'', a_ended_at := Some now,
          a_updated_at := now\<rparr>), co_retry = None\<rparr>" using out by (simp add: outcome_of_def)
    have d: "j_desired_state ?j = D_PAUSED" "j_terminal_at ?j = None"
      using 2 ctl by (simp_all add: control_ok_def terminal_states_def)
    have "good_outcome out ?j now"
      unfolding o by (rule good_outcomeI)
        (use 2 d in \<open>simp_all add: outcome_changes_def control_ok_def counter_scopes_def terminal_states_def keeps_attempt_def\<close>)
    then show ?thesis
      using transition_row.paused [of "machine_of ?j p"] p 2 d
      unfolding o by (simp add: outcome_changes_def machine_of_def tick_def terminal_states_def)
  next
    case 3
    then obtain safe ckpt where "out = recover_outcome env ?j (ct_attempt t) safe ckpt now"
      using out by (auto simp: outcome_of_def res_bind_Inr_iff Let_def)
    then show ?thesis using recover_outcome_good [OF 3 ctl] p 3 by simp
  next
    case 4
    then have o: "out = \<lparr>co_state = J_SUCCEEDED, co_changes = id, co_attempt = id, co_retry = None\<rparr>"
      using out by (simp add: outcome_of_def)
    have "logged ?j False (outcome_changes out ?j now) now = logged ?j False id now"
      using 4 unfolding o by (simp add: outcome_changes_def logged_def terminal_states_def)
    moreover have "good_outcome out ?j now"
      unfolding o by (rule good_outcomeI)
        (use 4 ctl in \<open>simp_all add: outcome_changes_def control_ok_def counter_scopes_def terminal_states_def keeps_attempt_def\<close>)
    ultimately show ?thesis
      using transition_row.release [of "machine_of ?j p"] p 4 by (simp add: machine_of_def tick_def)
  qed
qed

subsection \<open>Release\<close>

lemma retries_ok_outcome:
  assumes good: "good_outcome out j now" and r: "retries_ok j p" and st: "j_state j \<noteq> J_RETRY_WAIT"
    and q: "p_retries q = p_retries p @ (case co_retry out of None \<Rightarrow> [] | Some r \<Rightarrow> [r])"
  shows "retries_ok (logged j False (outcome_changes out j now) now) q"
proof (cases "co_retry out")
  case None
  then have "j_retry_count (outcome_changes out j now j) = j_retry_count j" "co_state out \<noteq> J_RETRY_WAIT"
      "j_max_retries (outcome_changes out j now j) = j_max_retries j"
    using good by (simp_all add: good_outcome_def Let_def)
  then show ?thesis using r st q None by (simp add: retries_ok_def outcome_changes_def [of out j now j])
next
  case (Some s)
  then have g: "j_retry_count (outcome_changes out j now j) = j_retry_count j + 1" "co_state out = J_RETRY_WAIT"
      "j_max_retries (outcome_changes out j now j) = j_max_retries j" "rs_closed_at s = None"
      "rs_retry_number s = j_retry_count j + 1" "j_retry_count j < j_max_retries j"
    using good by (simp_all add: good_outcome_def Let_def)
  have "j_state (outcome_changes out j now j) = J_RETRY_WAIT" using g(2) by (simp add: outcome_changes_def)
  then show ?thesis using r st q Some g upto_snoc [of "j_retry_count j"] by (simp add: retries_ok_def)
qed

lemma release_event:
  assumes inv: "inv db" and t: "ct_attempt t \<in> set (attempts db)" "a_job_id (ct_attempt t) = j_job_id (ct_job t)"
      "ct_allocation t \<in> set (allocations db)" "al_attempt_id (ct_allocation t) = a_attempt_id (ct_attempt t)"
      "al_state (ct_allocation t) \<noteq> S_RELEASED" "ct_job t \<in> set (jobs db)"
      "filter (\<lambda>l. l_attempt_id l = a_attempt_id (ct_attempt t)) (attempt_leases db) = [ct_lease t]"
    and guard: "j_state (ct_job t) \<in> terminal_states \<union> {J_RECOVERING, J_CANCELLING, J_PAUSING}"
    and out: "outcome_of env db0 t now = Inr out"
    and upd: "released_rows db db1 (ct_attempt t) (ct_allocation t) (ct_lease t) (co_attempt out) now
      (case co_retry out of None \<Rightarrow> [] | Some r \<Rightarrow> [r])"
    and shift: "shifted (set (counter_scopes (ct_job t)))
      (if co_state out \<in> terminal_states \<and> j_state (ct_job t) \<notin> terminal_states then - 1 else 0) (- 1)
      (admission_counters db) (admission_counters db1)"
  shows "keeps db (record_event db1 (ct_job t) ac now c e r act ar False (outcome_changes out (ct_job t) now))"
proof -
  let ?j = "ct_job t" and ?a = "ct_attempt t" and ?al = "ct_allocation t" and ?ch = "outcome_changes out (ct_job t) now"
  let ?x = "j_job_id ?j"
  note pr = job_inv_parts [OF inv t(6)]
  have holder: "(\<exists>l g. held_by (part db ?x) ?a ?al l g) \<or> quarantined_by (part db ?x) ?a ?al"
    by (rule unreleased_holder(2) [OF inv t(1,2,3,4,5,6) refl])
  then have "\<not> idle (part db ?x)" and ph: "phase_of (part db ?x) \<noteq> Idle"
    using phase_of_simps(2,3) by (auto simp: idle_def held_by_def quarantined_by_def)
  then have st: "j_state ?j \<in> {J_CANCELLING, J_PAUSING, J_RECOVERING, J_SUCCEEDED}"
    using guard pr(2) by (auto simp: terminal_states_def phase_ok_def)
  have q: "j_state ?j \<in> {J_CANCELLING, J_RECOVERING} \<Longrightarrow> phase_of (part db ?x) = Quarantined"
    using pr(2) phase_of_simps(3) by (auto simp: phase_ok_def)
  have cr: "\<forall>r \<in> set (case co_retry out of None \<Rightarrow> [] | Some r \<Rightarrow> [r]). rs_job_id r = ?x"
    and F: "keeps_attempt (co_attempt out)" and good: "good_outcome out ?j now"
    using outcome_good [OF out pr(3) st ph q, of empty_part]
    by (auto simp: good_outcome_def Let_def phase_of_def unreleased_def split: option.splits)
  note u = released_update [OF inv t(1,2,3,4,5,6) refl t(7) upd F cr]
  have g: "\<And>i. j_job_id (?ch i) = j_job_id i" "counter_scopes (?ch ?j) = counter_scopes ?j" "j_job_fence (?ch ?j) = j_job_fence ?j"
      "j_state (?ch ?j) = co_state out" "co_state out \<in> {J_RETRY_WAIT, J_PAUSED, J_FAILED, J_CANCELLED, J_SUCCEEDED}"
      "co_state out = J_SUCCEEDED \<longleftrightarrow> j_state ?j = J_SUCCEEDED" "control_ok (logged ?j False ?ch now)"
    using good by (auto simp: good_outcome_def Let_def outcome_changes_def)
  have row: "transition_row (machine_of ?j (part db ?x)) (machine_of (logged ?j False ?ch now) (part db1 ?x))"
    using outcome_good [OF out pr(3) st ph q phase_of_simps(1) [OF u(3)]] by blast
  have same: "jobs db1 = jobs db" "events db1 = events db" "results db1 = results db" using upd by (simp_all add: released_rows_def)
  have rs: "retries_ok (logged ?j False ?ch now) (part db1 ?x)"
    by (rule retries_ok_outcome [OF good pr(4) _ u(6)]) (use st in auto)
  have re: "results_ok (logged ?j False ?ch now) (part db1 ?x)" using pr(6) g(4,6) same by (simp add: results_ok_def)
  have ph1: "phase_ok (logged ?j False ?ch now) (part db1 ?x)" by (rule phase_ok_idle [OF u(3)]) (use g(4,5) in auto)
  have n: "(if j_state (?ch ?j) \<in> terminal_states then 0 else 1) = (if j_state ?j \<in> terminal_states then 0 else 1) +
      (if co_state out \<in> terminal_states \<and> j_state ?j \<notin> terminal_states then - 1 else (0 :: int))"
    using g(4,5,6) st by (auto simp: terminal_states_def)
  have "unreleased (part db1 ?x) = []" using u(3) by (simp add: idle_def)
  then show ?thesis
    by (intro event_step [OF inv t(6) same(1,2) u(1,2) g(1,2) shift n _ u(4) [OF pr(1)] ph1 g(7) rs re row])
      (use u(5) g(3) in simp_all)
qed

lemma release_locked_keeps:
  assumes inv: "inv db" and t: "ct_attempt t \<in> set (attempts db)" "a_job_id (ct_attempt t) = j_job_id (ct_job t)"
      "ct_allocation t \<in> set (allocations db)" "al_attempt_id (ct_allocation t) = a_attempt_id (ct_attempt t)"
      "al_state (ct_allocation t) \<noteq> S_RELEASED" "ct_job t \<in> set (jobs db)"
      "filter (\<lambda>l. l_attempt_id l = a_attempt_id (ct_attempt t)) (attempt_leases db) = [ct_lease t]"
    and ids: "a_attempt_id (ct_attempt t) = aid" "al_allocation_id (ct_allocation t) = cq_allocation_id request"
    and guard: "j_state (ct_job t) \<in> terminal_states \<union> {J_RECOVERING, J_CANCELLING, J_PAUSING}"
    and lock: "lock_counters db (counter_scopes (ct_job t)) = Inr ks"
    and rel: "release_locked env db ks t wid aid request now = Inr db'"
  shows "keeps db db'"
proof -
  obtain db1 where d1: "account_locked db now (clk env 2) = Inr db1"
    using rel by (auto simp: release_locked_def res_bind_Inr_iff)
  obtain out where o: "outcome_of env db1 t now = Inr out"
    using rel d1 by (auto simp: release_locked_def res_bind_Inr_iff)
  let ?ends = "co_state out \<in> terminal_states \<and> j_state (ct_job t) \<notin> terminal_states"
  obtain db2 where d2: "adjust_counters (release_rows db1 t aid request out now) ks now (if ?ends then 1 else 0) 1 = Inr db2"
    using rel d1 o by (auto simp: release_locked_def res_bind_Inr_iff Let_def)
  let ?db3 = "if ?ends then extend_retention db2 (j_job_id (ct_job t)) now (terminal_retention_days env) else db2"
  obtain db4 where d4: "rebase_locked ?db3 now (segment_ids env) = Inr db4"
    using rel d1 o d2 by (auto simp: release_locked_def res_bind_Inr_iff Let_def)
  have d5: "db' = record_event (finish_rows db4 t aid request now) (ct_job t) (WORKER wid) now now ''ALLOCATION_RELEASED''
      (Some ''VERIFIED_CLEANUP'') (lower ''ALLOCATION_RELEASED'') (Some ''VERIFIED_CLEANUP'') False
      (outcome_changes out (ct_job t) now)"
    using rel d1 o d2 d4 by (auto simp: release_locked_def Let_def worker_event_def outcome_changes_def [abs_def])
  note fr = charge_frame_tables [OF account_locked_frame [OF d1]]
  have lock1: "lock_counters (release_rows db1 t aid request out now) (counter_scopes (ct_job t)) = Inr ks"
    using lock lock_counters_cong [of "release_rows db1 t aid request out now" db] fr by (simp add: release_rows_def)
  obtain cs where cs: "db2 = (release_rows db1 t aid request out now)\<lparr>admission_counters := cs\<rparr>"
      "shifted (set (counter_scopes (ct_job t))) (- (if ?ends then 1 else 0)) (- 1) (admission_counters db) cs"
    using adjust_locked_Inr [OF lock1 d2 refl] fr by (auto simp: release_rows_def)
  obtain segs where segs: "db4 = ?db3\<lparr>allocation_ledger_segments := segs\<rparr>" using rebase_locked_core [OF d4] by blast
  have core: "same_core db2 ?db3" by simp
  let ?dbf = "finish_rows db4 t aid request now"
  have upd: "released_rows db ?dbf (ct_attempt t) (ct_allocation t) (ct_lease t) (co_attempt out) now
      (case co_retry out of None \<Rightarrow> [] | Some r \<Rightarrow> [r])"
    using core fr ids unfolding released_rows_def same_core_def segs finish_rows_def cs(1)
    by (simp add: release_rows_def)
  have "admission_counters ?dbf = cs" using core unfolding segs finish_rows_def same_core_def cs(1) by simp
  then have shift: "shifted (set (counter_scopes (ct_job t))) (if ?ends then - 1 else 0) (- 1) (admission_counters db)
      (admission_counters ?dbf)"
    using cs(2) by (auto split: if_splits)
  show ?thesis unfolding d5 by (rule release_event [OF inv t guard o upd shift])
qed

lemma cleanup_rows_Inr:
  assumes "cleanup_rows db wid aid request = Inr t"
  shows "filter (\<lambda>a. a_attempt_id a = aid) (attempts db) = [ct_attempt t]"
    "filter (\<lambda>j. j_job_id j = a_job_id (ct_attempt t)) (jobs db) = [ct_job t]"
    "filter (\<lambda>l. l_attempt_id l = aid) (attempt_leases db) = [ct_lease t]"
    "filter (\<lambda>al. al_allocation_id al = cq_allocation_id request) (allocations db) = [ct_allocation t]"
    "al_attempt_id (ct_allocation t) = aid" "a_worker_id (ct_attempt t) = wid" "a_job_fence (ct_attempt t) = cq_job_fence request"
    "container_of db aid = Inr (ct_container t)" "proof_valid (ct_attempt t) (ct_container t) (cq_proof request)"
proof -
  obtain a j l ref lineage where r: "filter (\<lambda>a. a_attempt_id a = aid) (attempts db) = [a]"
      "filter (\<lambda>j. j_job_id j = a_job_id a) (jobs db) = [j]" "filter (\<lambda>l. l_attempt_id l = aid) (attempt_leases db) = [l]"
      "one_or_none (filter (\<lambda>al. al_allocation_id al = cq_allocation_id request) (allocations db)) = Inr ref"
      "cleanup_lineage db wid aid request = Inr lineage"
    using assms unfolding cleanup_rows_def res_bind_Inr_iff one_Inr by blast
  obtain al where al: "ref = Some al" using assms r by (cases ref) (simp_all add: cleanup_rows_def one_def)
  have g: "lineage \<noteq> None" "a_worker_id a = wid" "a_job_fence a = cq_job_fence request" "al_attempt_id al = aid"
    using assms r al by (auto simp: cleanup_rows_def one_def split: if_splits)
  obtain c where c: "container_of db aid = Inr c" using assms r al g by (auto simp: cleanup_rows_def one_def res_bind_Inr_iff)
  have t: "proof_valid a c (cq_proof request)"
      "t = \<lparr>ct_job = j, ct_attempt = a, ct_lease = l, ct_allocation = al, ct_container = c\<rparr>"
    using assms r al g c by (auto simp: cleanup_rows_def one_def split: if_splits)
  show "filter (\<lambda>a. a_attempt_id a = aid) (attempts db) = [ct_attempt t]"
    "filter (\<lambda>j. j_job_id j = a_job_id (ct_attempt t)) (jobs db) = [ct_job t]"
    "filter (\<lambda>l. l_attempt_id l = aid) (attempt_leases db) = [ct_lease t]"
    "filter (\<lambda>al. al_allocation_id al = cq_allocation_id request) (allocations db) = [ct_allocation t]"
    "al_attempt_id (ct_allocation t) = aid" "a_worker_id (ct_attempt t) = wid" "a_job_fence (ct_attempt t) = cq_job_fence request"
    "container_of db aid = Inr (ct_container t)" "proof_valid (ct_attempt t) (ct_container t) (cq_proof request)"
    using r al g c t by (simp_all add: one_or_none_Inr)
qed

lemma store_cleanup_core:
  assumes "store_cleanup_acknowledgment db receipt replay wid cb resp = Inr db'"
  shows "same_core db db'"
proof (cases replay)
  case None
  then show ?thesis using assms complete_callback_core by (simp add: store_cleanup_acknowledgment_def)
next
  case (Some a)
  then show ?thesis
    using assms by (auto simp: store_cleanup_acknowledgment_def same_core_def Let_def split: if_splits)
qed

text \<open>A cleanup report releases its allocation, or leaves the life of the job alone.\<close>

lemma report_cleanup_Inr:
  assumes "report_cleanup env db wid cred aid cb h request = Inr (r, db')"
  obtains (same) "same_core db db'"
  | (release) db1 mode ks t db2 where "same_core db db1" "container_identities db1 = container_identities db"
      "lock_policy_counters db1 aid = Inr (mode, ks)" "cleanup_rows db1 wid aid request = Inr t"
      "al_state (ct_allocation t) \<noteq> S_RELEASED" "cleanup_guard db1 t aid = Inr ()"
      "release_locked env db1 ks t wid aid request (clk env 1) = Inr db2" "same_core db2 db'"
proof -
  obtain receipt replay db1 where b: "begin_callback db (ids env 0) wid ''workerReportCleanup'' cb h = Inr (receipt, replay, db1)"
    using assms by (auto simp: report_cleanup_def res_bind_Inr_iff)
  obtain mode ks where lk: "lock_policy_counters db1 aid = Inr (mode, ks)"
    using assms b by (auto simp: report_cleanup_def res_bind_Inr_iff)
  obtain t where t: "cleanup_rows db1 wid aid request = Inr t"
    using assms b lk by (auto simp: report_cleanup_def res_bind_Inr_iff split: if_splits)
  note core = begin_callback_core [OF b]
  have cont: "container_identities db1 = container_identities db"
    using b by (auto simp: begin_callback_def res_simps split: if_splits option.splits)
  show thesis
  proof (cases "\<not> pred_option (Not \<circ> ack_verified) replay \<or> al_state (ct_allocation t) = S_RELEASED \<or>
      j_state (ct_job t) = J_RECOVERING \<and> a_failure_class (ct_attempt t) = None")
    case True
    then have "same_core db1 db'"
      using assms b lk t by (auto simp: report_cleanup_def res_bind_Inr_iff Let_def
          split: if_splits option.splits dest!: store_cleanup_core complete_callback_core)
    then show thesis using same same_core_trans [OF core] by blast
  next
    case False
    then obtain db2 where "cleanup_guard db1 t aid = Inr ()" "release_locked env db1 ks t wid aid request (clk env 1) = Inr db2"
        "\<exists>resp. store_cleanup_acknowledgment db2 receipt replay wid cb resp = Inr db'"
      using assms b lk t by (auto simp: report_cleanup_def res_bind_Inr_iff Let_def split: if_splits)
    then show thesis using release [OF core cont lk t] False store_cleanup_core by blast
  qed
qed

lemma report_cleanup_keeps:
  assumes "report_cleanup env db wid cred aid cb h request = Inr (r, db')"
  shows "keeps db db'"
  using assms
proof (cases rule: report_cleanup_Inr)
  case same
  then show ?thesis by (rule keeps_core)
next
  case (release db1 mode ks t db2)
  note rows = cleanup_rows_Inr [OF release(4)]
  have "keeps db1 db2"
  proof (rule keepsI)
    assume inv: "inv db1"
    have m: "ct_attempt t \<in> set (attempts db1)" "a_attempt_id (ct_attempt t) = aid" "ct_job t \<in> set (jobs db1)"
        "j_job_id (ct_job t) = a_job_id (ct_attempt t)" "ct_allocation t \<in> set (allocations db1)"
        "al_allocation_id (ct_allocation t) = cq_allocation_id request"
      using filter_singleton [OF rows(1)] filter_singleton [OF rows(2)] filter_singleton [OF rows(4)] by simp_all
    have guard: "j_state (ct_job t) \<in> terminal_states \<union> {J_RECOVERING, J_CANCELLING, J_PAUSING}"
      using release(6) by (auto simp: cleanup_guard_def Let_def split: if_splits)
    have lock: "lock_counters db1 (counter_scopes (ct_job t)) = Inr ks"
      by (rule locked_scopes [OF inv same_core_refl release(3) m(1,2,3)]) (use m(4) in simp)
    show "keeps db1 db2"
      by (rule release_locked_keeps [OF inv m(1) _ m(5) _ release(5) m(3) _ m(2,6) guard lock release(7)])
        (use m rows(3,5) in simp_all)
  qed
  then show ?thesis using keeps_core [OF release(1)] keeps_core [OF release(8)] keeps_trans by blast
qed

subsection \<open>The released allocation\<close>

lemma adjust_counters_frame: "adjust_counters db ks now n m = Inr db' \<Longrightarrow> \<exists>cs. db' = db\<lparr>admission_counters := cs\<rparr>"
  unfolding adjust_counters_def
  by (erule fold_result_invariant [where P = "\<lambda>d. \<exists>cs. d = db\<lparr>admission_counters := cs\<rparr>"])
    (auto simp: adjust_counter_def split: if_splits intro: exI [of _ "admission_counters db"])

lemma release_locked_allocations:
  assumes "release_locked env db ks t wid aid request now = Inr db'"
  shows "allocations db' = update_where (\<lambda>al. al_allocation_id al = cq_allocation_id request)
    (\<lambda>al. al\<lparr>al_state := S_RELEASED, al_released_at := Some now, al_release_reason := Some ''VERIFIED_CLEANUP''\<rparr>)
    (allocations db)"
proof -
  obtain db1 where d1: "account_locked db now (clk env 2) = Inr db1"
    using assms by (auto simp: release_locked_def res_bind_Inr_iff)
  obtain out where o: "outcome_of env db1 t now = Inr out"
    using assms d1 by (auto simp: release_locked_def res_bind_Inr_iff)
  let ?ends = "co_state out \<in> terminal_states \<and> j_state (ct_job t) \<notin> terminal_states"
  obtain db2 where d2: "adjust_counters (release_rows db1 t aid request out now) ks now (if ?ends then 1 else 0) 1 = Inr db2"
    using assms d1 o by (auto simp: release_locked_def res_bind_Inr_iff Let_def)
  let ?db3 = "if ?ends then extend_retention db2 (j_job_id (ct_job t)) now (terminal_retention_days env) else db2"
  obtain db4 where d4: "rebase_locked ?db3 now (segment_ids env) = Inr db4"
    using assms d1 o d2 by (auto simp: release_locked_def res_bind_Inr_iff Let_def)
  have "allocations db' = allocations db4"
    using assms d1 o d2 d4 by (auto simp: release_locked_def Let_def worker_event_def finish_rows_def)
  moreover have "allocations db4 = allocations ?db3" using rebase_locked_core [OF d4] by auto
  moreover have "allocations ?db3 = allocations (release_rows db1 t aid request out now)"
    using adjust_counters_frame [OF d2] by (auto simp: extend_retention_def)
  ultimately show ?thesis
    using charge_frame_tables(3) [OF account_locked_frame [OF d1]] by (simp add: release_rows_def)
qed

end
