(* ===== verification/Lifecycle_Coordinator.thy ===== *)
theory Lifecycle_Coordinator
  imports Lifecycle_Control Lifecycle_Cleanup
begin

section \<open>The coordinator in the life of a job\<close>

text \<open>
  Accounting, quota marks, retry promotion and the commit of a scheduling decision.  A dispatch needs
  identifiers that no row of its tables has.
\<close>

subsection \<open>Accounting and marks\<close>

lemma charge_frame_core: "charge_frame db db' \<Longrightarrow> same_core db db'"
  unfolding charge_frame_def by (auto simp: same_core_def)

lemma account_keeps:
  assumes "account co env db = Inr (b, db')"
  shows "keeps db db'"
proof -
  obtain ls db1 where l: "lock_ledgers db (clk env 1) False = (ls, db1)" by (cases "lock_ledgers db (clk env 1) False")
  note f1 = lock_ledgers_frame [OF l]
  show ?thesis
  proof (cases "frozen db1")
    case True
    then have "db' = db1" using assms l by (auto simp: account_def res_bind_Inr_iff)
    then show ?thesis using keeps_core [OF charge_frame_core [OF f1]] by simp
  next
    case False
    then obtain now where "charge_locked db1 ls now True now = Inr db'"
      using assms l by (auto simp: account_def res_bind_Inr_iff)
    then have "charge_frame db1 db'" by (rule charge_locked_frame)
    then show ?thesis using keeps_core [OF charge_frame_core [OF charge_frame_trans [OF f1]]] by blast
  qed
qed

lemma mark_batch_keeps: "keeps db (snd (mark_batch db tenant blocked now limit))"
proof (rule keepsI)
  assume inv: "inv db"
  have q: "j_state j = J_QUEUED" if j: "j \<in> set (jobs db)" "j_job_id j \<in> set (mark_target db tenant blocked limit)" for j
  proof -
    obtain i where "i \<in> set (jobs db)" "j_job_id i = j_job_id j" "j_state i = J_QUEUED"
      using set_take_subset j(2) unfolding mark_target_def by fastforce
    then show ?thesis using distinct_map_inj [OF inv_distinct_jobs [OF inv]] j(1) by metis
  qed
  show "keeps db (snd (mark_batch db tenant blocked now limit))"
    unfolding mark_batch_def Let_def snd_conv
    by (rule touch_keeps [where p = "\<lambda>j. j_job_id j \<in> set (mark_target db tenant blocked limit)"
          and f = "\<lambda>j. j\<lparr>j_waiting_reason := (if blocked then Some quota_reason else None), j_version := j_version j + 1,
            j_updated_at := now\<rparr>"]) (use q in \<open>simp_all add: same_life_def\<close>)
qed

text \<open>A new version of a counter row counts nothing.\<close>

lemma counter_versions_keep:
  assumes "\<And>k. k_scope (f k) = k_scope k" "\<And>k. k_outstanding (f k) = k_outstanding k"
    "\<And>k. k_active_attempts (f k) = k_active_attempts k"
  shows "keeps db (db\<lparr>admission_counters := update_where p f (admission_counters db)\<rparr>)"
proof -
  let ?db' = "db\<lparr>admission_counters := update_where p f (admission_counters db)\<rparr>"
  have part: "part ?db' = part db" by (intro ext part_cong) simp_all
  have cnt: "counted w ?db' s = counted w db s" for w s unfolding counted_def part by simp
  have sc: "map k_scope (update_where p f (admission_counters db)) = map k_scope (admission_counters db)"
    using assms(1) by (simp add: map_update_where)
  then have im: "k_scope ` set (update_where p f (admission_counters db)) = k_scope ` set (admission_counters db)"
    by (metis set_map)
  have "counters_ok ?db'" if "counters_ok db"
  proof -
    have "k_outstanding k = counted outstanding_of db (k_scope k) \<and> k_active_attempts k = counted active_of db (k_scope k)"
      if "k \<in> set (update_where p f (admission_counters db))" for k
      using that \<open>counters_ok db\<close> assms unfolding set_update_where counters_ok_def by auto
    then show ?thesis using \<open>counters_ok db\<close> unfolding counters_ok_def cnt by (simp add: sc im)
  qed
  moreover have "store_moves db ?db'" by (simp add: store_moves_def part)
  ultimately show ?thesis unfolding keeps_def inv_def part by (simp add: keys_ok_def)
qed

subsection \<open>Retry promotion\<close>

lemma remark_keeps:
  assumes inv: "inv db" and j: "j \<in> set (jobs db)"
  shows "keeps db (record_event db j a now c e r ac ar False id)"
proof -
  note p = job_inv_parts [OF inv j]
  have ok: "phase_ok (logged j False id now) (part db (j_job_id j))"
    using p(2) by (cases "j_state j") (simp_all add: phase_ok_def held_in_def intent_of_def)
  have att: "attempts_ok (logged j False id now) (part db (j_job_id j))" using p(1) by (simp add: attempts_ok_def)
  have ctl: "control_ok (logged j False id now)" using p(3) by simp
  have ret: "retries_ok (logged j False id now) (part db (j_job_id j))" using p(4) by (simp add: retries_ok_def)
  have res: "results_ok (logged j False id now) (part db (j_job_id j))" using p(6) by (simp add: results_ok_def)
  show ?thesis
    by (rule event_step [OF inv j refl refl _ refl _ _ _ _ _ att ok ctl ret res remark_row, where n = 0 and m = 0])
      (use inv in \<open>simp_all add: inv_def\<close>)
qed

lemma retry_blocked_keeps:
  assumes inv: "inv db" and j: "j \<in> set (jobs db)" and st: "j_state j = J_RETRY_WAIT"
  shows "keeps db (record_event db j a now c e r ac ar False (\<lambda>j. j\<lparr>j_waiting_reason := w\<rparr>))"
proof -
  note p = job_inv_parts [OF inv j]
  have "idle (part db (j_job_id j))" using p(2) st by (simp add: phase_ok_def)
  moreover have "transition_row (machine_of j (part db (j_job_id j)))
      (machine_of (logged j False (\<lambda>j. j\<lparr>j_waiting_reason := w\<rparr>) now) (part db (j_job_id j)))"
    using transition_row.remark [of "machine_of j (part db (j_job_id j))"] by (simp add: machine_of_def tick_def)
  moreover have "control_ok (logged j False (\<lambda>j. j\<lparr>j_waiting_reason := w\<rparr>) now)"
    using p(3) by (simp add: control_ok_def)
  moreover have "retries_ok (logged j False (\<lambda>j. j\<lparr>j_waiting_reason := w\<rparr>) now) (part db (j_job_id j))"
    using p(4) by (simp add: retries_ok_def)
  ultimately show ?thesis
    by (intro idle_event [OF inv j, where n = 0]) (use st in \<open>simp_all add: counter_scopes_def\<close>)
qed

lemma retry_ready_keeps:
  assumes inv: "inv db" and j: "j \<in> set (jobs db)" and st: "j_state j = J_RETRY_WAIT"
    and cl: "close_schedule db (j_job_id j) (j_retry_count j) now' = Inr db1"
  shows "keeps db (record_event db1 j a now c e r ac ar False (\<lambda>j. j\<lparr>j_state := J_QUEUED, j_ready_sequence := s,
    j_waiting_reason := w\<rparr>))"
proof -
  let ?ch = "\<lambda>j. j\<lparr>j_state := J_QUEUED, j_ready_sequence := s, j_waiting_reason := w\<rparr>" and ?x = "j_job_id j"
  let ?p = "\<lambda>r. rs_job_id r = ?x \<and> rs_retry_number r = j_retry_count j \<and> rs_closed_at r = None"
  let ?f = "\<lambda>r. r\<lparr>rs_closed_at := Some now'\<rparr>"
  note p = job_inv_parts [OF inv j]
  have idle: "idle (part db ?x)" using p(2) st by (simp add: phase_ok_def)
  have db1: "db1 = db\<lparr>retry_schedules := update_where ?p ?f (retry_schedules db)\<rparr>"
    using cl by (auto simp: close_schedule_def Let_def split: if_splits)
  have rs: "filter (\<lambda>r. rs_job_id r = y) (retry_schedules db1) = update_where ?p ?f (filter (\<lambda>r. rs_job_id r = y) (retry_schedules db))" for y
    unfolding db1 by (simp add: filter_update_where_key)
  have other: "filter (\<lambda>r. rs_job_id r = y) (retry_schedules db1) = filter (\<lambda>r. rs_job_id r = y) (retry_schedules db)"
    if "y \<noteq> ?x" for y
    unfolding rs by (rule update_where_none) (use that in auto)
  have open': "map rs_retry_number (filter (\<lambda>r. rs_closed_at r = None) (p_retries (part db ?x))) = [j_retry_count j]"
    using p(4) st by (simp add: retries_ok_def)
  have "filter (\<lambda>r. rs_closed_at r = None) (update_where ?p ?f (p_retries (part db ?x))) = []"
  proof (rule filter_none_update)
    fix q
    assume q: "q \<in> set (p_retries (part db ?x))" "rs_closed_at q = None"
    then have "rs_retry_number q \<in> set (map rs_retry_number (filter (\<lambda>r. rs_closed_at r = None) (p_retries (part db ?x))))"
      by simp
    then have "rs_retry_number q = j_retry_count j" unfolding open' by simp
    with q show "?p q" by simp
  qed simp
  then have "retries_ok (logged j False ?ch now) (part db1 ?x)"
    using p(4) by (simp add: retries_ok_def rs map_update_where)
  moreover have "control_ok (logged j False ?ch now)" using p(3) st by (simp add: control_ok_def terminal_states_def)
  moreover have "transition_row (machine_of j (part db ?x)) (machine_of (logged j False ?ch now) (part db ?x))"
    using transition_row.backoff_due [of "machine_of j (part db ?x)"] st p(3) by (simp add: machine_of_def tick_def control_ok_def)
  ultimately show ?thesis
    by (intro idle_event [OF inv j idle _ _ _ _ _ _ _ other, where n = 0])
      (use st in \<open>simp_all add: db1 counter_scopes_def terminal_states_def\<close>)
qed

lemma promote_one_keeps:
  assumes "promote_one runs_on inventory ready now holder (db, s, n) x = Inr (db', s', n')"
  shows "keeps db db'"
proof (rule keepsI)
  assume inv: "inv db"
  obtain j where j: "filter (\<lambda>j. j_job_id j = x) (jobs db) = [j]"
    using assms by (auto simp: promote_one_def res_bind_Inr_iff one_Inr)
  have m: "j \<in> set (jobs db)" "j_job_id j = x" using filter_singleton [OF j] by simp_all
  obtain sch where sch: "one_or_none (filter (\<lambda>r. rs_job_id r = x \<and> rs_retry_number r = j_retry_count j) (retry_schedules db)) = Inr sch"
    using assms j by (auto simp: promote_one_def res_bind_Inr_iff one_def)
  show "keeps db db'"
  proof (cases "\<exists>k. sch = Some k \<and> \<not> (rs_closed_at k \<noteq> None \<or> rs_ready_at k > now \<or> j_state j \<noteq> J_RETRY_WAIT \<or>
      (j_desired_state j, j_recovery_intent j) \<notin> dispatchable)")
    case False
    then have "db' = db" using assms j sch by (cases sch) (auto simp: promote_one_def one_def)
    then show ?thesis by (simp add: keeps_core)
  next
    case True
    then obtain k where k: "sch = Some k" "\<not> (rs_closed_at k \<noteq> None \<or> rs_ready_at k > now \<or> j_state j \<noteq> J_RETRY_WAIT \<or>
      (j_desired_state j, j_recovery_intent j) \<notin> dispatchable)" by blast
    then have st: "j_state j = J_RETRY_WAIT" by blast
    have num: "rs_retry_number k = j_retry_count j" using sch k(1) filter_singleton by (fastforce simp: one_or_none_Inr)
    obtain blocked where b: "blocked_reason runs_on db j inventory = Inr blocked"
      using assms j sch k by (auto simp: promote_one_def one_def res_bind_Inr_iff)
    show ?thesis
    proof (cases blocked)
      case (Some reason)
      then have "db' = (if j_waiting_reason j \<noteq> Some reason
         then coordinator_event db (Some j) now holder ''RETRY_BLOCKED'' (Some reason) False
                (\<lambda>j. j\<lparr>j_waiting_reason := Some reason\<rparr>) else db)"
        using assms j sch k b by (simp add: promote_one_def one_def)
      then show ?thesis using retry_blocked_keeps [OF inv m(1) st] by (simp add: coordinator_event_def keeps_core)
    next
      case None
      then obtain db1 where c: "close_schedule db x (j_retry_count j) now = Inr db1"
        using assms j sch k b num by (auto simp: promote_one_def one_def res_bind_Inr_iff)
      then have "db' = coordinator_event db1 (Some j) now holder ''RETRY_READY'' (Some ''BACKOFF_ELAPSED'') False
           (\<lambda>j. j\<lparr>j_state := J_QUEUED, j_ready_sequence := s,
                  j_waiting_reason := (if ready then None else Some ''waiting_for_worker'')\<rparr>)"
        using assms j sch k b num None by (simp add: promote_one_def one_def)
      then show ?thesis using retry_ready_keeps [OF inv m(1) st] c m(2) by (simp add: coordinator_event_def)
    qed
  qed
qed

lemma fold_promote_keeps:
  "fold_result (promote_one runs_on inventory ready now holder) st xs = Inr st' \<Longrightarrow> keeps (fst st) (fst st')"
proof (induction xs arbitrary: st)
  case (Cons x xs)
  then obtain st1 where s: "promote_one runs_on inventory ready now holder st x = Inr st1"
      "fold_result (promote_one runs_on inventory ready now holder) st1 xs = Inr st'"
    by (auto split: sum.splits)
  have "keeps (fst st) (fst st1)" using promote_one_keeps [of runs_on inventory ready now holder] s(1)
    by (cases st; cases st1) auto
  then show ?case using Cons.IH [OF s(2)] keeps_trans by blast
qed (simp add: keeps_core)

lemma promote_due_keeps:
  assumes "promote_due_locked runs_on env db now holder limit = Inr (n, db')"
  shows "keeps db db'"
proof (cases "sort (map j_job_id (retry_candidates db now limit)) = []")
  case True
  then show ?thesis using assms by (simp add: promote_due_locked_def keeps_core)
next
  case False
  obtain k db1 where c: "counter_lock env db GLOBAL = Inr (k, db1)"
    using assms False by (auto simp: promote_due_locked_def Let_def res_bind_Inr_iff)
  obtain ready inventory st where f: "fold_result (promote_one runs_on inventory ready now holder) (db1, k_version k, 0)
        (sort (map j_job_id (retry_candidates db now limit))) = Inr st"
      "db' = (if snd (snd st) \<noteq> 0 then (fst st)\<lparr>admission_counters := update_where (\<lambda>k. k_scope k = GLOBAL)
        (\<lambda>k. k\<lparr>k_version := fst (snd st), k_updated_at := now\<rparr>) (admission_counters (fst st))\<rparr> else fst st)"
    using assms False c
    by (auto simp: promote_due_locked_def Let_def res_bind_Inr_iff case_prod_beta)
  have "keeps db1 (fst st)" using fold_promote_keeps [OF f(1)] by simp
  moreover have "keeps (fst st) db'" unfolding f(2) by (simp add: keeps_core counter_versions_keep)
  ultimately show ?thesis using counter_lock_keeps(1) [OF c] keeps_trans by blast
qed

lemma promote_retries_keeps:
  assumes "promote_retries runs_on co env db = Inr (n, db')"
  shows "keeps db db'"
proof -
  have "db' = db \<or> (\<exists>now. promote_due_locked runs_on env db now (co_holder_id co) retry_batch_size = Inr (n, db'))"
    using assms by (auto simp: promote_retries_def res_bind_Inr_iff split: if_splits)
  then show ?thesis using promote_due_keeps keeps_core by auto
qed

subsection \<open>Dispatch\<close>

definition fresh_dispatch :: "env \<Rightarrow> db \<Rightarrow> bool" where
  "fresh_dispatch env db \<longleftrightarrow> ids env 0 \<notin> a_attempt_id ` set (attempts db) \<and>
     ids env 1 \<notin> al_allocation_id ` set (allocations db) \<and> ids env 2 \<notin> l_lease_id ` set (attempt_leases db) \<and>
     ids env 4 \<notin> g_grant_id ` set (attempt_authority_grants db)"

lemma max_default_upto: "max_default 0 [1..int n] = int n"
proof (cases n)
  case 0
  then show ?thesis by (simp add: max_default_def)
next
  case (Suc m)
  then have "[1..int n] \<noteq> []" "int n \<in> set [1..int n]" by simp_all
  then show ?thesis using max_default_Max [of 0 "[1..int n]"] by (auto intro!: Max_eqI)
qed

lemma next_attempt_number_eq:
  assumes "attempts_ok j (part db x)"
  shows "next_attempt_number db x = int (length (p_attempts (part db x))) + 1"
proof -
  have "map a_attempt_number (filter (\<lambda>a. a_job_id a = x) (attempts db)) = [1..int (length (p_attempts (part db x)))]"
    using assms by (simp add: attempts_ok_def)
  then show ?thesis by (simp only: next_attempt_number_def max_default_upto)
qed

lemma dispatch_rows_held:
  assumes inv: "inv db" and j: "j \<in> set (jobs db)" and idle: "idle (part db (j_job_id j))" and new: "fresh_dispatch env db"
    and db1: "db1 = dispatch_rows env db j w inc sp now ep"
  shows "keys_ok db1" "y \<noteq> j_job_id j \<Longrightarrow> part db1 y = part db y"
    "\<exists>al l g. held_by (part db1 (j_job_id j)) (new_attempt env db j w inc now ep) al l g"
    "j_job_fence i = j_job_fence j + 1 \<Longrightarrow> attempts_ok i (part db1 (j_job_id j))"
    "length (unreleased (part db1 (j_job_id j))) = Suc (length (unreleased (part db (j_job_id j))))"
proof -
  let ?x = "j_job_id j" and ?a = "new_attempt env db j w inc now ep"
  note p = job_inv_parts [OF inv j]
  show "keys_ok db1"
    using inv new by (auto simp: db1 inv_def keys_ok_def dispatch_rows_def Let_def new_attempt_def fresh_dispatch_def)
  show "part db1 y = part db y" if "y \<noteq> ?x"
    using that by (simp add: part_def db1 dispatch_rows_def Let_def new_attempt_def)
  have id: "unreleased (part db ?x) = []" "live_leases (part db ?x) = []" "live_grants (part db ?x) = []"
    using idle by (simp_all add: idle_def)
  have "\<exists>al l g. held_by (part db1 ?x) ?a al l g"
    using id unfolding held_by_def unreleased_def live_leases_def live_grants_def
    by (simp add: db1 dispatch_rows_def Let_def new_attempt_def)
  then show "\<exists>al l g. held_by (part db1 ?x) ?a al l g" .
  then show "length (unreleased (part db1 ?x)) = Suc (length (unreleased (part db ?x)))"
    using id(1) by (auto simp: held_by_def)
  show "attempts_ok i (part db1 ?x)" if i: "j_job_fence i = j_job_fence j + 1"
  proof -
    have a: "p_attempts (part db1 ?x) = p_attempts (part db ?x) @ [?a]"
        "map al_attempt_id (p_allocations (part db1 ?x)) = map al_attempt_id (p_allocations (part db ?x)) @ [ids env 0]"
        "map l_attempt_id (p_leases (part db1 ?x)) = map l_attempt_id (p_leases (part db ?x)) @ [ids env 0]"
        "g_attempt_id ` set (p_grants (part db1 ?x)) = insert (ids env 0) (g_attempt_id ` set (p_grants (part db ?x)))"
        "a_attempt_id ?a = ids env 0" "a_job_fence ?a = j_job_fence j + 1"
        "a_attempt_number ?a = int (length (p_attempts (part db ?x))) + 1"
      using next_attempt_number_eq [OF p(1)] by (auto simp: db1 dispatch_rows_def Let_def new_attempt_def)
    have o: "\<And>r. r \<in> set (p_attempts (part db ?x)) \<Longrightarrow> 1 \<le> a_job_fence r \<and> a_job_fence r \<le> j_job_fence j" "0 \<le> j_job_fence j"
      using p(1) unfolding attempts_ok_def by blast+
    have up: "[1..int (length (p_attempts (part db ?x)))] @ [int (length (p_attempts (part db ?x))) + 1] =
        [1..1 + int (length (p_attempts (part db ?x)))]"
      using upto_snoc [of "int (length (p_attempts (part db ?x)))"] by (simp add: add.commute)
    have o2: "a_job_fence r < j_job_fence j + 1 \<and> a_job_fence r \<le> j_job_fence j + 1" if "r \<in> set (p_attempts (part db ?x))" for r
      using o(1) [OF that] by simp
    show ?thesis
      using p(1) o o2 i unfolding attempts_ok_def a(1-4) map_append set_append sorted_wrt_append
      by (auto simp: a(5-7) up simp del: part_sels)
  qed
qed

lemma dispatch_job_Inr:
  assumes d: "dispatch_job env db w j now ep holder v res = Inr db'"
  obtains spec inc db1 db3 where "sp_job_id spec = j_job_id j" "spec \<in> set (job_specs db)" "w_current_incarnation_id w = Some inc"
      "count_attempt now (dispatch_rows env db j w inc spec now ep) (counter_scopes j) = Inr db1"
      "same_core (coordinator_event db1 (Some j) now holder ''JOB_DISPATCHING'' None False
        (\<lambda>i. i\<lparr>j_state := J_DISPATCHING, j_job_fence := j_job_fence j + 1, j_waiting_reason := None\<rparr>)) db3"
      "rebase_locked db3 now (segment_ids env) = Inr db'"
proof -
  let ?ch = "\<lambda>i. i\<lparr>j_state := J_DISPATCHING, j_job_fence := j_job_fence j + 1, j_waiting_reason := None\<rparr>"
  obtain spec where s: "one (filter (\<lambda>sp. sp_job_id sp = j_job_id j) (job_specs db)) = Inr spec" "sp_gpu_count spec = 0"
    using d by (auto simp: dispatch_job_def res_bind_Inr_iff split: if_splits)
  have sp: "sp_job_id spec = j_job_id j" "spec \<in> set (job_specs db)"
    using s(1) filter_singleton [of "\<lambda>sp. sp_job_id sp = j_job_id j" "job_specs db" spec] by (simp_all add: one_Inr)
  obtain inc where i: "w_current_incarnation_id w = Some inc"
    using d s by (cases "w_current_incarnation_id w") (auto simp: dispatch_job_def split: if_splits)
  obtain db1 where c: "count_attempt now (dispatch_rows env db j w inc spec now ep) (counter_scopes j) = Inr db1"
    using d s i by (auto simp: dispatch_job_def res_bind_Inr_iff split: if_splits)
  let ?db2 = "coordinator_event db1 (Some j) now holder ''JOB_DISPATCHING'' None False ?ch"
  have "rebase_locked (case res of None \<Rightarrow> ?db2
      | Some r \<Rightarrow> if r = [] then ?db2 else invalidate_reservation ?db2 r now ''dispatched'') now (segment_ids env) = Inr db'"
    using d s i c by (auto simp: dispatch_job_def Let_def split: if_splits)
  moreover have "same_core ?db2 (case res of None \<Rightarrow> ?db2
      | Some r \<Rightarrow> if r = [] then ?db2 else invalidate_reservation ?db2 r now ''dispatched'')"
    by (simp add: same_core_def invalidate_reservation_def split: option.split)
  ultimately show thesis using that [OF sp i c] by blast
qed

lemma dispatch_job_keeps:
  assumes inv: "inv db" and j: "j \<in> set (jobs db)" and new: "fresh_dispatch env db"
    and d: "dispatch_job env db w j now ep holder v res = Inr db'"
  shows "keeps db db'"
proof -
  let ?x = "j_job_id j" and ?ch = "\<lambda>i. i\<lparr>j_state := J_DISPATCHING, j_job_fence := j_job_fence j + 1, j_waiting_reason := None\<rparr>"
  have g: "j_state j = J_QUEUED" "(j_desired_state j, j_recovery_intent j) \<in> dispatchable"
    using d by (auto simp: dispatch_job_def split: if_splits)
  obtain spec inc db1 db3 where r: "count_attempt now (dispatch_rows env db j w inc spec now ep) (counter_scopes j) = Inr db1"
      "same_core (coordinator_event db1 (Some j) now holder ''JOB_DISPATCHING'' None False ?ch) db3"
      "rebase_locked db3 now (segment_ids env) = Inr db'"
    by (rule dispatch_job_Inr [OF d]) blast
  note p = job_inv_parts [OF inv j]
  have idle: "idle (part db ?x)" using p(2) g by (simp add: phase_ok_def)
  obtain cs where cs: "db1 = (dispatch_rows env db j w inc spec now ep)\<lparr>admission_counters := cs\<rparr>"
      "shifted (set (counter_scopes j)) 0 1 (admission_counters db) cs"
    using count_attempt_Inr [OF r(1)] by (auto simp: dispatch_rows_def Let_def)
  note h = dispatch_rows_held [OF inv j idle new refl, where w = w and inc = inc and sp = spec and now = now and ep = ep]
  have part1: "part db1 = part (dispatch_rows env db j w inc spec now ep)" unfolding cs(1) by (intro ext part_cong) simp_all
  have keys: "keys_ok db1" using h(1) unfolding cs(1) keys_ok_def by simp
  obtain al l gr where held: "held_by (part db1 ?x) (new_attempt env db j w inc now ep) al l gr" using h(3) part1 by auto
  have same: "jobs db1 = jobs db" "events db1 = events db" "retry_schedules db1 = retry_schedules db" "results db1 = results db"
    by (simp_all add: cs(1) dispatch_rows_def Let_def)
  have ph: "phase_ok (logged j False ?ch now) (part db1 ?x)"
    by (rule phase_ok_held [OF held]) (simp_all add: new_attempt_def intent_of_def)
  have row: "transition_row (machine_of j (part db ?x)) (machine_of (logged j False ?ch now) (part db1 ?x))"
    using transition_row.dispatch [of "machine_of j (part db ?x)"] g phase_of_simps(1) [OF idle] phase_of_simps(2) [OF held]
    by (simp add: machine_of_def tick_def)
  have ok: "control_ok (logged j False ?ch now)" using p(3) g by (simp add: control_ok_def terminal_states_def)
  have rs: "retries_ok (logged j False ?ch now) (part db1 ?x)" using p(4) g same by (simp add: retries_ok_def)
  have re: "results_ok (logged j False ?ch now) (part db1 ?x)" using p(6) g same by (simp add: results_ok_def)
  have "keeps db (record_event db1 j (COORDINATOR holder) now now ''JOB_DISPATCHING'' None ''JOB_DISPATCHING'' None False ?ch)"
    by (rule event_step [OF inv j same(1,2) keys, where n = 0 and m = 1])
      (use h(2,4,5) part1 cs(2) g ph row ok rs re in \<open>simp_all add: cs(1) counter_scopes_def terminal_states_def\<close>)
  then have "keeps db (coordinator_event db1 (Some j) now holder ''JOB_DISPATCHING'' None False ?ch)"
    by (simp add: coordinator_event_def)
  moreover obtain segs where "db' = db3\<lparr>allocation_ledger_segments := segs\<rparr>" using rebase_locked_core [OF r(3)] by blast
  then have "keeps db3 db'" by (simp add: keeps_core same_core_def)
  ultimately show ?thesis using keeps_core [OF r(2)] keeps_trans by blast
qed

lemma apply_decision_keeps:
  assumes inv: "inv db" and job: "\<And>j. job = Some j \<Longrightarrow> j \<in> set (jobs db)" and new: "fresh_dispatch env db"
    and d: "apply_decision env db dec w job now ep holder = Inr db'"
  shows "keeps db db'"
proof -
  have mark: "keeps db (coordinator_event db1 job now holder e r False id)" if core: "same_core db db1" for db1 e r
  proof (cases job)
    case None
    then show ?thesis using keeps_core [OF core] by (simp add: coordinator_event_def)
  next
    case (Some j)
    have "inv db1" "j \<in> set (jobs db1)" using same_core_inv [OF core] inv job [OF Some] core by (simp_all add: same_core_def)
    then show ?thesis
      unfolding Some coordinator_event_def option.case by (rule keeps_trans [OF keeps_core [OF core] remark_keeps])
  qed
  show ?thesis
  proof (cases dec)
    case (Dispatch jid v wk res)
    then obtain j where "job = Some j" using d by (cases job) (simp_all add: apply_decision_def)
    then show ?thesis using d Dispatch dispatch_job_keeps [OF inv job new] by (simp add: apply_decision_def)
  next
    case (InvalidateReservation rid reason)
    then have "db' = coordinator_event (invalidate_reservation db rid now reason) job now holder
        ''RESERVATION_INVALIDATED'' (Some reason) False id" using d by (simp add: apply_decision_def)
    then show ?thesis using mark [of "invalidate_reservation db rid now reason"]
      by (simp add: same_core_def invalidate_reservation_def)
  next
    case (CreateReservation jid tid reason)
    then obtain j where "job = Some j" using d by (cases job) (simp_all add: apply_decision_def)
    then have "db' = coordinator_event (create_reservation env db j now) job now holder
        ''RESERVATION_CREATED'' (Some reason) False id" using d CreateReservation by (simp add: apply_decision_def)
    then show ?thesis using mark [of "create_reservation env db j now"]
      by (simp add: same_core_def create_reservation_def)
  qed (use d in \<open>simp_all add: apply_decision_def keeps_core\<close>)
qed

lemma persist_fairness_core: "persist_fairness_locked db sn now = Inr db' \<Longrightarrow> same_core db db'"
  by (auto simp: persist_fairness_locked_def same_core_def split: option.splits sum.splits)

lemma decision_job_mem: "decision_job db dec = Inr (Some j) \<Longrightarrow> j \<in> set (jobs db)"
  by (auto simp: decision_job_def res_simps split: option.splits if_splits SchedulingDecision.splits
      dest!: filter_singleton)

text \<open>A commit answers why it applied nothing, or applied the decision the policy takes again.\<close>

lemma commit_decision_Inr:
  assumes "commit_decision sn co env db dec = Inr (dec', db')"
  obtains reason where "dec' = NoDecision reason []" "db' = db"
  | worker inventory job db1 db2 fresh where "dec' = dec" "sole_worker db = Inr (Some worker, Some inventory)"
      "operational_mode_of db = NORMAL" "decision_job db dec = Inr job" "worker_is_ready worker (clk env 1)"
      "decide fresh (epoch_ms (clk env 1)) = Inr dec"
      "check_leader co env 0 = Inr (clk env 0)" "check_leader co env 1 = Inr (clk env 1)" "check_leader co env 3 = Inr (clk env 3)"
      "account_locked db (clk env 1) (clk env 2) = Inr db1"
      "persist_fairness_locked db1 fresh (clk env 1) = Inr db2"
      "apply_decision env db2 dec worker job (clk env 1) (co_epoch co) (co_holder_id co) = Inr db'"
      "sn_read sn db inventory (clk env 1) = Inr fresh"
proof -
  have now: "check_leader co env i = Inr t \<Longrightarrow> t = clk env i" for i t
    by (auto simp: check_leader_def leader_def split: option.splits if_splits)
  obtain t0 where t0: "check_leader co env 0 = Inr t0" using assms by (auto simp: commit_decision_def res_bind_Inr_iff)
  obtain w inv where w: "sole_worker db = Inr (w, inv)"
    using assms t0 by (auto simp: commit_decision_def res_bind_Inr_iff)
  show thesis
  proof (cases "inv = None \<or> operational_mode_of db \<noteq> NORMAL")
    case True
    then show thesis using assms t0 w that(1) by (auto simp: commit_decision_def)
  next
    case False
    then obtain iv where iv: "inv = Some iv" by auto
    then obtain worker where worker: "w = Some worker"
      using w by (auto simp: sole_worker_def res_bind_Inr_iff split: list.splits)
    obtain job where job: "decision_job db dec = Inr job"
      using assms t0 w False by (auto simp: commit_decision_def res_bind_Inr_iff)
    obtain t1 where t1: "check_leader co env 1 = Inr t1"
      using assms t0 w False job by (auto simp: commit_decision_def res_bind_Inr_iff)
    have f: "check_leader co env 0 = Inr (clk env 0)" "check_leader co env 1 = Inr (clk env 1)"
      "sole_worker db = Inr (Some worker, Some iv)" "operational_mode_of db = NORMAL" "decision_job db dec = Inr job"
      using t0 t1 now [OF t0] now [OF t1] w iv worker job False by (simp_all del: One_nat_def)
    show thesis
    proof (cases "worker_is_ready worker (clk env 1)")
      case unready: False
      then have "db' = db \<and> (\<exists>reason. dec' = NoDecision reason [])"
        using assms unfolding commit_decision_def Let_def by (auto simp: f simp del: One_nat_def)
      then show thesis using that(1) by blast
    next
      case ready: True
      obtain fresh where fresh: "sn_read sn db iv (clk env 1) = Inr fresh"
        using assms ready unfolding commit_decision_def Let_def
        by (cases "sn_read sn db iv (clk env 1)") (simp_all add: f del: One_nat_def)
      show thesis
      proof (cases "sn_replay_pending sn db fresh \<or> decide fresh (epoch_ms (clk env 1)) \<noteq> Inr dec")
        case True
        then have "db' = db \<and> (\<exists>reason. dec' = NoDecision reason [])"
          using assms ready unfolding commit_decision_def Let_def by (simp add: f fresh del: One_nat_def) (auto split: if_splits)
        then show thesis using that(1) by blast
      next
        case go: False
        have tail: "res_bind (account_locked db (clk env 1) (clk env 2)) (\<lambda>db1.
            res_bind (persist_fairness_locked db1 fresh (clk env 1)) (\<lambda>db2.
            res_bind (apply_decision env db2 dec worker job (clk env 1) (co_epoch co) (co_holder_id co)) (\<lambda>db3.
            res_bind (check_leader co env 3) (\<lambda>_. Inr (dec, db3))))) = Inr (dec', db')"
          using assms go ready unfolding commit_decision_def Let_def by (simp add: f fresh del: One_nat_def)
        obtain db1 where db1: "account_locked db (clk env 1) (clk env 2) = Inr db1"
          using tail by (cases "account_locked db (clk env 1) (clk env 2)") simp_all
        obtain db2 where db2: "persist_fairness_locked db1 fresh (clk env 1) = Inr db2"
          using tail db1 by (cases "persist_fairness_locked db1 fresh (clk env 1)") simp_all
        obtain db3 where db3: "apply_decision env db2 dec worker job (clk env 1) (co_epoch co) (co_holder_id co) = Inr db3"
          using tail db1 db2 by (cases "apply_decision env db2 dec worker job (clk env 1) (co_epoch co) (co_holder_id co)") simp_all
        obtain t3 where t3: "check_leader co env 3 = Inr t3" using tail db1 db2 db3 by (cases "check_leader co env 3") simp_all
        have "dec' = dec" "db' = db3" using tail db1 db2 db3 t3 by simp_all
        then show thesis using that(2) [OF _ f(3,4,5) ready _ f(1,2) _ db1 db2 _ fresh] go db3 t3 now [OF t3] by (simp del: One_nat_def)
      qed
    qed
  qed
qed

lemma commit_decision_keeps:
  assumes "commit_decision sn co env db dec = Inr (dec', db')" and new: "fresh_dispatch env db"
  shows "keeps db db'"
  using assms(1)
proof (cases rule: commit_decision_Inr)
  case (1 reason)
  then show ?thesis by (simp add: keeps_core)
next
  case (2 worker inventory job db1 db2 fresh)
  have core: "same_core db db2"
    using charge_frame_core [OF account_locked_frame [OF 2(10)]] persist_fairness_core [OF 2(11)] same_core_trans by blast
  show ?thesis
  proof (rule keepsI)
    assume "inv db"
    then have inv: "inv db2" using same_core_inv [OF core] by simp
    have "j \<in> set (jobs db2)" if "job = Some j" for j
      using decision_job_mem 2(4) that core by (simp add: same_core_def)
    moreover have "fresh_dispatch env db2" using new core by (simp add: fresh_dispatch_def same_core_def)
    ultimately have "keeps db2 db'" by (rule apply_decision_keeps [OF inv _ _ 2(12)])
    then show "keeps db db'" using keeps_core [OF core] keeps_trans by blast
  qed
qed

end
