(* ===== verification/Snapshot_Facts.thy ===== *)
theory Snapshot_Facts
  imports Window_Reference Lifecycle_Coordinator
begin

section \<open>From the tables to the decision\<close>

text \<open>
  What a decision on a snapshot of the tables says about them.  The lemmas need no assumption on the queue tables: a window only ever offers queued jobs.
\<close>

subsection \<open>Readers only return rows of their query\<close>

definition window_set :: "labelled_row list \<times> queue_row option \<Rightarrow> queue_row set" where
  "window_set w = snd ` set (fst w) \<union> set_option (snd w)"

lemma first_row_mem: "first_row xs = Some x \<Longrightarrow> x \<in> set xs"
  by (cases xs) (simp_all add: first_row_def)

lemma set_take_sort: "set (take n (sort_key k xs)) \<subseteq> set xs"
  using set_take_subset [of n "sort_key k xs"] by simp

lemma first_row_sort_set: "set_option (first_row (sort_key k xs)) \<subseteq> set xs"
  by (cases "sort_key k xs") (simp_all add: first_row_def, metis list.set_intros(1) set_sort)

lemma ready_stream_set: "set (ready_stream p rows) \<subseteq> set rows"
  unfolding ready_stream_def using set_take_sort [of _ ready_key "filter p rows"] by fastforce

lemma merge_streams_set: "(\<And>s. s \<in> set streams \<Longrightarrow> snd ` set s \<subseteq> A) \<Longrightarrow> snd ` set (merge_streams streams) \<subseteq> A"
  unfolding merge_streams_def using set_take_sort [of window_size window_key "concat streams"] by fastforce

lemma resumed_oldest_set: "set_option (resumed_oldest has t rows) \<subseteq> set rows"
proof
  fix r assume "r \<in> set_option (resumed_oldest has t rows)"
  then have "first_row (sort_key age_key (concat (map (\<lambda>priority. take 1 (sort_key ready_key (filter (\<lambda>r. qr_base_priority r = priority \<and>
         qr_eligible_since r \<le> t \<and> has priority) rows))) [0, 1, 2]) @
      take 1 (sort_key (\<lambda>r. (qr_eligible_since r, ready_key r)) (filter (\<lambda>r. qr_eligible_since r > t) rows)))) = Some r"
    by (simp add: resumed_oldest_def)
  from first_row_mem [OF this] show "r \<in> set rows"
    by (auto dest!: in_set_takeD)
qed

lemma window_rows_set: "window_set (window_rows db rows now cursor priorities resume_at tenant users) \<subseteq> set rows"
proof -
  have "window_set (window_fetch db rows now priorities resume_at tenant users c) \<subseteq> set rows" for c
  proof -
    have "snd ` set (merge_streams (map (cursor_branch now c priorities resume_at rows) priority_pairs)) \<subseteq> set rows"
      by (rule merge_streams_set) (auto simp: cursor_branch_def split: if_splits option.splits dest: subsetD [OF ready_stream_set])
    then show ?thesis using resumed_oldest_set first_row_sort_set [of age_key rows]
      unfolding window_set_def window_fetch_def fst_conv snd_conv by (cases resume_at) (simp_all add: Un_subset_iff)
  qed
  then show ?thesis by (simp add: window_rows_def Let_def)
qed

lemma batch_read_set: "window_set (batch_read db now compatible d) \<subseteq> set (descriptor_rows db now compatible d)"
proof -
  let ?rows = "descriptor_rows db now compatible d"
  have "snd ` set (merge_streams (map (\<lambda>(effective, priority). map (Pair effective)
          (ready_stream (\<lambda>r. qr_base_priority r = priority \<and> beyond_group (de_cursor d) effective r \<and>
             batched_age db now d effective priority r) ?rows)) priority_pairs)) \<subseteq> set ?rows"
    by (rule merge_streams_set) (auto dest: subsetD [OF ready_stream_set])
  then have "window_set (batched_window db now compatible d) \<subseteq> set ?rows"
    using resumed_oldest_set first_row_sort_set [of "\<lambda>r. (qr_eligible_since r, ready_key r)" ?rows]
    unfolding window_set_def batched_window_def Let_def fst_conv snd_conv by (cases "de_resume_at d") (simp_all add: Un_subset_iff)
  then show ?thesis by (simp add: batch_read_def window_set_def)
qed

lemma merged_group_set: "window_set (merged_group groups) \<subseteq> \<Union> (window_set ` set groups)"
proof -
  have "set (List.map_filter snd groups) \<subseteq> \<Union> (set_option ` snd ` set groups)"
    by (induction groups) (auto simp: map_filter_simps split: option.split)
  then have "set_option (first_row (sort_key age_key (List.map_filter snd groups))) \<subseteq> \<Union> (set_option ` snd ` set groups)"
    by (rule order.trans [OF first_row_sort_set])
  also have "\<dots> \<subseteq> \<Union> (window_set ` set groups)" by (auto simp: window_set_def)
  finally have o: "set_option (first_row (sort_key age_key (List.map_filter snd groups))) \<subseteq> \<Union> (window_set ` set groups)" .
  have "snd ` set (take window_size (sort_key window_key (concat (map fst groups)))) \<subseteq> snd ` set (concat (map fst groups))"
    by (rule image_mono [OF set_take_sort])
  also have "\<dots> \<subseteq> \<Union> (window_set ` set groups)" by (auto simp: window_set_def)
  finally show ?thesis using o unfolding merged_group_def window_set_def [of "(_, _)"] fst_conv snd_conv by (rule Un_least)
qed

text \<open>A row comes from a queued job of the tenant and its specification.\<close>

definition queued_row :: "db \<Rightarrow> timestamp \<Rightarrow> (string \<times> int) list \<Rightarrow> uuid \<Rightarrow> queue_row \<Rightarrow> bool" where
  "queued_row db now compatible t r \<longleftrightarrow> (\<exists>resume j since sp. r = queue_row_of resume j since sp \<and>
     (j, since, sp) \<in> set (joined_rows db now compatible t))"

lemma queue_rows_queued: "r \<in> set (queue_rows db now compatible t bounds users resume) \<Longrightarrow> queued_row db now compatible t r"
  by (auto simp: queue_rows_def queued_row_def)

lemma tenant_window_queued:
  assumes "r \<in> window_set (tenant_window qt db now compatible pr cursor)"
  shows "queued_row db now compatible (tp_tenant_id (pr_limit pr)) r"
proof -
  let ?t = "tp_tenant_id (pr_limit pr)"
  have query: "queued_row db now compatible ?t r" if "r \<in> set (tenant_query qt db now compatible pr)"
    using that by (auto simp: tenant_query_def Let_def split: if_splits dest: queue_rows_queued)
  have desc: "queued_row db now compatible ?t r" if "r \<in> window_set (batch_read db now compatible d)" "de_tenant_id d = ?t" for d
    using subsetD [OF batch_read_set that(1)] that(2) queue_rows_queued by (auto simp: descriptor_rows_def)
  have group: "queued_row db now compatible ?t r" if r: "r \<in> window_set (merged_group (map (batch_read db now compatible) (group_descriptors qt pr c)))" for c
  proof -
    obtain d where d: "d \<in> set (group_descriptors qt pr c)" "r \<in> window_set (batch_read db now compatible d)"
      using subsetD [OF merged_group_set r] by auto
    have "de_tenant_id d = ?t" using d(1) by (auto simp: group_descriptors_def Let_def)
    with d(2) show ?thesis by (rule desc)
  qed
  have plain: "de_tenant_id (plain_descriptor pr x) = ?t" for x by (simp add: plain_descriptor_def case_prod_beta)
  show ?thesis
    using assms window_rows_set [THEN subsetD, THEN query] desc [OF _ plain] group
    by (auto simp: tenant_window_def grouped_window_def Let_def window_set_def [of "([], None)"] split: if_splits)
qed

lemma reserved_row_queued:
  assumes "reserved_row qt db now compatible pr active = Inr (Some r)"
  obtains r' where "queued_row db now compatible (tp_tenant_id (pr_limit pr)) r'" "r = r' \<or> (\<exists>s. r = r'\<lparr>qr_effective_since := s\<rparr>)"
proof -
  obtain a where a: "active = Some a" using assms by (cases active) (simp_all add: reserved_row_def)
  have "\<not> (pr_users pr = [] \<or> r_tenant_id a \<noteq> tp_tenant_id (pr_limit pr))"
    using assms unfolding reserved_row_def a option.case by (rule contrapos_pn) (simp only: if_True, simp)
  then obtain found where f: "one_or_none (filter (\<lambda>r. qr_job_id r = r_job_id a) (tenant_query qt db now compatible pr)) = Inr found"
    and c: "(case found of None \<Rightarrow> None
           | Some r \<Rightarrow> if length (pr_cells pr) \<le> 1 then Some r
             else (case map snd (filter (\<lambda>(bounds, _). in_cell bounds (qr_cpu_millis r) (qr_memory_bytes r)) (pr_cells pr)) of
                 [] \<Rightarrow> None
               | resumes \<Rightarrow> Some (r\<lparr>qr_effective_since := the (latest (Some (qr_effective_since r) # resumes))\<rparr>))) = Some r"
    using assms unfolding reserved_row_def a option.case by (auto simp: res_bind_Inr_iff)
  obtain row where row: "found = Some row" using c by (cases found) simp_all
  then have r: "r = row \<or> (\<exists>s. r = row\<lparr>qr_effective_since := s\<rparr>)"
    using c by (auto split: if_splits list.splits)
  have a: "filter (\<lambda>r. qr_job_id r = r_job_id a) (tenant_query qt db now compatible pr) = [row]"
    using f row by (simp add: res_simps)
  have "row \<in> set (tenant_query qt db now compatible pr)" using filter_singleton [OF a] by simp
  then have "queued_row db now compatible (tp_tenant_id (pr_limit pr)) row"
    by (auto simp: tenant_query_def Let_def split: if_splits dest: queue_rows_queued)
  then show thesis using r that by blast
qed


subsection \<open>Candidates are queued jobs\<close>

lemma window_candidate_job:
  assumes "candidate_window qt db now compatible active cursors pr = Inr (t, w)" "c \<in> window_candidates w"
  obtains j since sp where "(j, since, sp) \<in> set (joined_rows db now compatible t)" "t = tp_tenant_id (pr_limit pr)"
    "job_id c = j_job_id j" "job_version c = j_version j"
    "resources c = \<lparr>cpu_millis = sp_cpu_millis sp, memory_bytes = sp_memory_bytes sp, gpu_count = sp_gpu_count sp\<rparr>"
    "tenant_active_attempts c = pr_tenant_active pr" "user_active_attempts c = active_attempts_of db (USER t (j_submitter_user_id j))"
proof -
  obtain rows oldest where tw: "tenant_window qt db now compatible pr (cursors (tp_tenant_id (pr_limit pr))) = (rows, oldest)"
    by (cases "tenant_window qt db now compatible pr (cursors (tp_tenant_id (pr_limit pr)))")
  obtain reserved where res: "reserved_row qt db now compatible pr active = Inr reserved"
    using assms(1) tw by (auto simp: candidate_window_def res_bind_Inr_iff)
  have t: "t = tp_tenant_id (pr_limit pr)"
    and w: "w = \<lparr>normal = map (candidate_of db now pr \<circ> snd) rows,
         oldest_eligible = map_option (candidate_of db now pr) (if reserved = None then oldest else reserved),
         continuation_cursor = next_cursor now rows\<rparr>"
    using assms(1) by (simp_all add: candidate_window_def tw res)
  have "\<exists>r r'. c = candidate_of db now pr r \<and> queued_row db now compatible t r' \<and> (r = r' \<or> (\<exists>s. r = r'\<lparr>qr_effective_since := s\<rparr>))"
  proof -
    consider r where "r \<in> snd ` set rows" "c = candidate_of db now pr r"
      | r where "oldest = Some r" "c = candidate_of db now pr r"
      | r where "reserved = Some r" "c = candidate_of db now pr r"
      using assms(2) unfolding w window_candidates_def by (auto split: if_splits)
    then show ?thesis
    proof cases
      case 3
      then show ?thesis using reserved_row_queued [OF res [unfolded 3(1)]] t by metis
    qed (use tenant_window_queued [of _ qt db now compatible pr "cursors (tp_tenant_id (pr_limit pr))"] t tw in
        \<open>auto simp: window_set_def\<close>)
  qed
  then obtain r r' where r: "c = candidate_of db now pr r" "queued_row db now compatible t r'"
    "r = r' \<or> (\<exists>s. r = r'\<lparr>qr_effective_since := s\<rparr>)" by blast
  then obtain resume j since sp where j: "r' = queue_row_of resume j since sp" "(j, since, sp) \<in> set (joined_rows db now compatible t)"
    by (auto simp: queued_row_def)
  have "qr_job_id r = j_job_id j \<and> qr_version r = j_version j \<and> qr_submitter_user_id r = j_submitter_user_id j \<and>
      qr_cpu_millis r = sp_cpu_millis sp \<and> qr_memory_bytes r = sp_memory_bytes sp \<and> qr_gpu_count r = sp_gpu_count sp"
    using r(3) by (auto simp: j(1) queue_row_of_def)
  then show thesis using that [OF j(2) t] r(1) t by (simp add: candidate_of_def)
qed

lemma traverse_mem: "traverse f xs = Inr ys \<Longrightarrow> y \<in> set ys \<Longrightarrow> \<exists>x \<in> set xs. f x = Inr y"
  by (induction xs arbitrary: ys) (auto simp: res_bind_Inr_iff)

lemma read_snapshot_Inr:
  assumes "read_snapshot runs_on qt db now inventory cursors pending quota_bytes = Inr s"
  obtains active where "one_or_none (filter (\<lambda>r. r_invalidated_at r = None) (reservations db)) = Inr active"
    "traverse (\<lambda>p. candidate_window qt db now (compatible_templates runs_on db inventory) active cursors
        (prepare_tenant qt db (snapshot_capacity inventory) pending p)) (sort_key tp_tenant_id (tenant_policies db)) = Inr (candidates_by_tenant s)"
    "allocatable_capacity s = snapshot_capacity inventory" "held_allocations s = snapshot_held db"
    "tenant_limits s = snapshot_limits qt quota_bytes (sort_key tp_tenant_id (tenant_policies db))"
    "policy_version s = pv_policy_version (policy db)"
proof -
  obtain active where a: "one_or_none (filter (\<lambda>r. r_invalidated_at r = None) (reservations db)) = Inr active"
    using assms by (auto simp: read_snapshot_def Let_def res_bind_Inr_iff)
  obtain windows where w: "traverse (\<lambda>p. candidate_window qt db now (compatible_templates runs_on db inventory) active cursors
        (prepare_tenant qt db (snapshot_capacity inventory) pending p)) (sort_key tp_tenant_id (tenant_policies db)) = Inr windows"
    using assms a by (auto simp: read_snapshot_def Let_def res_bind_Inr_iff split: if_splits)
  show thesis
    using assms that [OF a] w by (auto simp: read_snapshot_def Let_def a w split: if_splits sum.splits)
qed

lemma foldl_resources_sum:
  "foldl add_resources a rs = \<lparr>cpu_millis = cpu_millis a + sum_list (map cpu_millis rs),
     memory_bytes = memory_bytes a + sum_list (map memory_bytes rs), gpu_count = gpu_count a + sum_list (map gpu_count rs)\<rparr>"
  by (induction rs arbitrary: a) (simp_all add: add_resources_def)

lemma snapshot_allocated:
  assumes "held_allocations s = snapshot_held db"
  shows "cpu_millis (allocated s) = sum_list (map al_cpu_millis (unreleased_rows db))"
    "memory_bytes (allocated s) = sum_list (map al_memory_bytes (unreleased_rows db))"
    "cpu_millis (allocated_to s t) = held_sum al_cpu_millis db t"
    "memory_bytes (allocated_to s t) = held_sum al_memory_bytes db t"
proof -
  have "filter (\<lambda>a. alloc_tenant_id a = t) (snapshot_held db) = map (\<lambda>al. \<lparr>alloc_id = al_allocation_id al, alloc_tenant_id = al_tenant_id al,
       alloc_resources = \<lparr>cpu_millis = al_cpu_millis al, memory_bytes = al_memory_bytes al, gpu_count = al_gpu_count al\<rparr>,
       gpu_uuids = sort (map gc_gpu_uuid (filter (\<lambda>g. gc_released_at g = None \<and> gc_allocation_id g = al_allocation_id al)
         (allocation_gpu_claims db))),
       alloc_state = (if al_state al = S_HELD then HELD else QUARANTINED)\<rparr>)
     (filter (\<lambda>al. al_tenant_id al = t \<and> al_state al \<noteq> S_RELEASED) (allocations db))" for t
    by (simp add: snapshot_held_def unreleased_rows_def filter_map comp_def conj_commute)
  then show "cpu_millis (allocated_to s t) = held_sum al_cpu_millis db t" "memory_bytes (allocated_to s t) = held_sum al_memory_bytes db t"
    by (simp_all add: allocated_to_def assms foldl_resources_sum zero_resources_def held_sum_def comp_def)
  show "cpu_millis (allocated s) = sum_list (map al_cpu_millis (unreleased_rows db))"
    "memory_bytes (allocated s) = sum_list (map al_memory_bytes (unreleased_rows db))"
    by (simp_all add: allocated_def assms foldl_resources_sum zero_resources_def snapshot_held_def comp_def)
qed

text \<open>A dispatch decided on a snapshot of the tables.\<close>

lemma snapshot_dispatch:
  assumes read: "read_snapshot runs_on qt db now inventory cursors pending quota_bytes = Inr s"
    and dec: "decide s now_ms = Inr (Dispatch jid v pv rid)"
  obtains j sp p where "j \<in> set (jobs db)" "j_job_id j = jid" "j_state j = J_QUEUED" "j_version j = v"
    "sp \<in> set (job_specs db)" "sp_job_id sp = jid" "p \<in> set (tenant_policies db)" "tp_tenant_id p = j_tenant_id j"
    "sum_list (map al_cpu_millis (unreleased_rows db)) + sp_cpu_millis sp \<le> iv_allocatable_cpu_millis inventory"
    "sum_list (map al_memory_bytes (unreleased_rows db)) + sp_memory_bytes sp \<le> iv_allocatable_memory_bytes inventory"
    "held_sum al_cpu_millis db (tp_tenant_id p) + sp_cpu_millis sp \<le> tp_cpu_limit_millis p"
    "held_sum al_memory_bytes db (tp_tenant_id p) + sp_memory_bytes sp \<le> tp_memory_limit_bytes p"
    "active_attempts_of db (TENANT (tp_tenant_id p)) < tp_tenant_active_limit p"
    "active_attempts_of db (USER (tp_tenant_id p) (j_submitter_user_id j)) < tp_user_active_limit p"
    "(sp_template_id sp, sp_template_version sp) \<in> set (compatible_templates runs_on db inventory)"
proof -
  obtain active where r: "traverse (\<lambda>p. candidate_window qt db now (compatible_templates runs_on db inventory) active cursors
        (prepare_tenant qt db (snapshot_capacity inventory) pending p)) (sort_key tp_tenant_id (tenant_policies db)) = Inr (candidates_by_tenant s)"
    "allocatable_capacity s = snapshot_capacity inventory" "held_allocations s = snapshot_held db"
    "tenant_limits s = snapshot_limits qt quota_bytes (sort_key tp_tenant_id (tenant_policies db))"
    using read_snapshot_Inr [OF read] by metis
  obtain t w c where c: "(t, w) \<in> set (candidates_by_tenant s)" "c \<in> window_candidates w" "job_id c = jid" "job_version c = v"
    "fits (add_resources (allocated s) (resources c)) (allocatable_capacity s)"
    "fits (add_resources (allocated_to s t) (resources c)) (resource_quota (limit_of s t))"
    "tenant_active_attempts c < max_active_attempts (limit_of s t)" "user_active_attempts c < max_user_active_attempts (limit_of s t)"
    using dispatched_candidate [OF dec] by blast
  obtain p where p: "p \<in> set (tenant_policies db)" "candidate_window qt db now (compatible_templates runs_on db inventory) active cursors
        (prepare_tenant qt db (snapshot_capacity inventory) pending p) = Inr (t, w)"
    using traverse_mem [OF r(1) c(1)] by auto
  obtain j since sp where j: "(j, since, sp) \<in> set (joined_rows db now (compatible_templates runs_on db inventory) t)" "t = tp_tenant_id p"
    "job_id c = j_job_id j" "job_version c = j_version j"
    "resources c = \<lparr>cpu_millis = sp_cpu_millis sp, memory_bytes = sp_memory_bytes sp, gpu_count = sp_gpu_count sp\<rparr>"
    "tenant_active_attempts c = active_attempts_of db (TENANT t)" "user_active_attempts c = active_attempts_of db (USER t (j_submitter_user_id j))"
    by (rule window_candidate_job [OF p(2) c(2)]) (auto simp: prepare_tenant_def Let_def)
  have "distinct (map limit_tenant_id (tenant_limits s))" using dec by (simp add: decide_Inr wf_snapshot_def)
  moreover define l where "l = hd (snapshot_limits qt quota_bytes [p])"
  moreover have "l \<in> set (tenant_limits s)" unfolding r(4) l_def using p(1) by (simp add: snapshot_limits_def)
  ultimately have "limit_of s t = l" using limit_dict_the [of l s] j(2) by (simp add: limit_of_def snapshot_limits_def)
  then have l: "resource_quota (limit_of s t) = \<lparr>cpu_millis = tp_cpu_limit_millis p, memory_bytes = tp_memory_limit_bytes p, gpu_count = tp_gpu_limit p\<rparr>"
    "max_active_attempts (limit_of s t) = tp_tenant_active_limit p" "max_user_active_attempts (limit_of s t) = tp_user_active_limit p"
    by (simp_all add: l_def snapshot_limits_def)
  have mem: "(sp_template_id sp, sp_template_version sp) \<in> set (compatible_templates runs_on db inventory)"
    using j(1) by (auto simp: joined_rows_def split: option.splits)
  show thesis
    by (rule that [of j sp p]) (use joined_rows_mem [OF j(1)] j(2-7) c(3-8) l r(2) snapshot_allocated [OF r(3)] p(1) mem in
      \<open>simp_all add: fits_def add_resources_def snapshot_capacity_def\<close>)
qed

end
