(* ===== verification/System.thy ===== *)
theory System
  imports Lifecycle_Coordinator
begin

section \<open>The system of all transactions\<close>

text \<open>
  One rule for each transaction that writes a table of the job life cycle; PostgreSQL runs them one
  after another under the row locks they take, and an error rolls its transaction back.  The rule
  \<open>child\<close> is the admission of a sweep's job (\<^verbatim>\<open>sweep_service.py\<close>), and \<open>elsewhere\<close> any transaction of the
  other services: they write other tables, and of jobs only columns beside the life cycle, such as
  \<^verbatim>\<open>eligible_since\<close> (\<^verbatim>\<open>eligibility.py\<close>).  Primary keys make the identifiers a transaction inserts new.
\<close>

inductive transaction :: "db \<Rightarrow> db \<Rightarrow> bool" where
  submit: "submit sv env db caller tenant spec key h = Inr (r, db') \<Longrightarrow> ids env 0 \<notin> j_job_id ` set (jobs db) \<Longrightarrow>
    transaction db db'"
| retry: "retry_failed_job sv revalidate env db caller request checkpoint scan = Inr (r, db') \<Longrightarrow>
    ids env 0 \<notin> j_job_id ` set (jobs db) \<Longrightarrow> transaction db db'"
| child: "admit sv env db live tenant check = Inr (tp, counter, db1) \<Longrightarrow>
    create_job sv env db1 live tenant x session spec tp counter None er act ar = Inr db' \<Longrightarrow>
    x \<notin> j_job_id ` set (jobs db) \<Longrightarrow> transaction db db'"
| cancel: "cancel_job sv env db caller request = Inr (r, db') \<Longrightarrow> transaction db db'"
| pause: "pause_job sv env db caller request = Inr (r, db') \<Longrightarrow> transaction db db'"
| resume: "resume_job sv compatible env db caller request = Inr (r, db') \<Longrightarrow> transaction db db'"
| commit: "commit_decision sn co env db dec = Inr (dec', db') \<Longrightarrow> fresh_dispatch env db \<Longrightarrow> transaction db db'"
| reap: "reap_lease co env db lease = Inr (b, db') \<Longrightarrow> transaction db db'"
| promote: "promote_retries runs_on co env db = Inr (n, db') \<Longrightarrow> transaction db db'"
| mark: "mark_batch db tenant blocked now limit = (n, db') \<Longrightarrow> transaction db db'"
| account: "account co env db = Inr (b, db') \<Longrightarrow> transaction db db'"
| renew: "renew_attempt env db w cred aid cb h au seq progress = Inr (a, db') \<Longrightarrow> transaction db db'"
| adopt: "adopt_attempt env db w cred aid cb h adoption = Inr (a, db') \<Longrightarrow>
    ids env 1 \<notin> g_grant_id ` set (attempt_authority_grants db) \<Longrightarrow> transaction db db'"
| claim: "claim_attempt env db scan' cred aid cb h au = Inr (a, db') \<Longrightarrow> transaction db db'"
| start: "start_attempt env db cred aid cb h started_request = Inr (a, db') \<Longrightarrow> transaction db db'"
| reserve_result: "reserve_result env db cred aid cb h au = Inr (a, db') \<Longrightarrow> transaction db db'"
| complete: "complete_attempt env db vd prefetched cred aid cb h completion = Inr (a, db') \<Longrightarrow> transaction db db'"
| reserve_checkpoint: "reserve_checkpoint env db cred aid cb h au = Inr (a, db') \<Longrightarrow> transaction db db'"
| publish: "publish_checkpoint env db kv prefetched' cred aid cb h publication = Inr (a, db') \<Longrightarrow> transaction db db'"
| fail: "fail_attempt env db w cred aid cb h failure = Inr (a, db') \<Longrightarrow> transaction db db'"
| cleanup: "report_cleanup env db w cred aid cb h cleanup_req = Inr (a, db') \<Longrightarrow> transaction db db'"
| drain: "drain_worker sv env db caller wreq = Inr (r, db') \<Longrightarrow> transaction db db'"
| disable: "disable_worker sv env db caller wreq = Inr (r, db') \<Longrightarrow> transaction db db'"
| enable: "enable_worker ready sv env db caller wreq = Inr (r, db') \<Longrightarrow> transaction db db'"
| elsewhere: "same_core (db\<lparr>jobs := map f (jobs db)\<rparr>) db' \<Longrightarrow>
    (\<And>j. same_life j (f j) \<and> j_version (f j) = j_version j) \<Longrightarrow> transaction db db'"

definition empty_store :: "db \<Rightarrow> bool" where
  "empty_store db \<longleftrightarrow> jobs db = [] \<and> attempts db = [] \<and> allocations db = [] \<and> attempt_leases db = [] \<and>
     attempt_authority_grants db = [] \<and> events db = [] \<and> retry_schedules db = [] \<and> results db = [] \<and>
     admission_counters db = []"

inductive reachable :: "db \<Rightarrow> bool" where
  init: "empty_store db \<Longrightarrow> reachable db"
| step: "reachable db \<Longrightarrow> transaction db db' \<Longrightarrow> reachable db'"

subsection \<open>Every transaction keeps the invariant\<close>

lemma child_keeps:
  assumes "admit sv env db live tenant check = Inr (tp, counter, db1)"
    "create_job sv env db1 live tenant x session spec tp counter None er act ar = Inr db'" "x \<notin> j_job_id ` set (jobs db)"
  shows "keeps db db'"
proof -
  note a = admit_keeps [OF assms(1)]
  have "keeps db1 db'" by (rule create_job_keeps [OF assms(2) _ a(3)]) (use assms(3) a(2) in simp)
  then show ?thesis using a(1) keeps_trans by blast
qed

lemma elsewhere_keeps:
  assumes "same_core (db\<lparr>jobs := map f (jobs db)\<rparr>) db'" "\<And>j. same_life j (f j) \<and> j_version (f j) = j_version j"
  shows "keeps db db'"
proof -
  have "keeps db (db\<lparr>jobs := map f (jobs db)\<rparr>)"
    by (rule touch_keeps [where p = "\<lambda>_. True" and f = f]) (use assms(2) in \<open>simp_all add: update_where_def\<close>)
  then show ?thesis using keeps_core [OF assms(1)] keeps_trans by blast
qed

lemma transaction_keeps: "transaction db db' \<Longrightarrow> keeps db db'"
proof (induction rule: transaction.induct)
  case (mark db tenant blocked now limit n db')
  then show ?case using mark_batch_keeps [of db tenant blocked now limit] by simp
qed (rule submit_keeps retry_failed_job_keeps child_keeps cancel_job_keeps pause_job_keeps resume_job_keeps
    commit_decision_keeps reap_lease_keeps promote_retries_keeps account_keeps renew_attempt_keeps adopt_attempt_keeps
    claim_attempt_keeps start_attempt_keeps reserve_result_keeps complete_attempt_keeps reserve_checkpoint_keeps
    publish_checkpoint_keeps fail_attempt_keeps report_cleanup_keeps drain_worker_keeps disable_worker_keeps
    enable_worker_keeps elsewhere_keeps; assumption)+

lemma empty_store_inv: "empty_store db \<Longrightarrow> inv db"
  by (simp add: empty_store_def inv_def keys_ok_def part_inv_def part_def empty_part_def counters_ok_def)

lemma reachable_inv: "reachable db \<Longrightarrow> inv db"
proof (induction rule: reachable.induct)
  case (init db)
  then show ?case by (rule empty_store_inv)
next
  case (step db db')
  then show ?case using transaction_keeps [OF step.hyps(2)] by (simp add: keeps_def)
qed

lemma transaction_moves:
  assumes "reachable db" "transaction db db'"
  shows "store_moves db db'"
  using transaction_keeps [OF assms(2)] reachable_inv [OF assms(1)] by (simp add: keeps_def)

lemma transactions_moves:
  assumes "transaction\<^sup>*\<^sup>* db db'" "reachable db"
  shows "reachable db' \<and> store_moves db db'"
  using assms
proof (induction rule: rtranclp_induct)
  case (step y z)
  then have "store_moves y z" using transaction_moves by blast
  then show ?case using step reachable.step store_moves_trans by blast
qed simp

lemma job_abstract:
  assumes "reachable db" "j \<in> set (jobs db)"
  shows "abstract (part db (j_job_id j)) = Some (machine_of j (part db (j_job_id j)))"
  using inv_job(1) [OF reachable_inv [OF assms(1)] assms(2)] by (simp add: abstract_def)

text \<open>A job survives, and its machine moves along the table.\<close>

lemma job_moves:
  assumes "transaction\<^sup>*\<^sup>* db db'" "reachable db" "j \<in> set (jobs db)"
  obtains j' where "j' \<in> set (jobs db')" "j_job_id j' = j_job_id j"
    "transition_row\<^sup>*\<^sup>* (machine_of j (part db (j_job_id j))) (machine_of j' (part db' (j_job_id j)))"
proof -
  let ?x = "j_job_id j"
  have "moves (Some (machine_of j (part db ?x))) (abstract (part db' ?x))"
    using transactions_moves [OF assms(1,2)] job_abstract [OF assms(2,3)] unfolding store_moves_def by metis
  then obtain m where m: "abstract (part db' ?x) = Some m" "transition_row\<^sup>*\<^sup>* (machine_of j (part db ?x)) m"
    by (cases "abstract (part db' ?x)") (simp_all add: moves_def)
  then obtain j' where j': "p_jobs (part db' ?x) = [j']" "m = machine_of j' (part db' ?x)"
    by (auto simp: abstract_def split: list.splits)
  then have "j' \<in> set (p_jobs (part db' ?x))" by (metis list.set_intros(1))
  then show thesis using that [of j'] j'(2) m(2) by simp
qed

end
