(* ===== verification/Request_Properties.thy ===== *)
theory Request_Properties
  imports Job_Control "HOL-Library.Multiset"
begin

section \<open>Properties of requests\<close>

text \<open>
  What the guards of a request promise: the entity tags name versions exactly, a repeated request is
  answered from its record, tokens never widen the authority of their issuer, the token buckets
  bound a burst, and the lineage and order of the checkpoints a retry may restore.
\<close>

subsection \<open>Decimal numerals\<close>

lemma of_char_digit: "n < 10 \<Longrightarrow> (of_char (digit n) :: nat) = 48 + n"
  by (simp add: digit_def)

lemma digit_facts: "n < 10 \<Longrightarrow> is_digit (digit n)" "n < 10 \<Longrightarrow> digit_value (digit n) = n"
  by (simp_all add: is_digit_def digit_value_def of_char_digit)

lemma digit_of_value: "is_digit c \<Longrightarrow> digit (digit_value c) = c" "is_digit c \<Longrightarrow> digit_value c < 10"
  by (auto simp: is_digit_def digit_value_def digit_def)

lemma digit_0: "digit 0 = CHR ''0''"
  by code_simp

lemma digit_zero: "n < 10 \<Longrightarrow> digit n = CHR ''0'' \<longleftrightarrow> n = 0"
  using digit_facts(2) [of n] digit_facts(2) [of 0] digit_0 by auto

lemma parse_digits_snoc [simp]: "parse_digits (ds @ [c]) = parse_digits ds * 10 + digit_value c"
  by (simp add: parse_digits_def)

lemma parse_digits_Nil [simp]: "parse_digits [] = 0"
  by (simp add: parse_digits_def)

lemma show_nat_digits: "list_all is_digit (show_nat n)"
proof (induction n rule: less_induct)
  case (less n)
  show ?case
  proof (cases "n < 10")
    case False
    then have "list_all is_digit (show_nat (n div 10))" by (intro less) simp
    with False show ?thesis by (subst show_nat.simps) (simp add: digit_facts)
  qed (subst show_nat.simps, simp add: digit_facts)
qed

lemma show_nat_parse: "parse_digits (show_nat n) = n"
proof (induction n rule: less_induct)
  case (less n)
  show ?case
  proof (cases "n < 10")
    case True
    then show ?thesis by (subst show_nat.simps) (simp add: parse_digits_def digit_facts)
  next
    case False
    then have "parse_digits (show_nat (n div 10)) = n div 10" by (intro less) simp
    with False show ?thesis by (subst show_nat.simps) (simp add: digit_facts)
  qed
qed

lemma show_nat_nonempty: "show_nat n \<noteq> []"
  by (subst show_nat.simps) simp

lemma show_nat_hd: "1 \<le> n \<Longrightarrow> hd (show_nat n) \<noteq> CHR ''0''"
proof (induction n rule: less_induct)
  case (less n)
  show ?case
  proof (cases "n < 10")
    case True
    with less.prems show ?thesis by (subst show_nat.simps) (simp add: digit_zero)
  next
    case False
    then have "hd (show_nat (n div 10)) \<noteq> CHR ''0''" by (intro less) simp_all
    with False show ?thesis by (subst show_nat.simps) (simp add: show_nat_nonempty)
  qed
qed

lemma parse_digits_pos: "ds \<noteq> [] \<Longrightarrow> list_all is_digit ds \<Longrightarrow> hd ds \<noteq> CHR ''0'' \<Longrightarrow> 1 \<le> parse_digits ds"
proof (induction ds rule: rev_induct)
  case (snoc c ds)
  show ?case
  proof (cases "ds = []")
    case True
    then have "digit_value c \<noteq> 0" using snoc.prems digit_of_value(1) [of c] digit_0 by (intro notI) auto
    with True show ?thesis by (simp add: parse_digits_def)
  next
    case False
    then show ?thesis using snoc by simp
  qed
qed simp

lemma parse_show: "ds \<noteq> [] \<Longrightarrow> list_all is_digit ds \<Longrightarrow> hd ds \<noteq> CHR ''0'' \<Longrightarrow> show_nat (parse_digits ds) = ds"
proof (induction ds rule: rev_induct)
  case (snoc c ds)
  have c: "digit_value c < 10" "digit (digit_value c) = c" using snoc.prems digit_of_value [of c] by simp_all
  show ?case
  proof (cases "ds = []")
    case True
    with c show ?thesis by (subst show_nat.simps) (simp add: parse_digits_def)
  next
    case False
    then have ds: "show_nat (parse_digits ds) = ds" "1 \<le> parse_digits ds"
      using snoc parse_digits_pos by simp_all
    have "\<not> parse_digits ds * 10 + digit_value c < 10" "(parse_digits ds * 10 + digit_value c) div 10 = parse_digits ds"
      "(parse_digits ds * 10 + digit_value c) mod 10 = digit_value c" using ds(2) c(1) by simp_all
    then show ?thesis unfolding parse_digits_snoc by (subst show_nat.simps) (simp add: ds c)
  qed
qed simp

lemma length_show_nat: "0 < d \<Longrightarrow> length (show_nat n) \<le> d \<longleftrightarrow> n < 10 ^ d"
proof (induction d arbitrary: n rule: nat_induct_non_zero)
  case 1
  then show ?case
    by (subst show_nat.simps) (simp add: show_nat_nonempty)
next
  case (Suc d)
  show ?case
  proof (cases "n < 10")
    case True
    moreover have "n < 10 ^ Suc d" using True by (rule less_le_trans) simp
    ultimately show ?thesis by (subst show_nat.simps) simp
  next
    case False
    have "n div 10 < 10 ^ d \<longleftrightarrow> n < 10 ^ Suc d" by (simp add: div_less_iff_less_mult mult.commute)
    then show ?thesis using False Suc.IH by (subst show_nat.simps) simp
  qed
qed

subsection \<open>Entity tags\<close>

lemma etag_digits_iff:
  "etag_digits s = Some ds \<longleftrightarrow> s = [quote, CHR ''v''] @ ds @ [quote] \<and> ds \<noteq> [] \<and> list_all is_digit ds \<and> hd ds \<noteq> CHR ''0''"
  (is "?l \<longleftrightarrow> ?r")
proof
  assume ?l
  then show ?r
    unfolding etag_digits_def Let_def
    by (auto split: list.splits if_splits) (metis append_butlast_last_id)+
next
  assume ?r
  then show ?l by (simp add: etag_digits_def)
qed

lemma etag_digits_etag: "1 \<le> v \<Longrightarrow> etag_digits (etag v) = Some (show_nat (nat v))"
  by (simp add: etag_digits_iff etag_def show_nat_nonempty show_nat_digits show_nat_hd)

lemma max_digits_pos: "0 < int_max_str_digits"
  by (simp add: int_max_str_digits_def)

lemma version_digits:
  "0 \<le> v \<Longrightarrow> length (show_nat (nat v)) \<le> int_max_str_digits \<longleftrightarrow> v < 10 ^ int_max_str_digits"
  using length_show_nat [OF max_digits_pos, of "nat v"] by (simp add: nat_less_iff)

lemma resolve_etag:
  "1 \<le> v \<Longrightarrow> v < 10 ^ int_max_str_digits \<Longrightarrow> resolve_expected_version (VersionPrecondition (Some (etag v))) = Inr v"
  using etag_digits_etag [of v] version_digits [of v] by (simp add: resolve_expected_version_def show_nat_parse)

lemma resolve_small_etag: "1 \<le> v \<Longrightarrow> v < 10 \<Longrightarrow> resolve_expected_version (VersionPrecondition (Some (etag v))) = Inr v"
  using self_le_power [of "10 :: int", OF _ max_digits_pos] by (intro resolve_etag) simp_all

text \<open>C22: The headers a request may name a version by are exactly the entity tags the service hands out:
  the version \<open>v\<close> is read from an \<^verbatim>\<open>If-Match\<close> header if and only if the header is the entity tag of \<open>v\<close> and
  \<open>v\<close> is positive and within the interpreter's limit of 4300 digits.  So the tag of every such version
  reads back as that version, and two versions never share a tag.\<close>

theorem if_match_names_version:
  "resolve_expected_version (VersionPrecondition (Some raw)) = Inr v \<longleftrightarrow>
     1 \<le> v \<and> v < 10 ^ int_max_str_digits \<and> raw = etag v" (is "?l \<longleftrightarrow> ?r")
proof
  assume ?l
  then obtain ds where ds: "etag_digits raw = Some ds" "length ds \<le> int_max_str_digits" "v = int (parse_digits ds)"
    by (auto simp: resolve_expected_version_def split: option.splits if_splits)
  then have d: "ds \<noteq> []" "list_all is_digit ds" "hd ds \<noteq> CHR ''0''" and raw: "raw = [quote, CHR ''v''] @ ds @ [quote]"
    unfolding etag_digits_iff by simp_all
  have sh: "show_nat (nat v) = ds" using parse_show [OF d] ds(3) by simp
  then have "v < 10 ^ int_max_str_digits" using ds version_digits [of v] by simp
  then show ?r using parse_digits_pos [OF d] raw sh ds(3) by (simp add: etag_def)
next
  assume r: ?r
  then show ?l using resolve_etag by simp
qed

text \<open>C27: An entity tag whose version has more than 4300 digits is well formed, and still reading it raises
  \<^verbatim>\<open>ValueError\<close>, which is no application error: the caller sees an internal error, where a malformed tag is
  refused with status 400.\<close>

theorem if_match_overlong:
  assumes "10 ^ int_max_str_digits \<le> v"
  shows "resolve_expected_version (VersionPrecondition (Some (etag v))) =
    Inl (ValueError ''Exceeds the limit for integer string conversion'')"
proof -
  have "1 \<le> v" using assms by (rule order_trans [rotated]) simp
  then show ?thesis using assms etag_digits_etag [of v] version_digits [of v]
    by (simp add: resolve_expected_version_def)
qed

theorem if_match_overlong_witness:
  "\<exists>v. resolve_expected_version (VersionPrecondition (Some (etag v))) =
    Inl (ValueError ''Exceeds the limit for integer string conversion'')"
  using if_match_overlong [of "10 ^ int_max_str_digits"] by blast

subsection \<open>Tokens\<close>

text \<open>C24: A token never gives its holder more than its issuer has.  If a principal may hand on the scopes
  \<open>requested\<close>, then whatever the bearer of that token (the same person, with a command line credential
  of those scopes) is allowed to do as administrator or for a tenant, the issuer is allowed to do,
  and what the bearer may hand on again, the issuer may hand on.\<close>

theorem token_never_escalates:
  assumes "validate_requested_token_scopes p requested = Inr ()"
    and "q = p\<lparr>pc_credential_kind := CK_CLI, pc_scopes := requested\<rparr>"
  shows "(require_admin q write = Inr () \<longrightarrow> require_admin p write = Inr ()) \<and>
    (authorize sv db q tenant_id write = Inr q \<longrightarrow> sv_revalidate sv db p = Inr p \<longrightarrow>
      authorize sv db p tenant_id write = Inr p) \<and>
    (validate_requested_token_scopes q again = Inr () \<longrightarrow> validate_requested_token_scopes p again = Inr ())"
proof (intro conjI)
  show "require_admin q write = Inr () \<longrightarrow> require_admin p write = Inr ()" using assms
    by (cases "pc_credential_kind p") (auto simp: validate_requested_token_scopes_def require_admin_def has_scope_def Let_def
        split: if_splits)
  show "validate_requested_token_scopes q again = Inr () \<longrightarrow> validate_requested_token_scopes p again = Inr ()"
    using assms by (cases "pc_credential_kind p") (auto simp: validate_requested_token_scopes_def Let_def split: if_splits)
  have kind: "pc_credential_kind p = CK_CLI \<and> requested \<subseteq> pc_scopes p \<or> pc_credential_kind p = CK_BROWSER"
    using assms(1) by (cases "pc_credential_kind p") (auto simp: validate_requested_token_scopes_def Let_def split: if_splits)
  show "authorize sv db q tenant_id write = Inr q \<longrightarrow> sv_revalidate sv db p = Inr p \<longrightarrow>
      authorize sv db p tenant_id write = Inr p"
  proof (intro impI)
    assume q: "authorize sv db q tenant_id write = Inr q" and p: "sv_revalidate sv db p = Inr p"
    let ?s = "if write then JOBS_WRITE else JOBS_READ"
    have member: "require_tenant_membership p tenant_id = require_tenant_membership q tenant_id"
      using kind assms(2) by (auto simp: require_tenant_membership_def)
    obtain live where live: "sv_revalidate sv db q = Inr live" "authorize sv db q tenant_id write =
        (case require_tenant_membership live tenant_id of
          Inl _ \<Rightarrow> Inl (permission_denied ''Active tenant membership is required'')
        | Inr _ \<Rightarrow> if pc_credential_kind live = CK_CLI \<and> \<not> has_scope live ?s
            then Inl (permission_denied (''The exact '' @ scope_value ?s @ '' scope is required'')) else Inr live)"
      using q unfolding authorize_def Let_def by (cases "sv_revalidate sv db q") simp_all
    obtain m where m: "require_tenant_membership live tenant_id = Inr m"
      using live(2) q by (cases "require_tenant_membership live tenant_id") simp_all
    have "live = q" "has_scope q ?s" using live(2) q m assms(2) by (simp_all split: if_splits)
    then have "require_tenant_membership p tenant_id = Inr m" "pc_credential_kind p = CK_CLI \<Longrightarrow> has_scope p ?s"
      using m member kind assms(2) by (auto simp: has_scope_def)
    then show "authorize sv db p tenant_id write = Inr p" using p unfolding authorize_def Let_def by simp
  qed
qed

definition ex_admin :: Principal where
  "ex_admin = \<lparr>pc_user_id = Some ''admin'', pc_credential_kind = CK_BROWSER, pc_credential_id = ''session'',
     pc_scopes = {}, pc_memberships = [\<lparr>tm_tenant_id = ''t'', tm_role = ''TENANT_ADMIN''\<rparr>], pc_system_admin = True\<rparr>"

theorem token_never_escalates_witness:
  "require_admin (ex_admin\<lparr>pc_credential_kind := CK_CLI, pc_scopes := {ADMIN_WRITE, TOKENS_WRITE}\<rparr>) True = Inr () \<and>
   require_admin ex_admin True = Inr ()"
proof -
  have "validate_requested_token_scopes ex_admin {ADMIN_WRITE, TOKENS_WRITE} = Inr ()" by code_simp
  note r = token_never_escalates [OF this refl, of True]
  have q: "require_admin (ex_admin\<lparr>pc_credential_kind := CK_CLI, pc_scopes := {ADMIN_WRITE, TOKENS_WRITE}\<rparr>) True = Inr ()"
    by code_simp
  with r show ?thesis by blast
qed

subsection \<open>Repeated requests\<close>

text \<open>The record a first execution leaves behind, and what a repetition finds.\<close>

lemma completed_record:
  assumes "begin_idempotency db i sc h ex w = Inr (record_id, None, db1)"
    and "i \<notin> ik_idempotency_id ` set (idempotency_records db)"
    and "idempotency_records db2 = idempotency_records db1"
    and "complete_idempotency db2 record_id response resource False = Inr db3"
  shows "\<exists>row. filter (in_scope sc) (idempotency_records db3) = [row] \<and> ik_idempotency_id row = record_id \<and>
    ik_request_hash row = h \<and> ik_response row = Some response \<and> \<not> ik_one_time_secret row"
    "valid_key (is_key sc)" "valid_hash h" "0 \<le> w" "w \<le> 30000"
proof -
  let ?row = "\<lparr>ik_idempotency_id = i, ik_context = is_context sc, ik_principal_id = is_principal_id sc,
            ik_operation_id = is_operation_id sc, ik_key = is_key sc, ik_request_hash = h,
            ik_response = None, ik_resource_id = None, ik_one_time_secret = False, ik_expires_at = ex\<rparr>"
  have none: "filter (in_scope sc) (idempotency_records db) = []"
    and r: "record_id = i" and db1: "idempotency_records db1 = idempotency_records db @ [?row]"
    using assms(1) by (auto simp: begin_idempotency_def one_or_none_def split: if_splits option.splits list.splits)
  show "valid_key (is_key sc)" "valid_hash h" "0 \<le> w" "w \<le> 30000"
    using assms(1) by (auto simp: begin_idempotency_def split: if_splits)
  have other: "update_where (\<lambda>r. ik_idempotency_id r = i \<and> ik_response r = None) f (idempotency_records db) =
      idempotency_records db" for f
    by (rule update_where_none) (use assms(2) in auto)
  have "idempotency_records db3 = idempotency_records db @
      [?row\<lparr>ik_response := Some response, ik_resource_id := resource, ik_one_time_secret := False\<rparr>]"
    using assms(4) r unfolding complete_idempotency_def Let_def assms(3) db1
    by (auto simp: other [unfolded update_where_def] update_where_def split: if_splits)
  then show "\<exists>row. filter (in_scope sc) (idempotency_records db3) = [row] \<and> ik_idempotency_id row = record_id \<and>
    ik_request_hash row = h \<and> ik_response row = Some response \<and> \<not> ik_one_time_secret row"
    by (simp add: none r) (simp add: in_scope_def)
qed

lemma replayed:
  assumes "filter (in_scope sc) (idempotency_records db) = [row]" "ik_response row = Some response" "\<not> ik_one_time_secret row"
    and "valid_key (is_key sc)" "valid_hash h" "0 \<le> w" "w \<le> 30000"
  shows "begin_idempotency db i sc h ex w = (if ik_request_hash row = h then Inr (ik_idempotency_id row, Some response, db)
    else Inl (ApplicationError ''idempotency_conflict'' 409 ''Idempotency-Key was already used with a different request''))"
  using assms by (simp add: begin_idempotency_def one_or_none_def)

text \<open>C23: A request and its record form a round trip.  Once a first execution opened a record under a fresh
  identifier and completed it, every repetition with the same key and the same request returns the
  stored response and leaves the store as it is, at any later time and under any configuration; the
  same key with another request is refused as a conflict.\<close>

theorem idempotent_replay:
  assumes "begin_idempotency db i sc h ex w = Inr (record_id, None, db1)"
    and "i \<notin> ik_idempotency_id ` set (idempotency_records db)"
    and "idempotency_records db2 = idempotency_records db1"
    and "complete_idempotency db2 record_id response resource False = Inr db3"
    and "0 \<le> w'" "w' \<le> 30000"
  shows "begin_idempotency db3 i' sc h ex' w' = Inr (record_id, Some response, db3) \<and>
    (valid_hash h' \<longrightarrow> h' \<noteq> h \<longrightarrow> begin_idempotency db3 i' sc h' ex' w' = Inl (ApplicationError
      ''idempotency_conflict'' 409 ''Idempotency-Key was already used with a different request''))"
proof -
  note finished = completed_record [OF assms(1-4)]
  obtain row where row: "filter (in_scope sc) (idempotency_records db3) = [row]" "ik_idempotency_id row = record_id"
    "ik_request_hash row = h" "ik_response row = Some response" "\<not> ik_one_time_secret row" using finished(1) by blast
  show ?thesis
    using replayed [OF row(1,4,5) finished(2) _ assms(5,6)] finished(3) row(2,3) by simp
qed

definition ex_hash :: "char \<Rightarrow> string" where
  "ex_hash c = ''sha256:'' @ replicate 64 c"

definition ex_scope :: idempotency_scope where
  "ex_scope = \<lparr>is_context = ''t'', is_principal_id = ''u'', is_operation_id = ''submitJob'', is_key = replicate 16 CHR ''k''\<rparr>"

definition ex_response :: stored_response where
  "ex_response = \<lparr>sr_status = 202, sr_body = None, sr_headers = []\<rparr>"

theorem idempotent_replay_witness:
  "\<exists>record_id db1 db3. begin_idempotency empty_db ''r'' ex_scope (ex_hash CHR ''a'') 10 5 = Inr (record_id, None, db1) \<and>
     complete_idempotency db1 record_id ex_response None False = Inr db3 \<and>
     begin_idempotency db3 ''s'' ex_scope (ex_hash CHR ''a'') 20 5 = Inr (record_id, Some ex_response, db3) \<and>
     begin_idempotency db3 ''s'' ex_scope (ex_hash CHR ''b'') 20 5 = Inl (ApplicationError
      ''idempotency_conflict'' 409 ''Idempotency-Key was already used with a different request'')"
proof -
  have v: "valid_key (is_key ex_scope)" "valid_hash (ex_hash CHR ''a'')" "valid_hash (ex_hash CHR ''b'')"
    "ex_hash CHR ''b'' \<noteq> ex_hash CHR ''a''" by code_simp+
  obtain db1 where b: "begin_idempotency empty_db ''r'' ex_scope (ex_hash CHR ''a'') 10 5 = Inr (''r'', None, db1)"
    and db1: "length (filter (\<lambda>r. ik_idempotency_id r = ''r'' \<and> ik_response r = None) (idempotency_records db1)) = 1"
    by (simp add: begin_idempotency_def v one_or_none_def empty_db_def)
  obtain db3 where c: "complete_idempotency db1 ''r'' ex_response None False = Inr db3"
    using db1 by (simp add: complete_idempotency_def ex_response_def)
  have fresh: "''r'' \<notin> ik_idempotency_id ` set (idempotency_records empty_db)" by (simp add: empty_db_def)
  show ?thesis
    using b c idempotent_replay [OF b fresh refl c, of 5 "''s''" 20 "ex_hash CHR ''b''"] v(3,4) by simp
qed

subsection \<open>Token buckets\<close>

lemma rnd28_int: "\<bar>k\<bar> \<le> 10 ^ 28 \<Longrightarrow> rnd28 (of_int k) = of_int k"
  unfolding rnd28_def by (rule dec_round_exact [OF representable_of_int]) simp_all

lemma rate_lock_now:
  assumes "filter (\<lambda>b. rb_scope b = s) (rate_buckets db) = [b]" "rb_last_refill_at b = now"
    and "rb_tokens b = of_int k" "0 \<le> k" "k \<le> capacity" "capacity \<le> 10 ^ 28"
  shows "(\<exists>r. rate_lock db s (of_int capacity) rate now = Inr r) \<longleftrightarrow> 1 \<le> k"
    and "rate_lock db s (of_int capacity) rate now = Inr (tokens, db') \<Longrightarrow>
      \<exists>b'. filter (\<lambda>b. rb_scope b = s) (rate_buckets db') = [b'] \<and> rb_last_refill_at b' = now \<and>
        rb_tokens b' = of_int (k - 1)"
proof -
  have b: "b \<in> set (rate_buckets db)" "rb_scope b = s" using filter_singleton [OF assms(1)] by simp_all
  then have there: "list_ex (\<lambda>b. rb_scope b = s) (rate_buckets db)" by (auto simp: list_ex_iff)
  have "rnd28 (of_int k) = (of_int k :: rat)" "rnd28 (of_int (k - 1)) = (of_int (k - 1) :: rat)"
    by (rule rnd28_int, use assms in simp)+
  then have left: "refilled b (of_int capacity) rate now = of_int k" "rnd28 (of_int k - 1) = of_int (k - 1)"
    using assms(2-5) by (simp_all add: refilled_def elapsed_between_def rnd28_def)
  show "(\<exists>r. rate_lock db s (of_int capacity) rate now = Inr r) \<longleftrightarrow> 1 \<le> k"
    using there assms(1) left by (auto simp: rate_lock_def one_def Let_def)
  assume "rate_lock db s (of_int capacity) rate now = Inr (tokens, db')"
  then have "rate_buckets db' = update_where (\<lambda>b. rb_scope b = s) (\<lambda>b. b\<lparr>rb_tokens := of_int (k - 1),
      rb_capacity := of_int capacity, rb_refill_rate := rate, rb_last_refill_at := now, rb_updated_at := now,
      rb_version := rb_version b + 1\<rparr>) (rate_buckets db)"
    using there assms(1) left by (auto simp: rate_lock_def one_def Let_def split: if_splits)
  then show "\<exists>b'. filter (\<lambda>b. rb_scope b = s) (rate_buckets db') = [b'] \<and> rb_last_refill_at b' = now \<and>
        rb_tokens b' = of_int (k - 1)"
    using assms(1) b(2) by (simp add: filter_map comp_def update_where_def if_distrib [of rb_scope] cong: if_cong)
qed

text \<open>Submissions of one scope at one instant.\<close>

fun burst :: "nat \<Rightarrow> db \<Rightarrow> scope \<Rightarrow> rat \<Rightarrow> rat \<Rightarrow> timestamp \<Rightarrow> db tx" where
  "burst 0 db s capacity rate now = Inr db"
| "burst (Suc n) db s capacity rate now =
     res_bind (rate_lock db s capacity rate now) (\<lambda>(_, db'). burst n db' s capacity rate now)"

lemma burst_left:
  assumes "filter (\<lambda>b. rb_scope b = s) (rate_buckets db) = [b]" "rb_last_refill_at b = now"
    and "rb_tokens b = of_int k" "0 \<le> k" "k \<le> capacity" "capacity \<le> 10 ^ 28"
  shows "(\<exists>db'. burst n db s (of_int capacity) rate now = Inr db') \<longleftrightarrow> int n \<le> k"
  using assms
proof (induction n arbitrary: db b k)
  case (Suc n)
  show ?case
  proof (cases "rate_lock db s (of_int capacity) rate now")
    case (Inl e)
    then show ?thesis using rate_lock_now(1) [OF Suc.prems, of rate] by simp
  next
    case (Inr r)
    then obtain tokens db1 where r: "rate_lock db s (of_int capacity) rate now = Inr (tokens, db1)" by (cases r) simp
    obtain b' where b': "filter (\<lambda>b. rb_scope b = s) (rate_buckets db1) = [b']" "rb_last_refill_at b' = now"
      "rb_tokens b' = of_int (k - 1)" using rate_lock_now(2) [OF Suc.prems r] by blast
    have "1 \<le> k" using rate_lock_now(1) [OF Suc.prems, of rate] r by blast
    then show ?thesis using Suc.IH [OF b'] Suc.prems(5,6) r by auto
  qed
qed simp

text \<open>C25: A bucket admits exactly its capacity at once.  For a scope without a bucket, \<open>n\<close> submissions at
  one instant all pass if and only if \<open>n\<close> is at most the capacity, whatever the refill rate.\<close>

theorem burst_bounded:
  assumes "s \<notin> rb_scope ` set (rate_buckets db)" "0 \<le> capacity" "capacity \<le> 10 ^ 28"
  shows "(\<exists>db'. burst n db s (of_int capacity) rate now = Inr db') \<longleftrightarrow> int n \<le> capacity"
proof (cases n)
  case 0
  with assms(2) show ?thesis by simp
next
  case (Suc m)
  let ?bucket = "\<lparr>rb_scope = s, rb_tokens = of_int capacity, rb_capacity = of_int capacity, rb_refill_rate = rate,
    rb_last_refill_at = now, rb_version = 1, rb_updated_at = now\<rparr>"
  define full where "full = db\<lparr>rate_buckets := rate_buckets db @ [?bucket]\<rparr>"
  have "\<not> list_ex (\<lambda>b. rb_scope b = s) (rate_buckets db)" using assms(1) by (auto simp: list_ex_iff)
  then have "rate_lock db s (of_int capacity) rate now = rate_lock full s (of_int capacity) rate now"
    by (simp add: rate_lock_def full_def)
  then have "burst n db s (of_int capacity) rate now = burst n full s (of_int capacity) rate now"
    unfolding Suc burst.simps by simp
  moreover have none: "filter (\<lambda>b. rb_scope b = s) (rate_buckets db) = []" using assms(1) by (auto simp: filter_empty_conv)
  have "(\<exists>db'. burst n full s (of_int capacity) rate now = Inr db') \<longleftrightarrow> int n \<le> capacity"
    by (rule burst_left [where b = ?bucket]) (use assms none in \<open>simp_all add: full_def\<close>)
  ultimately show ?thesis by simp
qed

theorem burst_bounded_witness:
  "(\<exists>db'. burst 2 empty_db (TENANT ''t'') 2 (1 / 5) 0 = Inr db') \<and> \<not> (\<exists>db'. burst 3 empty_db (TENANT ''t'') 2 (1 / 5) 0 = Inr db')"
  using burst_bounded [of "TENANT ''t''" empty_db 2 2 "1 / 5" 0] burst_bounded [of "TENANT ''t''" empty_db 2 3 "1 / 5" 0]
  by (simp add: empty_db_def)

subsection \<open>The lineage of a retry\<close>

definition retry_edge :: "job_row list \<Rightarrow> uuid \<Rightarrow> job_row \<Rightarrow> job_row \<Rightarrow> bool" where
  "retry_edge js tenant_id j j' \<longleftrightarrow> j' \<in> set js \<and> j_tenant_id j' = tenant_id \<and> j_retry_of_job_id j = Some (j_job_id j')"

lemma retry_chain_closure:
  assumes "set work \<subseteq> set chain" "\<And>c d. c \<in> set chain \<Longrightarrow> c \<notin> set work \<Longrightarrow> retry_edge js tenant_id c d \<Longrightarrow> d \<in> set chain"
  shows "set (retry_chain js tenant_id chain work) = {d. \<exists>c \<in> set chain. (retry_edge js tenant_id)\<^sup>*\<^sup>* c d}"
  using assms
proof (induction js tenant_id chain work rule: retry_chain.induct)
  case (1 js tenant_id chain work)
  let ?E = "retry_edge js tenant_id"
  show ?case
  proof (cases "work = []")
    case True
    have "d \<in> set chain" if "?E\<^sup>*\<^sup>* c d" "c \<in> set chain" for c d
      using that by (induction rule: rtranclp_induct) (use 1(3) True in auto)
    then show ?thesis using True by (subst retry_chain.simps) auto
  next
    case False
    define new where "new = filter (\<lambda>j. retried_from tenant_id work j \<and> j \<notin> set chain) js"
    have new: "d \<in> set new \<longleftrightarrow> (\<exists>c \<in> set work. ?E c d) \<and> d \<notin> set chain" for d
      by (auto simp: new_def retried_from_def retry_edge_def list_ex_iff)
    have "set (retry_chain js tenant_id (chain @ new) new) = {d. \<exists>c \<in> set (chain @ new). ?E\<^sup>*\<^sup>* c d}"
    proof (rule 1(1) [OF False new_def])
      show "d \<in> set (chain @ new)" if "c \<in> set (chain @ new)" "c \<notin> set new" "?E c d" for c d
        using that 1(3) [of c d] new by (cases "c \<in> set work") auto
    qed simp
    also have "\<dots> = {d. \<exists>c \<in> set chain. ?E\<^sup>*\<^sup>* c d}"
    proof (intro set_eqI iffI)
      fix d assume "d \<in> {d. \<exists>c \<in> set (chain @ new). ?E\<^sup>*\<^sup>* c d}"
      then obtain c where c: "c \<in> set chain \<or> c \<in> set new" "?E\<^sup>*\<^sup>* c d" by auto
      moreover have "\<exists>b \<in> set chain. ?E\<^sup>*\<^sup>* b d" if "c \<in> set new"
        using that c(2) 1(2) new [of c] by (meson converse_rtranclp_into_rtranclp subsetD)
      ultimately show "d \<in> {d. \<exists>c \<in> set chain. ?E\<^sup>*\<^sup>* c d}" by blast
    qed auto
    finally show ?thesis using False by (subst retry_chain.simps) (simp add: new_def Let_def)
  qed
qed

text \<open>C26: The walk along \<^verbatim>\<open>retry_of_job_id\<close> ends on every table, also one whose references form a cycle,
  and finds exactly the jobs of the tenant that are reachable from the job along those references.\<close>

theorem retry_lineage_reachable:
  "x \<in> retry_lineage db tenant_id job_id \<longleftrightarrow>
     (\<exists>j j'. j \<in> set (jobs db) \<and> j_tenant_id j = tenant_id \<and> j_job_id j = job_id \<and>
        (retry_edge (jobs db) tenant_id)\<^sup>*\<^sup>* j j' \<and> j_job_id j' = x)"
  unfolding retry_lineage_def Let_def by (subst retry_chain_closure) auto

subsection \<open>The order of restores\<close>

lemma insort_key_sorted:
  assumes "sorted_wrt (\<lambda>a b. k a < k b \<or> k a = k b \<and> Q a b) ys" "\<And>y. y \<in> set ys \<Longrightarrow> Q x y"
  shows "sorted_wrt (\<lambda>a b. k a < k b \<or> k a = k b \<and> Q a b) (insort_key k x ys)"
  using assms
proof (induction ys)
  case (Cons y ys)
  show ?case
  proof (cases "k x \<le> k y")
    case True
    moreover have "k x < k z \<or> k x = k z \<and> Q x z" if z: "z \<in> set (y # ys)" for z
    proof -
      have "k y \<le> k z" using z Cons.prems(1) by auto
      with True have "k x \<le> k z" by (rule order_trans)
      then show ?thesis using Cons.prems(2) [OF z] by auto
    qed
    ultimately show ?thesis using Cons.prems(1) by simp
  next
    case False
    then have "k y < k x" by simp
    then show ?thesis using False Cons by (auto simp: set_insort_key)
  qed
qed simp

lemma sort_key_sorted_wrt:
  "sorted_wrt Q xs \<Longrightarrow> sorted_wrt (\<lambda>a b. k a < k b \<or> k a = k b \<and> Q a b) (sort_key k xs)"
proof (induction xs)
  case (Cons x xs)
  then show ?case unfolding sort_key_simps by (intro insort_key_sorted) auto
qed simp

text \<open>The order in which the candidates of a restore are tried.\<close>

definition tried_before :: "uuid \<Rightarrow> checkpoint_row \<Rightarrow> checkpoint_row \<Rightarrow> bool" where
  "tried_before job_id c d \<longleftrightarrow> cp_job_id c = job_id \<and> cp_job_id d \<noteq> job_id \<or>
     (cp_job_id c = job_id \<longleftrightarrow> cp_job_id d = job_id) \<and>
       (cp_sequence d < cp_sequence c \<or> cp_sequence d = cp_sequence c \<and> cp_checkpoint_id d \<le> cp_checkpoint_id c)"

text \<open>Restores are tried in the documented order: the job's own checkpoints before referenced ones, of
  each the newest sequence first, and among equal sequences the greatest identifier; every candidate
  is tried once.\<close>

theorem restore_order_sorted:
  "mset (restore_order job_id cs) = mset cs \<and> sorted_wrt (tried_before job_id) (restore_order job_id cs)"
proof
  show "mset (restore_order job_id cs) = mset cs" by (simp add: restore_order_def)
  have "sorted_wrt (\<lambda>c d. cp_checkpoint_id d \<le> cp_checkpoint_id c) (rev (sort_key cp_checkpoint_id cs))"
    using sorted_sort_key [of cp_checkpoint_id cs] by (simp add: sorted_wrt_rev sorted_wrt_map)
  from sort_key_sorted_wrt [OF sort_key_sorted_wrt [OF this, of "\<lambda>c. - cp_sequence c"], of "\<lambda>c. cp_job_id c \<noteq> job_id"]
  show "sorted_wrt (tried_before job_id) (restore_order job_id cs)"
    unfolding restore_order_def by (rule sorted_wrt_mono_rel [rotated]) (auto simp: tried_before_def)
qed

end
