(* ===== verification/Scenario.thy ===== *)
theory Scenario
  imports System Request_Properties Coordinator_Snapshot
begin

section \<open>A concrete run\<close>

text \<open>
  A store with one tenant, one user and one ready worker, and runs through it: a job is submitted and
  dispatched, and it is cancelled before and after its dispatch.  Every step is computed, so that the
  theorems on reachable stores apply to stores that exist.
\<close>

definition sc_env :: "string \<Rightarrow> timestamp \<Rightarrow> env" where
  "sc_env tag now = \<lparr>started = now, clk = (\<lambda>_. now), ids = (\<lambda>n. tag @ ['''', ''1'', ''2'', ''3'', ''4'', ''5''] ! n),
     segment_ids = (\<lambda>a. tag @ ''-'' @ a), secrets = (\<lambda>s. Some (''c'', s)), jitter_ms = 0, terminal_retention_days = 30\<rparr>"

definition sc_user :: Principal where
  "sc_user = \<lparr>pc_user_id = Some ''u'', pc_credential_kind = CK_BROWSER, pc_credential_id = ''session'', pc_scopes = {},
     pc_memberships = [\<lparr>tm_tenant_id = ''t'', tm_role = ''MEMBER''\<rparr>], pc_system_admin = False\<rparr>"

definition sc_template :: template_row where
  "sc_template = \<lparr>t_template_id = ''batch'', t_version = 1, t_capability_requirements = '''', t_adapter_id = ''a'',
     t_adapter_version = ''1'', t_checkpointable = True, t_restart_safe = True, t_image_digest = ''d''\<rparr>"

definition sc_services :: services where
  "sc_services = \<lparr>sv_revalidate = (\<lambda>_ p. Inr p),
     sv_validate_spec = (\<lambda>_ _ spec. Inr (sc_template, js_input_artifact_id spec, js_model_artifact_id spec)),
     sv_requirements = (\<lambda>_. Inr ''''), sv_supports = (\<lambda>_ _. True), sv_enforce_storage = (\<lambda>_ _. Inr ()),
     sv_pending_wait_milliseconds = 0\<rparr>"

definition sc_spec :: submit_spec where
  "sc_spec = \<lparr>js_template_id = ''batch'', js_template_version = 1, js_input_artifact_id = ''in'', js_model_artifact_id = None,
     js_cpu_millis = 1, js_memory_bytes = 1, js_gpu_count = 0, js_priority = 1, js_runtime_limit_seconds = 60,
     js_checkpoint_interval_seconds = None, js_payload = ''{}'', js_checksum = ''s''\<rparr>"

definition sc_start :: db where
  "sc_start = empty_db\<lparr>
     tenant_policies := [\<lparr>tp_tenant_id = ''t'', tp_weight = 1, tp_cpu_limit_millis = 4, tp_memory_limit_bytes = 8,
       tp_gpu_limit = 1, tp_outstanding_limit = 2, tp_user_outstanding_limit = 2, tp_tenant_rate_per_second = 1,
       tp_tenant_rate_burst = 5, tp_user_rate_per_second = 1, tp_user_rate_burst = 5,
       tp_tenant_active_limit = 2, tp_user_active_limit = 2\<rparr>],
     templates := [\<lparr>tm_template_id = ''batch'', tm_current_version = 1, tm_display_name = ''Batch'', tm_enabled = True\<rparr>],
     template_versions := [sc_template],
     artifacts := [\<lparr>ar_artifact_id = ''in'', ar_tenant_id = ''t'', ar_kind = ''INPUT'', ar_media_type = ''x'', ar_size_bytes = 1,
       ar_checksum = ''s'', ar_state = AR_COMMITTED\<rparr>],
     workers := [\<lparr>w_worker_id = ''w'', w_admin_state = ENABLED, w_health = READY, w_current_incarnation_id = Some ''i'',
       w_current_inventory_version = Some 1, w_last_heartbeat_at = Some 0, w_ready_at = Some 0, w_version = 1\<rparr>],
     worker_credentials := [\<lparr>wc_credential_id = ''c'', wc_worker_id = ''w'', wc_credential_hash = ''secret'',
       wc_scopes = [''worker:local''], wc_expires_at = seconds 3600, wc_revoked_at = None\<rparr>],
     worker_incarnations := [\<lparr>wi_worker_incarnation_id = ''i'', wi_worker_id = ''w'', wi_sequence = 1,
       wi_reconcile_completed_at = Some 0, wi_ended_at = None\<rparr>],
     worker_inventories := [\<lparr>iv_worker_id = ''w'', iv_worker_incarnation_id = ''i'', iv_inventory_version = 1,
       iv_architecture = ''x86'', iv_allocatable_cpu_millis = 1, iv_allocatable_memory_bytes = 1,
       iv_allocatable_gpu_count = 0, iv_workload_capabilities = []\<rparr>],
     fairness_state := Some 0\<rparr>"

subsection \<open>Submission\<close>

definition sc_key :: string where
  "sc_key = replicate 16 CHR ''k''"

definition sc_hash :: string where
  "sc_hash = ''sha256:'' @ replicate 64 CHR ''a''"

definition sc_job :: job_row where
  "sc_job = new_job ''j'' ''t'' ''u'' None None 1 1 0"

definition sc_counters :: "int \<Rightarrow> int \<Rightarrow> int \<Rightarrow> timestamp \<Rightarrow> counter_row list" where
  "sc_counters outstanding active version now = map (\<lambda>s. \<lparr>k_scope = s, k_outstanding = outstanding,
     k_active_attempts = active, k_version = version, k_updated_at = now\<rparr>) [GLOBAL, TENANT ''t'', USER ''t'' ''u'']"

definition sc_queued :: db where
  "sc_queued = sc_start\<lparr>jobs := [sc_job],
     logical_sessions := [\<lparr>ls_session_id = ''j1'', ls_tenant_id = ''t'', ls_job_id = ''j''\<rparr>],
     job_specs := [\<lparr>sp_job_id = ''j'', sp_tenant_id = ''t'', sp_canonical_spec = ''{}'', sp_spec_checksum = ''s'',
       sp_template_id = ''batch'', sp_template_version = 1, sp_input_artifact_id = Some ''in'', sp_model_artifact_id = None,
       sp_cpu_millis = 1, sp_memory_bytes = 1, sp_gpu_count = 0, sp_runtime_limit_seconds = 60,
       sp_checkpoint_interval_seconds = None\<rparr>],
     artifact_references := spec_references ''t'' ''j'' ''in'' None,
     events := [\<lparr>e_tenant_id = ''t'', e_job_id = ''j'', e_sequence = 1, e_event_type = ''JOB_ACCEPTED'',
       e_reason = Some ''Job accepted'', e_actor = USER_ACTOR ''u'', e_created_at = 0\<rparr>],
     admission_counters := sc_counters 1 0 2 0,
     rate_buckets := map (\<lambda>s. \<lparr>rb_scope = s, rb_tokens = 4, rb_capacity = 5, rb_refill_rate = 1, rb_last_refill_at = 0,
       rb_version = 2, rb_updated_at = 0\<rparr>) [TENANT ''t'', USER ''t'' ''u''],
     audit_records := [\<lparr>u_actor = USER_ACTOR ''u'', u_tenant_id = Some ''t'', u_action = ''job.submit'', u_target_id = ''j'',
       u_before_version = None, u_after_version = 1, u_reason = Some ''Job accepted'', u_created_at = 0\<rparr>],
     idempotency_records := [\<lparr>ik_idempotency_id = ''j2'', ik_context = ''t'', ik_principal_id = ''u'',
       ik_operation_id = ''submitJob'', ik_key = sc_key, ik_request_hash = sc_hash,
       ik_response = Some \<lparr>sr_status = 202, sr_body = Some (Job_body \<lparr>v_job_id = ''j'', v_tenant_id = ''t'', v_user_id = ''u'',
         v_session_id = ''j1'', v_state = J_QUEUED, v_desired_state = D_RUNNING, v_waiting_reason = None, v_spec = ''{}'',
         v_spec_checksum = ''s'', v_job_fence = 0, v_retry_count = 0, v_max_retries = 2, v_retry_of_job_id = None,
         v_version = 1, v_event_sequence = 1, v_created_at = 0, v_updated_at = 0\<rparr>),
         sr_headers = [(''Location'', ''/v1/jobs/j''), (''ETag'', etag 1)]\<rparr>,
       ik_resource_id = Some ''j'', ik_one_time_secret = False, ik_expires_at = days 30\<rparr>]\<rparr>"

lemma list_all_replicate [simp]: "list_all P (replicate n x) \<longleftrightarrow> n = 0 \<or> P x"
  by (induction n) auto

lemma rnd28_numeral [simp]: "numeral n \<le> (10 ^ 28 :: int) \<Longrightarrow> rnd28 (numeral n) = numeral n" "rnd28 0 = 0"
  using dec_round_exact [OF representable_of_int, of "numeral n" 28] by (simp_all add: rnd28_def)

lemmas sc_store = sc_env_def sc_user_def sc_start_def sc_key_def sc_hash_def empty_db_def sc_template_def sc_services_def
  sc_job_def sc_counters_def new_job_def spec_references_def counter_scopes_def seconds_def days_def

lemmas sc_guards = authorize_def require_tenant_membership_def begin_idempotency_def complete_idempotency_def request_scope_def
  valid_key_def valid_hash_def visible_ascii_def is_hex_def is_digit_def in_scope_def one_or_none_def one_def user_of_def
  job_view_of_def operational_mode_of_def Let_def

lemma sc_submit: "\<exists>r. submit sc_services (sc_env ''j'' 0) sc_start sc_user ''t'' sc_spec sc_key sc_hash = Inr (r, sc_queued)"
  by (simp add: submit_def sc_guards admit_def counter_lock_def admission_limits_def rate_lock_def refilled_def
      elapsed_between_def create_job_def exceeds_tenant_limit_def waiting_reason_def configured_workers_def
      worker_is_ready_def job_rows_def sc_spec_def sc_queued_def sc_store)

lemma sc_start_reachable: "reachable sc_start"
  by (rule reachable.init) (simp add: empty_store_def sc_start_def empty_db_def)

lemma sc_queued_reachable: "reachable sc_queued"
proof -
  obtain r where r: "submit sc_services (sc_env ''j'' 0) sc_start sc_user ''t'' sc_spec sc_key sc_hash = Inr (r, sc_queued)"
    using sc_submit by blast
  have "transaction sc_start sc_queued"
    by (rule transaction.submit [OF r]) (simp add: sc_start_def empty_db_def)
  with sc_start_reachable show ?thesis by (rule reachable.step)
qed

subsection \<open>Dispatch\<close>

definition sc_lead :: coordinator where
  "sc_lead = \<lparr>co_holder_id = ''h'', co_epoch = 1, co_lead = Some \<lparr>ld_holder_id = Some ''h'', ld_epoch = 1,
     ld_lease_expires_at = Some (seconds 15), ld_renewed_at = Some 0\<rparr>\<rparr>"

definition sc_queue :: queue_tables where
  "sc_queue = \<lparr>qt_tenants = [(''t'', True)], qt_queue_heads = [(''t'', 1)], qt_queue_submitters = [(''t'', ''u'')],
     qt_request_sizes = [(''t'', 1, 1)], qt_headroom = (\<lambda>_. \<lparr>hr_cpu = [(4, None)], hr_memory = [(8, None)]\<rparr>),
     qt_resumed_at = (\<lambda>_. None), qt_storage = []\<rparr>"

definition sc_reader :: snapshot_reader where
  "sc_reader = snapshot_reader_of (\<lambda>_ _. True) sc_queue [] (\<lambda>_. None) None"

definition sc_inventory :: inventory_row where
  "sc_inventory = hd (worker_inventories sc_start)"

definition sc_prepared :: prepared where
  "sc_prepared = \<lparr>pr_limit = hd (tenant_policies sc_start), pr_tenant_active = 0, pr_enabled = True, pr_submitters = [''u''],
     pr_users = [''u''], pr_bounds = (- 1, 1, - 1, 1), pr_cells = [((- 1, 1, - 1, 1), None)], pr_tenant_resume = None,
     pr_no_resume = True, pr_resume_at = None\<rparr>"

definition sc_row :: queue_row where
  "sc_row = \<lparr>qr_job_id = ''j'', qr_submitter_user_id = ''u'', qr_version = 1, qr_ready_sequence = 1, qr_eligible_since = 0,
     qr_retry_ready_at = None, qr_base_priority = 1, qr_cpu_millis = 1, qr_memory_bytes = 1, qr_gpu_count = 0,
     qr_template_version = 1, qr_effective_since = 0\<rparr>"

definition sc_decision :: SchedulingDecision where
  "sc_decision = Dispatch ''j'' 1 1 None"

definition sc_attempt :: attempt_row where
  "sc_attempt = \<lparr>a_attempt_id = ''a'', a_tenant_id = ''t'', a_job_id = ''j'', a_attempt_number = 1, a_state = A_CREATED,
     a_execution_intent = RUN, a_worker_id = ''w'', a_worker_incarnation_id = ''i'', a_job_fence = 1,
     a_startup_nonce = ''a3'', a_failure_class = None, a_failure_reason = None, a_progress_sequence = 0,
     a_progress_snapshot = None, a_started_at = None, a_ended_at = None, a_created_at = 0, a_updated_at = 0,
     a_dispatch_coordinator_epoch = 1, a_execution_context = None, a_claimed_at = None,
     a_executor_operation_sequence = None\<rparr>"

definition sc_allocation :: allocation_row where
  "sc_allocation = \<lparr>al_allocation_id = ''a1'', al_tenant_id = ''t'', al_job_id = ''j'', al_attempt_id = ''a'', al_worker_id = ''w'',
     al_cpu_millis = 1, al_memory_bytes = 1, al_gpu_count = 0, al_state = S_HELD, al_held_at = 0, al_quarantined_at = None,
     al_released_at = None, al_release_reason = None\<rparr>"

definition sc_lease :: lease_row where
  "sc_lease = \<lparr>l_lease_id = ''a2'', l_tenant_id = ''t'', l_job_id = ''j'', l_attempt_id = ''a'', l_allocation_id = ''a1'',
     l_worker_id = ''w'', l_current_worker_incarnation_id = ''i'', l_job_fence = 1, l_issued_at = 0,
     l_expires_at = seconds 45, l_revoked_at = None, l_revoke_reason = None\<rparr>"

definition sc_grant :: grant_row where
  "sc_grant = \<lparr>g_grant_id = ''a4'', g_tenant_id = ''t'', g_job_id = ''j'', g_attempt_id = ''a'', g_allocation_id = ''a1'',
     g_lease_id = ''a2'', g_worker_id = ''w'', g_worker_incarnation_id = ''i'', g_job_fence = 1,
     g_predecessor_grant_id = None, g_callback_id = ''a5'', g_granted_at = 0, g_ended_at = None\<rparr>"

definition sc_dispatched :: db where
  "sc_dispatched = sc_queued\<lparr>
     jobs := [sc_job\<lparr>j_state := J_DISPATCHING, j_version := 2, j_job_fence := 1, j_event_sequence := 2\<rparr>],
     attempts := [sc_attempt], allocations := [sc_allocation], attempt_leases := [sc_lease],
     attempt_authority_grants := [sc_grant],
     events := events sc_queued @ [\<lparr>e_tenant_id = ''t'', e_job_id = ''j'', e_sequence = 2, e_event_type = ''JOB_DISPATCHING'',
       e_reason = None, e_actor = COORDINATOR ''h'', e_created_at = 0\<rparr>],
     audit_records := audit_records sc_queued @ [\<lparr>u_actor = COORDINATOR ''h'', u_tenant_id = Some ''t'',
       u_action = ''JOB_DISPATCHING'', u_target_id = ''j'', u_before_version = Some 1, u_after_version = 2,
       u_reason = None, u_created_at = 0\<rparr>],
     admission_counters := sc_counters 1 1 3 0,
     fairness_ledgers := [\<lparr>fl_tenant_id = ''t'', fl_virtual_score = 0, fl_accounted_through = 0,
       fl_had_eligible_demand = True, fl_version = 2\<rparr>],
     allocation_ledger_segments := [\<lparr>sg_segment_id = ''a-a1'', sg_allocation_id = ''a1'', sg_tenant_id = ''t'',
       sg_started_at = 0, sg_ended_at = None, sg_dominant_share = 1, sg_weight = 1, sg_charged_amount = 0,
       sg_policy_version = 1\<rparr>]\<rparr>"

definition sc_accounted :: db where
  "sc_accounted = sc_queued\<lparr>fairness_ledgers := [\<lparr>fl_tenant_id = ''t'', fl_virtual_score = 0, fl_accounted_through = 0,
     fl_had_eligible_demand = False, fl_version = 2\<rparr>]\<rparr>"

lemma sc_cursor: "encode_cursor (1, 1, ''j'') = ''1:1:j''"
  by (simp add: encode_cursor_def show_int_def show_nat.simps digit_def char_of_def bit_0)

lemma sc_pairs: "priority_pairs = [(2, 2), (2, 1), (2, 0), (1, 1), (1, 0), (0, 0)]"
  by (simp add: priority_pairs_def upto_rec1)

lemma sc_prepare: "prepare_tenant sc_queue sc_queued (snapshot_capacity sc_inventory) {} (hd (tenant_policies sc_start)) = sc_prepared"
  by (simp add: sc_prepared_def prepare_tenant_def sc_queue_def tenant_cells_def fit_limits_def populated_cells_def quota_cells_def
      quota_intervals_def in_cell_def held_sum_def snapshot_capacity_def sc_inventory_def active_attempts_of_def latest_def
      map_filter_def sc_queued_def sc_store Let_def)

lemma sc_window: "tenant_window sc_queue sc_queued 0 [(''batch'', 1)] sc_prepared None = ([(1, sc_row)], Some sc_row)"
  by (simp add: tenant_window_def sc_prepared_def may_dispatch_def batch_read_def plain_descriptor_def batched_window_def
      descriptor_rows_def queue_rows_def joined_rows_def queue_row_of_def in_cell_def merge_streams_def sc_pairs ready_stream_def
      batched_age_def has_age_def age_probe_def map_filter_def beyond_group_def window_size_def first_row_def sc_row_def
      sc_queued_def sc_store Let_def)

lemma sc_compatible: "compatible_templates (\<lambda>_ _. True) sc_queued sc_inventory = [(''batch'', 1)]"
  by (simp add: compatible_templates_def sc_queued_def sc_store)

lemma sc_read:
  "read_snapshot (\<lambda>_ _. True) sc_queue sc_queued 0 sc_inventory (\<lambda>_. None) (pending_eligibility_tenants []) None = Inr (ex_offer True)"
proof -
  let ?p = "hd (tenant_policies sc_start)"
  have limits: "sort_key tp_tenant_id (tenant_policies sc_queued) = [?p]" "tp_tenant_id ?p = ''t''" by (simp_all add: sc_queued_def sc_store)
  have cand: "candidate_of sc_queued 0 sc_prepared sc_row = ex_offered"
    by (simp add: candidate_of_def sc_row_def sc_prepared_def ex_offered_def active_attempts_of_def epoch_ms_def sc_queued_def sc_store)
  have window: "candidate_window sc_queue sc_queued 0 [(''batch'', 1)] None (\<lambda>_. None) sc_prepared =
      Inr (''t'', \<lparr>normal = [ex_offered], oldest_eligible = Some ex_offered, continuation_cursor = Some ''1:1:j''\<rparr>)"
    by (simp add: candidate_window_def sc_window reserved_row_def cand next_cursor_def)
      (simp add: sc_row_def ready_key_def epoch_ms_def sc_cursor sc_prepared_def limits)
  have snap: "\<lparr>policy_version = pv_policy_version (policy sc_queued), allocatable_capacity = snapshot_capacity sc_inventory,
      held_allocations = snapshot_held sc_queued, tenant_ledgers = snapshot_ledgers sc_queued 0,
      tenant_limits = snapshot_limits sc_queue None [?p], candidates_by_tenant = [(''t'', \<lparr>normal = [ex_offered],
        oldest_eligible = Some ex_offered, continuation_cursor = Some ''1:1:j''\<rparr>)], active_reservation = None,
      virtual_floor = Finite (case fairness_state sc_queued of None \<Rightarrow> 0 | Some f \<Rightarrow> f)\<rparr> = ex_offer False"
    by (simp add: ex_offer_def snapshot_capacity_def sc_inventory_def snapshot_held_def unreleased_rows_def snapshot_ledgers_def snapshot_limits_def
        epoch_ms_def dict_of_def sc_queued_def sc_store)
  have "filter (\<lambda>r. r_invalidated_at r = None) (reservations sc_queued) = []" by (simp add: sc_queued_def sc_store)
  then show ?thesis
    by (simp add: read_snapshot_def Let_def one_or_none_def limits sc_queue_def [THEN arg_cong [where f = qt_tenants]] pending_eligibility_tenants_def
      sc_prepare sc_compatible window snap ex_offer_accounting epoch_ms_def)
      (simp add: ex_offer_def)
qed

lemma rnd50_small [simp]: "rnd50 0 = 0" "rnd50 1 = 1"
  using dec_round_exact [OF representable_of_int, of 1 50] by (simp_all add: rnd50_def decimal_precision_def)

lemmas sc_rows = sc_attempt_def sc_allocation_def sc_lease_def sc_grant_def

lemmas sc_ledger = account_locked_def lock_ledgers_def add_ledger_def charge_locked_def charge_tenant_def open_segments_def
  tenant_charge_def charge_segments_def rebase_locked_def held_rows_def current_inventory_def tenant_segments_def
  axis_total_def axis_values_def capacities_def dominant_axis_def axis_share_def
  dec_add_def dec_sub_def dec_mul_def dec_div_def epoch_ms_def

lemma sc_limits: "limit_tenant_id ` set (tenant_limits (ex_offer demand)) = {''t''}"
  by (simp add: ex_offer_def)

lemma sc_reads: "sn_read sc_reader sc_queued sc_inventory 0 = Inr (ex_offer True)" "sn_replay_pending sc_reader sc_queued (ex_offer True) = False"
  by (simp_all add: sc_reader_def snapshot_reader_of_def sc_read) (simp add: ex_offer_def)

lemma sc_boundary: "clk (sc_env tag now) n = now" "check_leader sc_lead (sc_env tag 0) n = Inr 0"
  by (simp_all add: check_leader_def leader_def sc_lead_def sc_env_def seconds_def)

lemma sc_placement: "sole_worker sc_queued = Inr (Some (hd (workers sc_start)), Some sc_inventory)"
  "worker_is_ready (hd (workers sc_start)) 0" "operational_mode_of sc_queued = NORMAL"
  by (simp_all add: sole_worker_def worker_is_ready_def sc_inventory_def operational_mode_of_def one_or_none_def one_def Let_def
      sc_queued_def sc_store)

lemma sc_chosen: "decision_job sc_queued sc_decision = Inr (Some sc_job)"
  by (simp add: decision_job_def sc_decision_def one_def one_or_none_def sc_queued_def sc_store)

lemma sc_account: "account_locked sc_queued 0 0 = Inr sc_accounted"
  by (simp add: sc_ledger sc_accounted_def sc_queued_def sc_store one_or_none_def one_def Let_def)

lemma sc_relit: "(ex_offer True)\<lparr>tenant_ledgers := tenant_ledgers (ex_offer False), virtual_floor := Finite 0\<rparr> = ex_offer False"
  by (simp add: ex_offer_def)

lemma sc_persist:
  "persist_fairness_locked sc_accounted (ex_offer True) 0 = Inr (sc_accounted\<lparr>fairness_ledgers := fairness_ledgers sc_dispatched\<rparr>)"
proof -
  have fair: "fairness_state sc_accounted = Some 0" by (simp add: sc_accounted_def sc_queued_def sc_store)
  have "fresh_ledgers sc_accounted (ex_offer True) = tenant_ledgers (ex_offer False)"
    by (simp add: fresh_ledgers_def sc_limits sc_accounted_def epoch_ms_def) (simp add: ex_offer_def)
  with fair show ?thesis
    by (simp add: persist_fairness_locked_def sc_relit ex_offer_accounting epoch_ms_def)
      (simp add: ex_offer_def write_ledger_def sc_accounted_def sc_dispatched_def sc_queued_def sc_store)
qed

lemma sc_apply:
  "apply_decision (sc_env ''a'' 0) (sc_accounted\<lparr>fairness_ledgers := fairness_ledgers sc_dispatched\<rparr>) sc_decision
     (hd (workers sc_start)) (Some sc_job) 0 (co_epoch sc_lead) (co_holder_id sc_lead) = Inr sc_dispatched"
  by (simp add: apply_decision_def sc_decision_def sc_lead_def dispatch_job_def dispatchable_def dispatch_rows_def new_attempt_def
      next_attempt_number_def max_default_def coordinator_event_def record_event_def one_def one_or_none_def
      operational_mode_of_def sc_ledger sc_accounted_def sc_queued_def sc_dispatched_def sc_rows sc_store Let_def)

lemma sc_commit:
  "commit_decision sc_reader sc_lead (sc_env ''a'' 0) sc_queued sc_decision = Inr (sc_decision, sc_dispatched)"
  by (simp add: commit_decision_def sc_boundary sc_placement sc_chosen sc_reads ex_offer_decision sc_decision_def [symmetric]
      sc_account sc_persist sc_apply epoch_ms_def)

lemma sc_dispatch_step: "transaction sc_queued sc_dispatched"
  by (rule transaction.commit [OF sc_commit])
    (simp add: fresh_dispatch_def sc_queued_def sc_start_def empty_db_def)

lemma sc_dispatched_reachable: "reachable sc_dispatched"
  using sc_queued_reachable sc_dispatch_step by (rule reachable.step)

subsection \<open>Cancellation\<close>

definition sc_request :: "int \<Rightarrow> control_request" where
  "sc_request version = \<lparr>rq_tenant_id = ''t'', rq_job_id = ''j'', rq_reason = ''enough'', rq_idempotency_key = sc_key,
     rq_request_hash = sc_hash, rq_if_match = Some (etag version)\<rparr>"

definition sc_cancelled :: db where
  "sc_cancelled = snd (projr (cancel_job sc_services (sc_env ''g'' 5) sc_queued sc_user (sc_request 1)))"

definition sc_cancelling :: db where
  "sc_cancelling = snd (projr (cancel_job sc_services (sc_env ''g'' 5) sc_dispatched sc_user (sc_request 2)))"

lemma sc_version: "resolve_expected_version (VersionPrecondition (Some (etag 1))) = Inr 1"
  "resolve_expected_version (VersionPrecondition (Some (etag 2))) = Inr 2"
  by (rule resolve_small_etag; simp)+

lemmas sc_control = cancel_job_def control_def visible_submitter_def control_rows_def control_counters_def frozen_def
  cancel_change_def immediate_cancel_def active_states_def close_waiting_def adjust_counters_def adjust_counter_def
  live_attempt_def fence_attempt_def revoke_leases_def end_grants_def quarantine_def abandon_results_def
  abandon_checkpoints_def control_event_def record_event_def extend_retention_def sc_version sc_request_def

lemma sc_cancel: "\<exists>r. cancel_job sc_services (sc_env ''g'' 5) sc_queued sc_user (sc_request 1) = Inr (r, sc_cancelled)"
  by (simp add: sc_cancelled_def sc_control sc_guards sc_queued_def sc_store)

lemma sc_cancelled_job: "map j_state (jobs sc_cancelled) = [J_CANCELLED] \<and> map j_job_id (jobs sc_cancelled) = [''j'']"
  by (simp add: sc_cancelled_def sc_control sc_guards sc_queued_def sc_store)

lemma sc_cancel_active: "\<exists>r. cancel_job sc_services (sc_env ''g'' 5) sc_dispatched sc_user (sc_request 2) = Inr (r, sc_cancelling)"
  by (simp add: sc_cancelling_def sc_control sc_guards sc_dispatched_def sc_queued_def sc_rows sc_store)

lemma sc_cancelling_job: "map j_state (jobs sc_cancelling) = [J_CANCELLING] \<and> map j_job_id (jobs sc_cancelling) = [''j''] \<and>
    map j_job_fence (jobs sc_cancelling) = [2]"
  by (simp add: sc_cancelling_def sc_control sc_guards sc_dispatched_def sc_queued_def sc_rows sc_store)

lemma sc_cancelling_attempt: "map a_attempt_id (attempts sc_cancelling) = [''a''] \<and> map a_job_id (attempts sc_cancelling) = [''j'']"
  by (simp add: sc_cancelling_def sc_control sc_guards sc_dispatched_def sc_queued_def sc_rows sc_store)

lemma sc_cancel_steps: "transaction sc_queued sc_cancelled" "transaction sc_dispatched sc_cancelling"
  using sc_cancel sc_cancel_active by (auto intro: transaction.cancel)

lemma sc_cancel_reachable: "reachable sc_cancelled" "reachable sc_cancelling"
  using sc_queued_reachable sc_dispatched_reachable sc_cancel_steps by (auto intro: reachable.step)

end
