(* ===== verification/System_Facts.thy ===== *)
theory System_Facts
  imports System
begin

section \<open>Facts about reachable stores\<close>

text \<open>
  What the invariant says over the plain tables: the phases of a job as rows of the store, the
  admission counters as numbers of rows, and the monotone columns of the documented state machine.
\<close>

subsection \<open>The state machine\<close>

lemma reachable_from_initial:
  assumes "reachable db" "j \<in> set (jobs db)"
  shows "transition_row\<^sup>*\<^sup>* initial (machine_of j (part db (j_job_id j)))"
proof -
  have "\<forall>x m. abstract (part db x) = Some m \<longrightarrow> transition_row\<^sup>*\<^sup>* initial m" using assms(1)
  proof (induction rule: reachable.induct)
    case (init db)
    then show ?case by (simp add: empty_store_def abstract_def)
  next
    case (step db db')
    show ?case
    proof (intro allI impI)
      fix x m assume m: "abstract (part db' x) = Some m"
      have "moves (abstract (part db x)) (Some m)"
        using transaction_moves [OF step.hyps] m unfolding store_moves_def by metis
      then show "transition_row\<^sup>*\<^sup>* initial m"
        using step.IH by (cases "abstract (part db x)") (auto simp: moves_def intro: rtranclp_trans)
    qed
  qed
  then show ?thesis using job_abstract [OF assms] by blast
qed

text \<open>The columns that only grow.\<close>

lemma row_monotone:
  "transition_row m m' \<Longrightarrow> m_fence m \<le> m_fence m' \<and> m_version m \<le> m_version m' \<and> m_events m \<le> m_events m' \<and>
     m_retries m \<le> m_retries m' \<and> m_max_retries m' = m_max_retries m"
  by (induction rule: transition_row.induct) (simp_all add: tick_def)

lemma rows_monotone:
  "transition_row\<^sup>*\<^sup>* m m' \<Longrightarrow> m_fence m \<le> m_fence m' \<and> m_version m \<le> m_version m' \<and> m_events m \<le> m_events m' \<and>
     m_retries m \<le> m_retries m' \<and> m_max_retries m' = m_max_retries m"
proof (induction rule: rtranclp_induct)
  case (step y z)
  then show ?case using row_monotone [OF step.hyps(2)] by linarith
qed simp

lemma row_terminal:
  "transition_row m m' \<Longrightarrow> m_state m \<in> terminal_states \<Longrightarrow>
     m_state m' = m_state m \<and> m_desired m' = m_desired m \<and> m_retries m' = m_retries m \<and> m_fence m' = m_fence m"
  by (induction rule: transition_row.induct) (auto simp: tick_def terminal_states_def)

lemma rows_terminal:
  "transition_row\<^sup>*\<^sup>* m m' \<Longrightarrow> m_state m \<in> terminal_states \<Longrightarrow>
     m_state m' = m_state m \<and> m_desired m' = m_desired m \<and> m_retries m' = m_retries m \<and> m_fence m' = m_fence m"
proof (induction rule: rtranclp_induct)
  case (step y z)
  then have y: "m_state y = m_state m \<and> m_desired y = m_desired m \<and> m_retries y = m_retries m \<and> m_fence y = m_fence m"
    by simp
  then show ?case using row_terminal [OF step.hyps(2)] step.prems by simp
qed simp

subsection \<open>Jobs of reachable stores\<close>

lemma reachable_job:
  assumes "reachable db" "j \<in> set (jobs db)"
  shows "attempts_ok j (part db (j_job_id j))" "phase_ok j (part db (j_job_id j))" "control_ok j"
    "retries_ok j (part db (j_job_id j))" "log_ok j (part db (j_job_id j))" "results_ok j (part db (j_job_id j))"
  using inv_job(2) [OF reachable_inv [OF assms(1)] assms(2)] by (simp_all add: job_inv_def)

lemma reachable_distinct_jobs: "reachable db \<Longrightarrow> distinct (map j_job_id (jobs db))"
  by (rule inv_distinct_jobs [OF reachable_inv])

lemma job_unique: "reachable db \<Longrightarrow> j \<in> set (jobs db) \<Longrightarrow> i \<in> set (jobs db) \<Longrightarrow> j_job_id i = j_job_id j \<Longrightarrow> i = j"
  using reachable_distinct_jobs distinct_map_inj by metis

text \<open>A row of a job implies the job.\<close>

lemma job_of_part:
  assumes "reachable db" "part db x \<noteq> empty_part"
  obtains j where "j \<in> set (jobs db)" "j_job_id j = x"
  using inv_no_job [OF reachable_inv [OF assms(1)], of x] assms(2) by auto

lemma live_grants_empty: "live_grants empty_part = []"
  by (simp add: live_grants_def)

text \<open>The holder of a job by its state.\<close>

lemma phase_of_state:
  assumes "phase_ok j p"
  shows "j_state j \<in> {J_QUEUED, J_RETRY_WAIT, J_PAUSED, J_FAILED, J_CANCELLED} \<Longrightarrow> idle p"
    and "j_state j \<in> {J_DISPATCHING, J_RUNNING, J_PAUSING} \<Longrightarrow>
      \<exists>a al l g. held_by p a al l g \<and> a_job_fence a = j_job_fence j"
    and "j_state j \<in> {J_RECOVERING, J_CANCELLING} \<Longrightarrow> \<exists>a al. quarantined_by p a al"
  using assms by (cases "j_state j"; auto simp: phase_ok_def held_in_def)+

text \<open>Authority only exists in active states, and after success until the cleanup.\<close>

lemma live_grant_states:
  assumes "phase_ok j p" "live_grants p \<noteq> []"
  shows "j_state j \<in> {J_DISPATCHING, J_RUNNING, J_PAUSING, J_SUCCEEDED}"
  using assms by (cases "j_state j") (auto simp: phase_ok_def idle_def quarantined_by_def)

subsection \<open>Counting rows\<close>

text \<open>The jobs of a scope that have not ended, and the unreleased allocations of its jobs.\<close>

definition outstanding_jobs :: "db \<Rightarrow> scope \<Rightarrow> job_row list" where
  "outstanding_jobs db s = filter (\<lambda>j. s \<in> set (counter_scopes j) \<and> j_state j \<notin> terminal_states) (jobs db)"

definition active_allocations :: "db \<Rightarrow> scope \<Rightarrow> allocation_row list" where
  "active_allocations db s = filter (\<lambda>al. al_state al \<noteq> S_RELEASED \<and>
     list_ex (\<lambda>j. j_job_id j = al_job_id al \<and> s \<in> set (counter_scopes j)) (jobs db)) (allocations db)"

lemma sum_list_filter_one: "(\<Sum>x \<leftarrow> xs. if P x then 1 else 0) = int (length (filter P xs))"
  by (induction xs) simp_all

lemma counted_outstanding:
  assumes "inv db"
  shows "counted outstanding_of db s = int (length (outstanding_jobs db s))"
proof -
  have "outstanding_of s (part db (j_job_id j)) =
      (if s \<in> set (counter_scopes j) \<and> j_state j \<notin> terminal_states then 1 else 0)" if "j \<in> set (jobs db)" for j
    unfolding outstanding_of_def inv_job(1) [OF assms that] by simp
  then have "counted outstanding_of db s =
      (\<Sum>j \<leftarrow> jobs db. if s \<in> set (counter_scopes j) \<and> j_state j \<notin> terminal_states then 1 else 0)"
    unfolding counted_def map_map comp_def by (intro arg_cong [where f = sum_list] map_cong refl) blast
  then show ?thesis by (simp only: sum_list_filter_one outstanding_jobs_def)
qed

lemma counted_active:
  assumes "inv db"
  shows "counted active_of db s = int (length (active_allocations db s))"
proof -
  let ?Q = "\<lambda>al. al_state al \<noteq> S_RELEASED \<and> list_ex (\<lambda>j. j_job_id j = al_job_id al \<and> s \<in> set (counter_scopes j)) (jobs db)"
  have scope: "list_ex (\<lambda>i. j_job_id i = j_job_id j \<and> s \<in> set (counter_scopes i)) (jobs db) \<longleftrightarrow> s \<in> set (counter_scopes j)"
    if "j \<in> set (jobs db)" for j
    using that distinct_map_inj [OF inv_distinct_jobs [OF assms]] unfolding list_ex_iff by metis
  have "active_of s (part db (j_job_id j)) = (\<Sum>al \<leftarrow> filter (\<lambda>al. al_job_id al = j_job_id j) (allocations db).
      if ?Q al then 1 else 0)" if j: "j \<in> set (jobs db)" for j
  proof -
    have "filter ?Q (filter (\<lambda>al. al_job_id al = j_job_id j) (allocations db)) =
        (if s \<in> set (counter_scopes j) then unreleased (part db (j_job_id j)) else [])"
      unfolding unreleased_def part_sels filter_filter using scope [OF j]
      by (auto simp: filter_empty_conv intro!: filter_cong)
    then show ?thesis unfolding active_of_def inv_job(1) [OF assms j] sum_list_filter_one by simp
  qed
  then have "counted active_of db s = (\<Sum>x \<leftarrow> map j_job_id (jobs db).
      \<Sum>al \<leftarrow> filter (\<lambda>al. al_job_id al = x) (allocations db). if ?Q al then 1 else 0)"
    unfolding counted_def map_map comp_def by (intro arg_cong [where f = sum_list] map_cong refl) blast
  also have "\<dots> = (\<Sum>al \<leftarrow> allocations db. if ?Q al then 1 else 0)"
  proof (rule sum_list_partition [OF inv_distinct_jobs [OF assms]])
    fix al assume "al \<in> set (allocations db)"
    then have "al \<in> set (p_allocations (part db (al_job_id al)))" by simp
    then have "part db (al_job_id al) \<noteq> empty_part" by (metis empty_iff empty_part_sels(3) list.set(1))
    then show "al_job_id al \<in> set (map j_job_id (jobs db))"
      using inv_no_job [OF assms, of "al_job_id al"] by auto
  qed
  finally show ?thesis by (simp only: sum_list_filter_one active_allocations_def)
qed

lemma reachable_counters:
  assumes "reachable db" "k \<in> set (admission_counters db)"
  shows "k_outstanding k = int (length (outstanding_jobs db (k_scope k)))"
    "k_active_attempts k = int (length (active_allocations db (k_scope k)))"
  using reachable_inv [OF assms(1)] assms(2) counted_outstanding counted_active
  unfolding inv_def counters_ok_def by metis+

subsection \<open>Locking and adjusting counters\<close>

lemma lock_counters_total:
  assumes "distinct (map k_scope (admission_counters db))" "set ss \<subseteq> k_scope ` set (admission_counters db)"
  shows "\<exists>ks. lock_counters db ss = Inr ks \<and> set ks \<subseteq> set (admission_counters db) \<and> map k_scope ks = ss"
  using assms(2)
proof (induction ss)
  case (Cons s ss)
  then obtain k where k: "k \<in> set (admission_counters db)" "k_scope k = s" by auto
  have "filter (\<lambda>c. k_scope c = s) (admission_counters db) = [k]"
    using filter_key_singleton [OF assms(1) k(1)] k(2) by simp
  then show ?case using Cons k by (auto simp: one_or_none_def)
qed simp

lemma adjust_counters_total:
  assumes "\<And>k. k \<in> set ks \<Longrightarrow> outstanding \<le> k_outstanding k \<and> active \<le> k_active_attempts k"
  shows "\<exists>db'. adjust_counters db ks now outstanding active = Inr db'"
  unfolding adjust_counters_def
  by (rule fold_result_total) (use assms in \<open>force simp: adjust_counter_def not_less\<close>)

lemma scopes_of_job:
  assumes "reachable db" "j \<in> set (jobs db)" "s \<in> set (counter_scopes j)"
  shows "j_state j \<notin> terminal_states \<Longrightarrow> 1 \<le> length (outstanding_jobs db s)"
    and "al \<in> set (unreleased (part db (j_job_id j))) \<Longrightarrow> 1 \<le> length (active_allocations db s)"
proof -
  assume "j_state j \<notin> terminal_states"
  then have "j \<in> set (outstanding_jobs db s)" using assms by (simp add: outstanding_jobs_def)
  then show "1 \<le> length (outstanding_jobs db s)" by (cases "outstanding_jobs db s") simp_all
next
  assume "al \<in> set (unreleased (part db (j_job_id j)))"
  then have "al \<in> set (active_allocations db s)"
    using assms(2,3) by (auto simp: active_allocations_def unreleased_def list_ex_iff)
  then show "1 \<le> length (active_allocations db s)" by (cases "active_allocations db s") simp_all
qed

subsection \<open>Admission\<close>

lemma counter_lock_row:
  assumes "counter_lock env db s = Inr (c, db')"
  shows "filter (\<lambda>k. k_scope k = s) (admission_counters db') = [c]" "tenant_policies db' = tenant_policies db"
    "policy db' = policy db"
    "s' \<noteq> s \<Longrightarrow> filter (\<lambda>k. k_scope k = s') (admission_counters db') = filter (\<lambda>k. k_scope k = s') (admission_counters db)"
  using assms unfolding counter_lock_def Let_def
  by (auto simp: res_bind_Inr_iff one_Inr split: if_splits)

text \<open>The three counters an admission read are below the limits.\<close>

lemma admit_limits:
  assumes "admit sv env db live tid chk = Inr (tp, gc, db')"
  shows "tp \<in> set (tenant_policies db)" "tp_tenant_id tp = tid"
    "\<exists>c. filter (\<lambda>k. k_scope k = GLOBAL) (admission_counters db') = [c] \<and> k_outstanding c < pv_global_outstanding_limit (policy db)"
    "\<exists>c. filter (\<lambda>k. k_scope k = TENANT tid) (admission_counters db') = [c] \<and> k_outstanding c < tp_outstanding_limit tp"
    "\<exists>c. filter (\<lambda>k. k_scope k = USER tid (user_of live)) (admission_counters db') = [c] \<and>
       k_outstanding c < tp_user_outstanding_limit tp"
proof -
  obtain c1 db1 c2 db2 c3 db3 t4 db4 t5 where a: "one_or_none (filter (\<lambda>p. tp_tenant_id p = tid) (tenant_policies db)) = Inr (Some tp)"
      "counter_lock env db GLOBAL = Inr (c1, db1)" "counter_lock env db1 (TENANT tid) = Inr (c2, db2)"
      "counter_lock env db2 (USER tid (user_of live)) = Inr (c3, db3)" "admission_limits db3 tp c1 c2 c3 = Inr ()"
      "rate_lock db3 (TENANT tid) (tp_tenant_rate_burst tp) (tp_tenant_rate_per_second tp) (clk env 0) = Inr (t4, db4)"
      "rate_lock db4 (USER tid (user_of live)) (tp_user_rate_burst tp) (tp_user_rate_per_second tp) (clk env 1) = Inr (t5, db')"
    using assms by (auto simp: admit_def res_bind_Inr_iff Let_def split: if_splits option.splits)
  show "tp \<in> set (tenant_policies db)" "tp_tenant_id tp = tid"
    using a(1) filter_singleton [of "\<lambda>p. tp_tenant_id p = tid" "tenant_policies db" tp] by (simp_all add: one_or_none_Inr)
  note r1 = counter_lock_row [OF a(2)] and r2 = counter_lock_row [OF a(3)] and r3 = counter_lock_row [OF a(4)]
  have "same_core db3 db'" by (rule same_core_trans [OF rate_lock_core [OF a(6)] rate_lock_core [OF a(7)]])
  then have same: "admission_counters db' = admission_counters db3" by (simp add: same_core_def)
  have lim: "k_outstanding c1 < pv_global_outstanding_limit (policy db)" "k_outstanding c2 < tp_outstanding_limit tp"
    "k_outstanding c3 < tp_user_outstanding_limit tp"
    using a(5) r1(3) r2(3) r3(3) by (auto simp: admission_limits_def split: if_splits)
  show "\<exists>c. filter (\<lambda>k. k_scope k = GLOBAL) (admission_counters db') = [c] \<and> k_outstanding c < pv_global_outstanding_limit (policy db)"
    using lim(1) r1(1) r2(4) [of GLOBAL] r3(4) [of GLOBAL] unfolding same by simp
  show "\<exists>c. filter (\<lambda>k. k_scope k = TENANT tid) (admission_counters db') = [c] \<and> k_outstanding c < tp_outstanding_limit tp"
    using lim(2) r2(1) r3(4) [of "TENANT tid"] unfolding same by simp
  show "\<exists>c. filter (\<lambda>k. k_scope k = USER tid (user_of live)) (admission_counters db') = [c] \<and>
       k_outstanding c < tp_user_outstanding_limit tp"
    using lim(3) r3(1) unfolding same by simp
qed

lemma create_job_counters:
  assumes "create_job sv env db live tid x sess spec tp gc ro er act ar = Inr db'"
    and "filter (\<lambda>k. k_scope k = s) (admission_counters db) = [c]" "s \<in> {GLOBAL, TENANT tid, USER tid (user_of live)}"
  shows "\<exists>c' \<in> set (admission_counters db'). k_scope c' = s \<and> k_outstanding c' = k_outstanding c + 1"
    and "\<exists>j \<in> set (jobs db'). j_job_id j = x \<and> j_tenant_id j = tid \<and> j_submitter_user_id j = user_of live"
proof -
  obtain waiting input model where db': "db' = job_rows db (new_job x tid (user_of live) waiting ro (js_priority spec) (k_version gc)
      (started env)) sess spec input model er act ar (started env)"
    using assms(1) by (auto simp: create_job_def res_bind_Inr_iff split: if_splits)
  have c: "c \<in> set (admission_counters db)" "k_scope c = s" using filter_singleton [OF assms(2)] by simp_all
  show "\<exists>c' \<in> set (admission_counters db'). k_scope c' = s \<and> k_outstanding c' = k_outstanding c + 1"
    using c assms(3) unfolding db' job_rows_def
    by (intro bexI [of _ "c\<lparr>k_outstanding := k_outstanding c + 1, k_version := k_version c + 1, k_updated_at := started env\<rparr>"])
      (auto simp: set_update_where counter_scopes_def new_job_def intro!: image_eqI [where x = c])
  show "\<exists>j \<in> set (jobs db'). j_job_id j = x \<and> j_tenant_id j = tid \<and> j_submitter_user_id j = user_of live"
    unfolding db' job_rows_def by (simp add: new_job_def)
qed

end
