(* ===== verification/Transaction_Properties.thy ===== *)
theory Transaction_Properties
  imports Scenario System_Facts Request_Properties
begin

section \<open>Properties of single transactions\<close>

text \<open>
  What one transaction promises on each of its branches: the decision after a fault and the backoff of
  a retry, committing a scheduling decision, releasing resources, and the effect of the operational
  mode.
\<close>

subsection \<open>Recovery\<close>

text \<open>C16: The decision after a fault.  A retry is scheduled exactly when the job goes to wait for it, only after an
  infrastructure failure, within the budget, and only if the work can start over or continue from a
  checkpoint; it becomes due between one and thirty-one seconds later, no earlier than the doubling
  backoff.  A failure of any other class ends the job, and an infrastructure failure of a job that can
  start over never does while the budget lasts.\<close>

theorem recovery_decision:
  assumes "0 \<le> j_retry_count job" "0 \<le> jitter_ms env" "jitter_ms env \<le> 1000"
    and "out = recover_outcome env job attempt restart_safe checkpointed now"
  shows "(co_retry out \<noteq> None \<longleftrightarrow> co_state out = J_RETRY_WAIT) \<and>
    (co_state out = J_RETRY_WAIT \<longrightarrow> a_failure_class attempt = Some INFRASTRUCTURE \<and>
       j_retry_count job < j_max_retries job \<and> (restart_safe \<or> checkpointed)) \<and>
    (\<forall>r. co_retry out = Some r \<longrightarrow> rs_retry_number r = j_retry_count job + 1 \<and>
       now + seconds 1 \<le> rs_ready_at r \<and> rs_ready_at r \<le> now + seconds 31 \<and>
       now + seconds (min 30 (2 ^ nat (j_retry_count job))) \<le> rs_ready_at r) \<and>
    (a_failure_class attempt \<noteq> Some INFRASTRUCTURE \<longrightarrow> co_state out = J_FAILED) \<and>
    (a_failure_class attempt = Some INFRASTRUCTURE \<and> j_retry_count job < j_max_retries job \<and> restart_safe \<longrightarrow>
       co_state out \<in> {J_RETRY_WAIT, J_PAUSED})"
proof -
  define pow :: int where "pow = 2 ^ nat (j_retry_count job)"
  have "1 \<le> pow" by (simp add: pow_def)
  then have "now + seconds 1 \<le> now + retry_backoff (j_retry_count job + 1) (jitter_ms env)"
    "now + retry_backoff (j_retry_count job + 1) (jitter_ms env) \<le> now + seconds 31"
    "now + seconds (min 30 (2 ^ nat (j_retry_count job))) \<le> now + retry_backoff (j_retry_count job + 1) (jitter_ms env)"
    using assms(2,3) by (simp_all add: retry_backoff_def seconds_def milliseconds_def min_def flip: pow_def)
  then show ?thesis unfolding assms(4) recover_outcome_def Let_def by (auto split: if_splits)
qed

theorem recovery_decision_witness:
  "co_state (recover_outcome (sc_env ''x'' 9) sc_job (sc_attempt\<lparr>a_failure_class := Some OOM\<rparr>) True False 9) = J_FAILED"
  using recovery_decision [of sc_job "sc_env ''x'' 9", OF _ _ _ refl, of "sc_attempt\<lparr>a_failure_class := Some OOM\<rparr>" True False 9]
  by (simp add: sc_job_def new_job_def sc_env_def)

subsection \<open>Committing a decision\<close>

text \<open>What a committed dispatch read, and the rows it left.\<close>

lemma commit_dispatch_Inr:
  assumes "commit_decision sn co env db (Dispatch jid v pv rid) = Inr (Dispatch jid v pv rid, db')"
  obtains w iv fresh j spec inc db2 where "sole_worker db = Inr (Some w, Some iv)" "sn_read sn db iv (clk env 1) = Inr fresh"
    "decide fresh (epoch_ms (clk env 1)) = Inr (Dispatch jid v pv rid)" "operational_mode_of db = NORMAL"
    "\<forall>i \<in> {0, 1, 3}. leader (co_holder_id co) (co_epoch co) (clk env i) (co_lead co) = Inr (clk env i)"
    "worker_is_ready w (clk env 1)" "filter (\<lambda>j. j_job_id j = jid) (jobs db) = [j]" "filter (\<lambda>sp. sp_job_id sp = jid) (job_specs db) = [spec]"
    "dispatch_job env db2 w j (clk env 1) (co_epoch co) (co_holder_id co) v rid = Inr db'" "same_core db db2"
    "let rows = dispatch_rows env db2 j w inc spec (clk env 1) (co_epoch co) in
       attempts db' = attempts rows \<and> allocations db' = allocations rows \<and> attempt_leases db' = attempt_leases rows"
  using assms
proof (cases rule: commit_decision_Inr)
  case (2 worker inventory job db1 db2 fresh)
  let ?now = "clk env 1"
  have core: "same_core db db2"
    using charge_frame_core [OF account_locked_frame [OF 2(10)]] persist_fairness_core [OF 2(11)] same_core_trans by blast
  have specs: "job_specs db2 = job_specs db"
    using account_locked_frame [OF 2(10)] 2(11) by (auto simp: persist_fairness_locked_def charge_frame_def split: option.splits sum.splits)
  obtain j where j: "job = Some j" "dispatch_job env db2 worker j ?now (co_epoch co) (co_holder_id co) v rid = Inr db'"
    using 2(12) by (cases job) (simp_all add: apply_decision_def del: One_nat_def)
  have sole: "filter (\<lambda>j. j_job_id j = jid) (jobs db) = [j]"
    using 2(4) j(1) by (auto simp: decision_job_def res_simps split: if_splits)
  obtain spec inc db3 db4 where r: "sp_job_id spec = j_job_id j" "spec \<in> set (job_specs db2)"
      "count_attempt ?now (dispatch_rows env db2 j worker inc spec ?now (co_epoch co)) (counter_scopes j) = Inr db3"
      "same_core (coordinator_event db3 (Some j) ?now (co_holder_id co) ''JOB_DISPATCHING'' None False
        (\<lambda>i. i\<lparr>j_state := J_DISPATCHING, j_job_fence := j_job_fence j + 1, j_waiting_reason := None\<rparr>)) db4"
      "rebase_locked db4 ?now (segment_ids env) = Inr db'"
    by (rule dispatch_job_Inr [OF j(2)]) blast
  obtain sp where sp: "filter (\<lambda>sp. sp_job_id sp = j_job_id j) (job_specs db2) = [sp]"
    using j(2) by (auto simp: dispatch_job_def res_simps split: if_splits)
  moreover have "spec \<in> set (filter (\<lambda>sp. sp_job_id sp = j_job_id j) (job_specs db2))" using r(1,2) by simp
  ultimately have "filter (\<lambda>sp. sp_job_id sp = jid) (job_specs db) = [spec]" using filter_singleton [OF sole] by (simp add: specs)
  obtain cs where cs: "db3 = (dispatch_rows env db2 j worker inc spec ?now (co_epoch co))\<lparr>admission_counters := cs\<rparr>"
    using count_attempt_Inr [OF r(3) distinct_counter_scopes] by blast
  obtain segs where "db' = db4\<lparr>allocation_ledger_segments := segs\<rparr>" using rebase_locked_core [OF r(5)] by blast
  then have tables: "attempts db' = attempts db3" "allocations db' = allocations db3" "attempt_leases db' = attempt_leases db3"
    using r(4) by (simp_all add: same_core_def coordinator_event_def)
  show thesis
    by (rule that [OF 2(2,13,6,3) _ 2(5) sole \<open>filter (\<lambda>sp. sp_job_id sp = jid) (job_specs db) = [spec]\<close> j(2) core])
      (use 2(7,8,9) tables cs in \<open>simp_all add: check_leader_def Let_def del: One_nat_def\<close>)
qed simp

text \<open>C9: A dispatch that was committed is the policy's decision on the snapshot read under the locks, made by the
  current leader in normal mode for a ready worker.  The job was queued at the version the decision
  names and without live authority; it is given one new attempt under the next fence with the
  allocation its specification asks for, held, and a lease of forty-five seconds.\<close>

theorem committed_dispatch:
  assumes "commit_decision sn co env db (Dispatch jid v pv rid) = Inr (Dispatch jid v pv rid, db')"
  shows "(\<exists>w iv fresh. sole_worker db = Inr (Some w, Some iv) \<and> sn_read sn db iv (clk env 1) = Inr fresh \<and>
       decide fresh (epoch_ms (clk env 1)) = Inr (Dispatch jid v pv rid)) \<and>
    operational_mode_of db = NORMAL \<and>
    (\<forall>i \<in> {0, 1, 3}. leader (co_holder_id co) (co_epoch co) (clk env i) (co_lead co) = Inr (clk env i)) \<and>
    (\<exists>job \<in> set (jobs db). \<exists>w \<in> set (workers db). \<exists>a al l.
       j_job_id job = jid \<and> j_state job = J_QUEUED \<and> j_version job = v \<and> worker_is_ready w (clk env 1) \<and>
       (\<forall>g \<in> set (attempt_authority_grants db). g_job_id g = jid \<longrightarrow> g_ended_at g \<noteq> None) \<and>
       attempts db' = attempts db @ [a] \<and> allocations db' = allocations db @ [al] \<and>
       attempt_leases db' = attempt_leases db @ [l] \<and>
       a_job_id a = jid \<and> a_worker_id a = w_worker_id w \<and> a_job_fence a = j_job_fence job + 1 \<and>
       al_attempt_id al = a_attempt_id a \<and> al_state al = S_HELD \<and>
       l_attempt_id l = a_attempt_id a \<and> l_job_fence l = a_job_fence a \<and> l_expires_at l = clk env 1 + seconds 45)"
proof -
  let ?now = "clk env 1"
  obtain w iv fresh j spec inc db2 where c: "sole_worker db = Inr (Some w, Some iv)" "sn_read sn db iv ?now = Inr fresh"
    "decide fresh (epoch_ms ?now) = Inr (Dispatch jid v pv rid)" "operational_mode_of db = NORMAL"
    "\<forall>i \<in> {0, 1, 3}. leader (co_holder_id co) (co_epoch co) (clk env i) (co_lead co) = Inr (clk env i)"
    "worker_is_ready w ?now" "filter (\<lambda>j. j_job_id j = jid) (jobs db) = [j]"
    "dispatch_job env db2 w j ?now (co_epoch co) (co_holder_id co) v rid = Inr db'" "same_core db db2"
    "let rows = dispatch_rows env db2 j w inc spec ?now (co_epoch co) in
       attempts db' = attempts rows \<and> allocations db' = allocations rows \<and> attempt_leases db' = attempt_leases rows"
    by (rule commit_dispatch_Inr [OF assms]) blast
  have mem: "j \<in> set (jobs db)" "j_job_id j = jid" using filter_singleton [OF c(7)] by simp_all
  have w: "w \<in> set (workers db)" using c(1) by (auto simp: sole_worker_def res_bind_Inr_iff split: list.splits)
  have q: "j_state j = J_QUEUED" "j_version j = v"
    "\<not> list_ex (\<lambda>g. g_job_id g = j_job_id j \<and> g_ended_at g = None) (attempt_authority_grants db2)"
    using c(8) by (auto simp: dispatch_job_def split: if_splits)
  have rows: "\<exists>a al l. attempts db' = attempts db @ [a] \<and> allocations db' = allocations db @ [al] \<and>
       attempt_leases db' = attempt_leases db @ [l] \<and>
       a_job_id a = jid \<and> a_worker_id a = w_worker_id w \<and> a_job_fence a = j_job_fence j + 1 \<and>
       al_attempt_id al = a_attempt_id a \<and> al_state al = S_HELD \<and>
       l_attempt_id l = a_attempt_id a \<and> l_job_fence l = a_job_fence a \<and> l_expires_at l = ?now + seconds 45"
    using c(9,10) mem(2) by (simp add: dispatch_rows_def new_attempt_def Let_def same_core_def)
  have "\<forall>g \<in> set (attempt_authority_grants db). g_job_id g = jid \<longrightarrow> g_ended_at g \<noteq> None"
    using q(3) c(9) mem(2) by (simp add: list_ex_iff same_core_def)
  with c(1-6) mem w q(1,2) rows show ?thesis by blast
qed

theorem committed_dispatch_witness:
  "operational_mode_of sc_queued = NORMAL \<and> (\<exists>a. attempts sc_dispatched = attempts sc_queued @ [a] \<and> a_job_fence a = 1)"
  using committed_dispatch [OF sc_commit [unfolded sc_decision_def]]
  by (auto simp: sc_dispatched_def sc_queued_def sc_job_def new_job_def)

subsection \<open>Frozen writes\<close>

text \<open>The transactions that check the operational mode.\<close>

inductive guarded :: "db \<Rightarrow> db \<Rightarrow> bool" where
  submit: "submit sv env db caller tenant spec key h = Inr (r, db') \<Longrightarrow> guarded db db'"
| retry: "retry_failed_job sv revalidate env db caller request checkpoint scan = Inr (r, db') \<Longrightarrow> guarded db db'"
| cancel: "cancel_job sv env db caller request = Inr (r, db') \<Longrightarrow> guarded db db'"
| pause: "pause_job sv env db caller request = Inr (r, db') \<Longrightarrow> guarded db db'"
| resume: "resume_job sv compatible env db caller request = Inr (r, db') \<Longrightarrow> guarded db db'"
| commit: "commit_decision sn co env db dec = Inr (dec', db') \<Longrightarrow> guarded db db'"
| reap: "reap_lease co env db lease = Inr (b, db') \<Longrightarrow> guarded db db'"
| promote: "promote_retries runs_on co env db = Inr (n, db') \<Longrightarrow> guarded db db'"
| renew: "renew_attempt env db w cred aid cb h au seq progress = Inr (a, db') \<Longrightarrow> guarded db db'"
| adopt: "adopt_attempt env db w cred aid cb h adoption = Inr (a, db') \<Longrightarrow> guarded db db'"
| reserve_checkpoint: "reserve_checkpoint env db cred aid cb h au = Inr (a, db') \<Longrightarrow> guarded db db'"
| fail: "fail_attempt env db w cred aid cb h failure = Inr (a, db') \<Longrightarrow> guarded db db'"
| cleanup: "report_cleanup env db w cred aid cb h cleanup_req = Inr (a, db') \<Longrightarrow> guarded db db'"
| drain: "drain_worker sv env db caller wreq = Inr (r, db') \<Longrightarrow> guarded db db'"
| disable: "disable_worker sv env db caller wreq = Inr (r, db') \<Longrightarrow> guarded db db'"
| enable: "enable_worker ready sv env db caller wreq = Inr (r, db') \<Longrightarrow> guarded db db'"

lemma begin_idempotency_mode:
  assumes "begin_idempotency db i sc h ex w = Inr (rid, replay, db1)"
  shows "policy db1 = policy db" "replay \<noteq> None \<Longrightarrow> db1 = db"
  using assms by (auto simp: begin_idempotency_def one_or_none_def split: if_splits option.splits list.splits)

lemma begin_callback_mode:
  assumes "begin_callback db i w op cb h = Inr (rid, replay, db1)"
  shows "policy db1 = policy db" "replay \<noteq> None \<Longrightarrow> db1 = db"
  using assms by (auto simp: begin_callback_def res_simps split: if_splits option.splits)

lemmas mode_defs = frozen_def operational_mode_of_def

text \<open>A request whose body refuses in the frozen mode only answers replays.\<close>

lemma idempotent_frozen:
  assumes "res_bind (begin_idempotency db i sc h ex w) (\<lambda>(rid, replay, db1).
      case replay of Some response \<Rightarrow> Inr (response, db1) | None \<Rightarrow> body rid db1) = Inr (r, db')"
    and "\<And>rid db1 x. policy db1 = policy db \<Longrightarrow> body rid db1 \<noteq> Inr x"
  shows "db' = db"
proof -
  obtain rid replay db1 where b: "begin_idempotency db i sc h ex w = Inr (rid, replay, db1)"
    using assms(1) by (auto simp: res_bind_Inr_iff)
  note mode = begin_idempotency_mode [OF b]
  show ?thesis
  proof (cases replay)
    case None
    then show ?thesis using assms(1) assms(2) [OF mode(1), of rid "(r, db')"] b by simp
  next
    case (Some a)
    then show ?thesis using assms(1) b mode(2) by simp
  qed
qed

lemma control_frozen:
  assumes "control sv env db caller request op act change = Inr (r, db')" "frozen db"
  shows "db' = db"
proof -
  obtain live sub where a: "authorize sv db caller (rq_tenant_id request) True = Inr live"
    "visible_submitter db live (rq_tenant_id request) (rq_job_id request) = Inr sub"
    using assms(1) by (auto simp: control_def res_bind_Inr_iff Let_def)
  show ?thesis using assms(1) unfolding control_def Let_def a res_bind_simps
    by (elim idempotent_frozen) (use assms(2) in \<open>auto simp: control_rows_def mode_defs res_bind_Inr_iff\<close>)
qed

lemma mutate_worker_frozen:
  assumes "mutate_worker sv env db caller request op act status change = Inr (r, db')" "frozen db"
  shows "db' = db"
proof -
  obtain live where a: "admin_authorize sv db caller True = Inr live"
    using assms(1) by (auto simp: mutate_worker_def res_bind_Inr_iff Let_def)
  show ?thesis using assms(1) unfolding mutate_worker_def Let_def a res_bind_simps
    by (elim idempotent_frozen) (use assms(2) in \<open>auto simp: ensure_mutable_def mode_defs res_bind_Inr_iff\<close>)
qed

lemma admit_frozen: "policy db1 = policy db \<Longrightarrow> frozen db \<Longrightarrow> admit sv env db1 live tid chk \<noteq> Inr x"
  by (auto simp: admit_def mode_defs Let_def)

lemma submit_frozen:
  assumes "submit sv env db caller tid spec key h = Inr (r, db')" "frozen db"
  shows "db' = db"
proof -
  obtain live where a: "authorize sv db caller tid True = Inr live"
    using assms(1) by (auto simp: submit_def res_bind_Inr_iff)
  show ?thesis using assms(1) unfolding submit_def a res_bind_simps
    by (elim idempotent_frozen) (use assms(2) admit_frozen in \<open>auto simp: res_bind_Inr_iff\<close>)
qed

lemma retry_frozen:
  assumes "retry_failed_job sv revalidate env db caller request cid scan = Inr (r, db')" "frozen db"
  shows "db' = db"
proof -
  obtain live sub where a: "authorize sv db caller (rq_tenant_id request) True = Inr live"
    "visible_submitter db live (rq_tenant_id request) (rq_job_id request) = Inr sub"
    using assms(1) by (auto simp: retry_failed_job_def res_bind_Inr_iff Let_def)
  show ?thesis using assms(1) unfolding retry_failed_job_def Let_def a res_bind_simps
    by (elim idempotent_frozen) (use assms(2) admit_frozen in \<open>auto simp: res_bind_Inr_iff\<close>)
qed

text \<open>The callbacks that read the mode.\<close>

lemma callback_frozen:
  assumes "with_callback env db au cred aid cb h op body = Inr (a, db')"
    and "\<And>db1 t x. policy db1 = policy db \<Longrightarrow> body db1 t \<noteq> Inr x"
  shows "db' = db"
proof -
  obtain receipt rows db1 where c: "callback env db au cred aid cb h op = Inr (receipt, rows, db1)"
    using assms(1) by (auto simp: with_callback_def res_bind_Inr_iff)
  obtain receipt' replay where b: "begin_callback db (ids env 0) (au_worker_id au) op cb h = Inr (receipt', replay, db1)"
    and r: "replay = None \<longrightarrow> (\<exists>t. rows = Inr t)"
    using c by (auto simp: callback_def res_bind_Inr_iff split: if_splits option.splits)
  note mode = begin_callback_mode [OF b]
  show ?thesis
  proof (cases rows)
    case (Inl x)
    then show ?thesis using assms(1) c r mode(2) by (auto simp: with_callback_def)
  next
    case (Inr t)
    then show ?thesis using assms(1) c assms(2) [OF mode(1)] by (auto simp: with_callback_def res_bind_Inr_iff)
  qed
qed

lemma renew_frozen:
  assumes "renew_attempt env db w cred aid cb h au seq progress = Inr (a, db')" "frozen db"
  shows "db' = db"
proof -
  obtain receipt replay db1 where b: "begin_callback db (ids env 0) w ''workerRenewAttempt'' cb h = Inr (receipt, replay, db1)"
    using assms(1) by (auto simp: renew_attempt_def res_bind_Inr_iff)
  note mode = begin_callback_mode [OF b]
  have fr: "frozen db1" using assms(2) mode(1) by (simp add: mode_defs)
  show ?thesis using assms(1) mode(2) fr unfolding renew_attempt_def b res_bind_simps prod.case
    by (cases replay) (auto simp: res_bind_Inr_iff split: if_splits)
qed

lemma adopt_frozen:
  assumes "adopt_attempt env db w cred aid cb h request = Inr (a, db')" "frozen db"
  shows "db' = db"
proof -
  obtain receipt replay db1 where b: "begin_callback db (ids env 0) w ''workerAdoptAttempt'' cb h = Inr (receipt, replay, db1)"
    using assms(1) by (auto simp: adopt_attempt_def res_bind_Inr_iff)
  note mode = begin_callback_mode [OF b]
  have fr: "frozen db1" using assms(2) mode(1) by (simp add: mode_defs)
  show ?thesis using assms(1) mode(2) fr unfolding adopt_attempt_def b res_bind_simps prod.case Let_def
    by (cases replay) (auto simp: res_bind_Inr_iff split: if_splits)
qed

lemma fail_frozen:
  assumes "fail_attempt env db w cred aid cb h request = Inr (a, db')" "frozen db"
  shows "db' = db"
proof -
  obtain receipt replay db1 where b: "begin_callback db (ids env 0) w ''workerFailAttempt'' cb h = Inr (receipt, replay, db1)"
    using assms(1) by (auto simp: fail_attempt_def res_bind_Inr_iff)
  note mode = begin_callback_mode [OF b]
  obtain m ks where m: "lock_policy_counters db1 aid = Inr (m, ks)"
    using assms(1) unfolding fail_attempt_def b res_bind_simps prod.case by (auto simp: res_bind_Inr_iff)
  then have "m = WRITE_FROZEN" using assms(2) mode(1)
    by (auto simp: lock_policy_counters_def res_bind_Inr_iff mode_defs split: option.splits)
  then show ?thesis using assms(1) mode(2) unfolding fail_attempt_def b m res_bind_simps prod.case
    by (cases replay) (auto simp: res_bind_Inr_iff split: if_splits)
qed

lemma cleanup_frozen:
  assumes "report_cleanup env db w cred aid cb h request = Inr (a, db')" "frozen db"
  shows "db' = db"
proof -
  obtain receipt replay db1 where b: "begin_callback db (ids env 0) w ''workerReportCleanup'' cb h = Inr (receipt, replay, db1)"
    using assms(1) by (auto simp: report_cleanup_def res_bind_Inr_iff)
  note mode = begin_callback_mode [OF b]
  obtain m ks where m: "lock_policy_counters db1 aid = Inr (m, ks)"
    using assms(1) unfolding report_cleanup_def b res_bind_simps prod.case by (auto simp: res_bind_Inr_iff)
  then have "m = WRITE_FROZEN" using assms(2) mode(1)
    by (auto simp: lock_policy_counters_def res_bind_Inr_iff mode_defs split: option.splits)
  then show ?thesis using assms(1) mode(2) unfolding report_cleanup_def b m res_bind_simps prod.case Let_def
    by (cases replay) (auto simp: res_bind_Inr_iff split: if_splits)
qed

lemma coordinator_frozen:
  assumes "frozen db"
  shows "reap_lease co env db lease = Inr (b, db') \<Longrightarrow> db' = db"
    and "promote_retries runs_on co env db = Inr (n, db') \<Longrightarrow> db' = db"
    and "commit_decision sn co env db dec = Inr (dec', db') \<Longrightarrow> db' = db"
proof -
  show "reap_lease co env db lease = Inr (b, db') \<Longrightarrow> db' = db"
    using assms by (auto simp: reap_lease_def res_bind_Inr_iff)
  show "promote_retries runs_on co env db = Inr (n, db') \<Longrightarrow> db' = db"
    using assms by (auto simp: promote_retries_def res_bind_Inr_iff split: if_splits)
  show "commit_decision sn co env db dec = Inr (dec', db') \<Longrightarrow> db' = db"
    by (erule commit_decision_Inr) (use assms in \<open>simp_all add: mode_defs\<close>)
qed

text \<open>C15: While writes are frozen, submission, retry, cancel, pause, resume, the worker administration, the
  coordinator's dispatch, reaping and promotion, and the callbacks that renew, adopt, fail, clean up
  or reserve a checkpoint change nothing: whatever they answer, replays included, the store is the
  one before.\<close>

theorem frozen_changes_nothing:
  assumes "guarded db db'" "frozen db"
  shows "db' = db"
  using assms
proof (induction rule: guarded.induct)
  case (reserve_checkpoint env db cred aid cb h au a db')
  show ?case
    by (rule callback_frozen [OF reserve_checkpoint(1) [unfolded reserve_checkpoint_def]])
      (use reserve_checkpoint(2) in \<open>simp add: mode_defs Let_def\<close>)
qed (auto simp: cancel_job_def pause_job_def resume_job_def drain_worker_def disable_worker_def enable_worker_def
    dest: submit_frozen retry_frozen control_frozen mutate_worker_frozen coordinator_frozen renew_frozen adopt_frozen
      fail_frozen cleanup_frozen)

definition sc_frozen :: "db \<Rightarrow> db" where
  "sc_frozen db = db\<lparr>policy := (policy db)\<lparr>pv_operational_mode := WRITE_FROZEN\<rparr>\<rparr>"

theorem frozen_changes_nothing_witness:
  "\<exists>b db'. reap_lease sc_lead (sc_env ''x'' 0) (sc_frozen sc_dispatched) ''a2'' = Inr (b, db') \<and> db' = sc_frozen sc_dispatched"
proof -
  have fr: "frozen (sc_frozen sc_dispatched)" by (simp add: sc_frozen_def mode_defs)
  then obtain db' where "reap_lease sc_lead (sc_env ''x'' 0) (sc_frozen sc_dispatched) ''a2'' = Inr (False, db')"
    by (simp add: reap_lease_def check_leader_def leader_def sc_lead_def sc_env_def seconds_def)
  then show ?thesis using frozen_changes_nothing [OF guarded.reap fr] by blast
qed

text \<open>The callbacks of \<^verbatim>\<open>execution_service.py\<close> read the mode and do not use it: an attempt is claimed while
  writes are frozen.\<close>

theorem claim_ignores_freeze:
  "\<exists>a db'. claim_attempt (sc_env ''b'' 1) (sc_frozen sc_dispatched) (Some \<lparr>sc_remaining = [], sc_selected = None,
       sc_incompatible = [], sc_attempt_number = 1, sc_inherited = False, sc_restart_safe = True\<rparr>) ''secret'' ''a'' ''cb'' ''p''
       \<lparr>au_worker_id = ''w'', au_worker_incarnation_id = ''i'', au_attempt_id = ''a'', au_allocation_id = ''a1'',
        au_lease_id = ''a2'', au_job_fence = 1\<rparr> = Inr (a, db') \<and>
     frozen (sc_frozen sc_dispatched) \<and> map a_state (attempts (sc_frozen sc_dispatched)) = [A_CREATED] \<and>
     map a_state (attempts db') = [A_CLAIMED]"
  by (simp add: claim_attempt_def with_callback_def callback_def begin_callback_def receipt_scope_def worker_auth_def
      revalidate_worker_credential_def require_current_incarnation_def authority_rows_def authority_stale_def
      live_authority_def claim_context_def spec_of_job_def template_of_spec_def claim_inputs_def input_ids_def
      restore_decision_def restorable_ids_def restore_order_def restore_events_def complete_callback_def
      one_or_none_def one_def List.map_filter_def mode_defs sc_frozen_def sc_dispatched_def sc_queued_def sc_rows sc_store Let_def)

subsection \<open>Verified release\<close>

text \<open>C14: Resources come back only with a proof.  If a cleanup report changes an allocation, it released exactly the
  allocation it names and no other, the report came from the worker of the attempt under the attempt's
  fence, its proof is valid for the container the store knows, and the job had already left the states
  in which the attempt may still run.\<close>

theorem release_verified:
  assumes "report_cleanup env db wid cred aid cb h request = Inr (r, db')" "allocations db' \<noteq> allocations db"
  shows "allocations db' = update_where (\<lambda>al. al_allocation_id al = cq_allocation_id request)
      (\<lambda>al. al\<lparr>al_state := S_RELEASED, al_released_at := Some (clk env 1), al_release_reason := Some ''VERIFIED_CLEANUP''\<rparr>)
      (allocations db) \<and>
    (\<exists>a \<in> set (attempts db). \<exists>j \<in> set (jobs db). \<exists>c.
      a_attempt_id a = aid \<and> a_worker_id a = wid \<and> a_job_fence a = cq_job_fence request \<and> j_job_id j = a_job_id a \<and>
      j_state j \<in> terminal_states \<union> {J_RECOVERING, J_CANCELLING, J_PAUSING} \<and>
      container_of db aid = Inr c \<and> proof_valid a c (cq_proof request))"
  using assms(1)
proof (cases rule: report_cleanup_Inr)
  case same
  then show ?thesis using assms(2) by (simp add: same_core_def)
next
  case (release db1 mode ks t db2)
  note rows = cleanup_rows_Inr [OF release(4)]
  have core: "attempts db1 = attempts db" "jobs db1 = jobs db" "allocations db1 = allocations db" "allocations db' = allocations db2"
    using release(1,8) by (simp_all add: same_core_def)
  have "container_of db aid = Inr (ct_container t)" using rows(8) release(2) by (simp add: container_of_def)
  moreover have "j_state (ct_job t) \<in> terminal_states \<union> {J_RECOVERING, J_CANCELLING, J_PAUSING}"
    using release(6) by (auto simp: cleanup_guard_def Let_def split: if_splits)
  ultimately show ?thesis
    using release_locked_allocations [OF release(7)] core rows(6,7,9) filter_singleton [OF rows(1)] filter_singleton [OF rows(2)]
    by (intro conjI bexI [of _ "ct_attempt t"] bexI [of _ "ct_job t"] exI [of _ "ct_container t"]) simp_all
qed

definition sc_cleanup_request :: cleanup_request where
  "sc_cleanup_request = \<lparr>cq_worker_id = ''w'', cq_worker_incarnation_id = ''i'', cq_attempt_id = ''a'', cq_allocation_id = ''a1'',
     cq_job_fence = 1, cq_proof = \<lparr>pf_startup_nonce = ''a3'', pf_executor_operation_sequence = 1, pf_kind = NoContainer 1\<rparr>\<rparr>"

definition sc_cleaned :: "(acknowledgment \<times> db) tx" where
  "sc_cleaned = report_cleanup (sc_env ''f'' 6) sc_cancelling ''w'' ''secret'' ''a'' ''cb'' ''p'' sc_cleanup_request"

lemma sc_cleanup:
  "\<exists>r db'. sc_cleaned = Inr (r, db') \<and> map al_state (allocations db') = [S_RELEASED] \<and>
     map al_state (allocations sc_cancelling) = [S_QUARANTINED] \<and> map j_state (jobs db') = [J_CANCELLED]"
  by (simp add: sc_cleaned_def report_cleanup_def begin_callback_def receipt_scope_def lock_policy_counters_def worker_auth_def
      revalidate_worker_credential_def cleanup_rows_def cleanup_lineage_def container_of_def proof_valid_def
      operation_sequence_def cleanup_guard_def release_locked_def outcome_of_def ended_attempt_def release_rows_def
      finish_rows_def worker_event_def store_cleanup_acknowledgment_def complete_callback_def sc_cleanup_request_def
      elapsed_seconds_def split_charge.simps sc_ledger terminal_states_def
      sc_cancelling_def sc_control sc_guards sc_dispatched_def sc_queued_def sc_rows sc_store)

theorem release_verified_witness:
  "\<exists>r db' a. sc_cleaned = Inr (r, db') \<and> a \<in> set (attempts sc_cancelling) \<and> a_attempt_id a = ''a'' \<and>
     (\<exists>c. proof_valid a c (cq_proof sc_cleanup_request))"
proof -
  obtain r db' where c: "sc_cleaned = Inr (r, db')" "map al_state (allocations db') = [S_RELEASED]"
    "map al_state (allocations sc_cancelling) = [S_QUARANTINED]" using sc_cleanup by (elim exE conjE)
  then have "allocations db' \<noteq> allocations sc_cancelling" by auto
  then show ?thesis using c(1) release_verified [OF c(1) [unfolded sc_cleaned_def]] by blast
qed

end
