(* ===== verification/Snapshot_Properties.thy ===== *)
theory Snapshot_Properties
  imports Snapshot_Facts Transaction_Properties
begin

section \<open>From the queue tables to a running job\<close>

text \<open>
  Properties that span the tables the triggers keep, the snapshot a tick reads from them, the policy and
  the commit: a dispatch keeps every limit, a tenant's window is that of a plain query over its jobs, and
  paging through an eligibility event changes what one pass would.
\<close>

text \<open>The batches of successive ticks.\<close>

fun replay_batches ::
  "(template_row \<Rightarrow> inventory_row \<Rightarrow> bool) \<Rightarrow> timestamp list \<Rightarrow> eligibility_event list \<Rightarrow> db \<Rightarrow> eligibility_event list \<times> db" where
  "replay_batches runs_on [] evs db = (evs, db)"
| "replay_batches runs_on (now # ts) evs db =
     (case process_eligibility_batch runs_on db evs now of (_, evs', db') \<Rightarrow> replay_batches runs_on ts evs' db')"

definition sc_suspension :: eligibility_event where
  "sc_suspension = \<lparr>ee_event_id = 1, ee_tenant_id = ''t'', ee_occurred_at = 5, ee_rebuild = False,
     ee_old_state = \<lparr>es_enabled = True, es_cpu = 4, es_memory = 8, es_inventory = Some sc_inventory\<rparr>,
     ee_new_state = \<lparr>es_enabled = False, es_cpu = 4, es_memory = 8, es_inventory = Some sc_inventory\<rparr>,
     ee_last_job_id = None, ee_last_processed_at = None, ee_completed_at = None\<rparr>"

subsection \<open>Limits\<close>

lemma one_more_held:
  assumes "allocations db' = allocations db @ [al]" "al_state al = S_HELD"
  shows "sum_list (map f (unreleased_rows db')) = sum_list (map f (unreleased_rows db)) + f al"
    "held_sum f db' t = held_sum f db t + (if al_tenant_id al = t then f al else 0)"
  using assms by (simp_all add: unreleased_rows_def held_sum_def)

text \<open>C10: A committed dispatch keeps every limit.  When the coordinator dispatches on a snapshot it read from the
  tables, the allocations that are not released afterwards, the new one included, still fit the
  inventory of the worker; those of the tenant fit its policy; the tenant and the submitter had fewer
  active attempts than they may have; and the worker can run the template of the job.\<close>

theorem dispatch_keeps_limits:
  assumes "commit_decision (snapshot_reader_of runs_on qt evs cursors quota_bytes) co env db (Dispatch jid v pv rid) =
    Inr (Dispatch jid v pv rid, db')"
  shows "\<exists>w iv. sole_worker db = Inr (Some w, Some iv) \<and>
    sum_list (map al_cpu_millis (unreleased_rows db')) \<le> iv_allocatable_cpu_millis iv \<and>
    sum_list (map al_memory_bytes (unreleased_rows db')) \<le> iv_allocatable_memory_bytes iv \<and>
    (\<exists>j \<in> set (jobs db). \<exists>sp \<in> set (job_specs db). \<exists>p \<in> set (tenant_policies db). j_job_id j = jid \<and> sp_job_id sp = jid \<and>
       tp_tenant_id p = j_tenant_id j \<and>
       held_sum al_cpu_millis db' (j_tenant_id j) \<le> tp_cpu_limit_millis p \<and>
       held_sum al_memory_bytes db' (j_tenant_id j) \<le> tp_memory_limit_bytes p \<and>
       active_attempts_of db (TENANT (j_tenant_id j)) < tp_tenant_active_limit p \<and>
       active_attempts_of db (USER (j_tenant_id j) (j_submitter_user_id j)) < tp_user_active_limit p \<and>
       (sp_template_id sp, sp_template_version sp) \<in> set (compatible_templates runs_on db iv))"
proof -
  obtain w iv fresh j spec inc db2 where c: "sole_worker db = Inr (Some w, Some iv)"
    "read_snapshot runs_on qt db (clk env 1) iv cursors (pending_eligibility_tenants evs) quota_bytes = Inr fresh"
    "decide fresh (epoch_ms (clk env 1)) = Inr (Dispatch jid v pv rid)"
    "filter (\<lambda>j. j_job_id j = jid) (jobs db) = [j]" "filter (\<lambda>sp. sp_job_id sp = jid) (job_specs db) = [spec]" "same_core db db2"
    "let rows = dispatch_rows env db2 j w inc spec (clk env 1) (co_epoch co) in
       attempts db' = attempts rows \<and> allocations db' = allocations rows \<and> attempt_leases db' = attempt_leases rows"
    by (rule commit_dispatch_Inr [OF assms]) (simp add: snapshot_reader_of_def del: One_nat_def)
  obtain j' sp p where s: "j' \<in> set (jobs db)" "j_job_id j' = jid" "sp \<in> set (job_specs db)" "sp_job_id sp = jid"
    "p \<in> set (tenant_policies db)" "tp_tenant_id p = j_tenant_id j'"
    "sum_list (map al_cpu_millis (unreleased_rows db)) + sp_cpu_millis sp \<le> iv_allocatable_cpu_millis iv"
    "sum_list (map al_memory_bytes (unreleased_rows db)) + sp_memory_bytes sp \<le> iv_allocatable_memory_bytes iv"
    "held_sum al_cpu_millis db (tp_tenant_id p) + sp_cpu_millis sp \<le> tp_cpu_limit_millis p"
    "held_sum al_memory_bytes db (tp_tenant_id p) + sp_memory_bytes sp \<le> tp_memory_limit_bytes p"
    "active_attempts_of db (TENANT (tp_tenant_id p)) < tp_tenant_active_limit p"
    "active_attempts_of db (USER (tp_tenant_id p) (j_submitter_user_id j')) < tp_user_active_limit p"
    "(sp_template_id sp, sp_template_version sp) \<in> set (compatible_templates runs_on db iv)"
    by (rule snapshot_dispatch [OF c(2,3)]) (rule that)
  have same: "j' = j" "sp = spec"
    using s(1-4) arg_cong [OF c(4), of set] arg_cong [OF c(5), of set] by auto
  obtain al where al: "allocations db' = allocations db @ [al]" "al_state al = S_HELD" "al_tenant_id al = j_tenant_id j"
    "al_cpu_millis al = sp_cpu_millis spec" "al_memory_bytes al = sp_memory_bytes spec"
    using c(6,7) by (simp add: dispatch_rows_def Let_def same_core_def)
  show ?thesis using c(1) s same al(3-5) by (auto simp: one_more_held [OF al(1,2)])
qed

theorem dispatch_keeps_limits_witness:
  "sum_list (map al_cpu_millis (unreleased_rows sc_dispatched)) \<le> 1 \<and> active_attempts_of sc_queued (USER ''t'' ''u'') < 2"
  using dispatch_keeps_limits [OF sc_commit [unfolded sc_reader_def sc_decision_def]]
  by (simp add: sc_placement) (simp add: sc_inventory_def sc_queued_def sc_store)

subsection \<open>Windows\<close>

text \<open>C11: The window of a tenant is exact.  A tick reads it by one of four queries, some of them one per submitter,
  per priority or per cell of sizes, whose results it merges.  As long as the tables of the queue are in
  step with the jobs, each answers what one query over all queued jobs would: the first candidates by
  aged priority and ready sequence beyond the cursor, from the start again if there are none, and the
  candidate that has been eligible longest.\<close>

theorem tenant_window_exact:
  assumes "queue_schema db" "queue_in_step qt db" "p \<in> set (tenant_policies db)"
    and "may_dispatch (prepare_tenant qt db capacity pending p)"
  shows "tenant_window qt db now compatible (prepare_tenant qt db capacity pending p) cursor =
    reference_read now cursor (tenant_candidates qt db now compatible capacity p)"
  by (rule tenant_window_reference [OF assms])

theorem tenant_window_exact_witness:
  "reference_read 0 None (tenant_candidates sc_queue sc_queued 0 [(''batch'', 1)] (snapshot_capacity sc_inventory) (hd (tenant_policies sc_start))) =
     ([(1, sc_row)], Some sc_row)"
proof -
  let ?p = "hd (tenant_policies sc_start)"
  have "queue_schema sc_queued" by (simp add: queue_schema_def sc_queued_def sc_store)
  moreover have "queue_in_step sc_queue sc_queued"
    by (simp add: queue_in_step_def sc_queue_def staircase_def top_step_def held_sum_def sc_queued_def sc_store)
  moreover have "?p \<in> set (tenant_policies sc_queued)" by (simp add: sc_queued_def sc_store)
  moreover have "may_dispatch (prepare_tenant sc_queue sc_queued (snapshot_capacity sc_inventory) {} ?p)"
    unfolding sc_prepare by (simp add: may_dispatch_def sc_prepared_def sc_store)
  ultimately have "tenant_window sc_queue sc_queued 0 [(''batch'', 1)] (prepare_tenant sc_queue sc_queued (snapshot_capacity sc_inventory) {} ?p) None =
      reference_read 0 None (tenant_candidates sc_queue sc_queued 0 [(''batch'', 1)] (snapshot_capacity sc_inventory) ?p)"
    by (rule tenant_window_exact)
  then show ?thesis unfolding sc_prepare sc_window by (rule sym)
qed

subsection \<open>Eligibility\<close>

lemma replay_batches_pages:
  "replay_batches runs_on ts [e] db = (case replay_pages runs_on ts (e, db) of (e', db') \<Rightarrow> ([e'], db'))"
proof (induction ts arbitrary: e db)
  case (Cons now ts)
  obtain e' db' where p: "replay_page runs_on db e now = (e', db')" by (cases "replay_page runs_on db e now")
  show ?case
  proof (cases "ee_completed_at e")
    case None
    then have "next_event [e] = Some e" by (simp add: next_event_def)
    moreover have "e\<lparr>ee_last_job_id := ee_last_job_id e', ee_last_processed_at := ee_last_processed_at e',
        ee_completed_at := ee_completed_at e'\<rparr> = e'"
      using p by (auto simp: replay_page_def Let_def)
    ultimately show ?thesis using None Cons.IH [of e' db'] by (simp add: process_eligibility_batch_def p Let_def update_where_def)
  next
    case (Some t)
    then have "replay_batches runs_on ts [e] db = ([e], db)"
      using Cons.IH [of e db] by (cases ts) simp_all
    with Some show ?thesis by (simp add: process_eligibility_batch_def next_event_def)
  qed
qed simp

text \<open>C12: An eligibility event is replayed exactly and to its end.  However many jobs it concerns, enough batches,
  each of at most sixty-four jobs and each at its own time, complete it, so that no tenant stays
  excluded from the snapshot, and leave every job with the age one pass over all of them would give it.\<close>

theorem eligibility_replay_exact:
  assumes "distinct (map j_job_id (jobs db))" "distinct (map sp_job_id (job_specs db))"
    and "ee_last_job_id e = None" "ee_completed_at e = None"
    and "length (replay_rows db e) < eligibility_batch_size * length ts"
  shows "case replay_batches runs_on ts [e] db of (evs', db') \<Rightarrow>
    pending_eligibility_tenants evs' = {} \<and> db' = replay_at_once runs_on db e"
  using replay_pages_reference [OF assms, of runs_on]
  by (auto simp: replay_batches_pages pending_eligibility_tenants_def split: prod.split)

theorem eligibility_replay_exact_witness:
  "map j_eligible_since (jobs (snd (replay_batches (\<lambda>_ _. True) [7, 8] [sc_suspension] sc_queued))) = [None]"
proof -
  have rows: "replay_rows sc_queued sc_suspension = [(sc_job, hd (job_specs sc_queued))]"
    by (simp add: replay_rows_def sc_suspension_def sc_queued_def sc_store)
  then have "snd (replay_batches (\<lambda>_ _. True) [7, 8] [sc_suspension] sc_queued) = replay_at_once (\<lambda>_ _. True) sc_queued sc_suspension"
    using eligibility_replay_exact [of sc_queued sc_suspension "[7, 8]" "\<lambda>_ _. True"]
    by (simp add: eligibility_batch_size_def sc_suspension_def sc_queued_def sc_store split: prod.splits)
  moreover have "possible (\<lambda>_ _. True) sc_queued (ee_old_state sc_suspension) (hd (job_specs sc_queued))"
    by (simp add: possible_def template_compatible_with_def sc_suspension_def sc_queued_def sc_store)
  moreover have "\<not> possible (\<lambda>_ _. True) sc_queued (ee_new_state sc_suspension) (hd (job_specs sc_queued))"
    by (simp add: possible_def sc_suspension_def)
  moreover have "jobs sc_queued = [sc_job]" "j_eligible_since sc_job = Some 0" "\<not> ee_rebuild sc_suspension"
    by (simp_all add: sc_suspension_def sc_queued_def sc_store)
  ultimately show ?thesis by (simp add: replay_at_once_def rows changed_age_def Let_def map_filter_def apply_ages_def)
qed

end
