(* ===== verification/Spec2Isabelle.thy ===== *)
theory Spec2Isabelle
  imports Snapshot_Properties
begin

text \<open>
  Nexa is a single-node platform for batch AI jobs of several tenants: an HTTP API accepts jobs, a
  coordinator decides which one runs, a worker agent runs it in a container and reports back, and every
  decision is a transaction on one PostgreSQL database.  The development models the transactions and the
  pure decision code below \<^verbatim>\<open>src/src/nexa\<close>, and proves what the tables, the scheduler and the guards
  promise.

  \<^bold>\<open>Conventions.\<close>  A table is the list of its rows in insertion order, a row a record with the columns of
  the schema, and a transaction a function from the store to an error or to its answer and the next
  store; an error rolls back, so its store is the old one.  The clock readings and the fresh identifiers a
  transaction draws are the functions of its environment \<open>env\<close>.  Row locks have no counterpart: locked
  transactions run one after another.  \<open>Decimal\<close> is rounding to fifty digits on rationals, Python
  integers are \<open>int\<close> or, where the schema forbids negatives, \<open>nat\<close>.

  \<^bold>\<open>Foundations.\<close>
  \<^item> \<open>Nexa_Prelude\<close>: results, folds that stop at the first error, filters and updates of tables, and the
    interface \<open>stepped\<close> of a component with an invariant and a two-state relation.
  \<^item> \<open>Decimal50\<close>: the arithmetic of \<^verbatim>\<open>decimal\<close> at precision fifty behind the interface
    \<open>decimal_context\<close>, which the accounting proofs use.
  \<^item> \<open>Store\<close>: the enumerations and tables of \<^verbatim>\<open>infrastructure/persistence/schema_v1.py\<close>.

  \<^bold>\<open>The scheduler.\<close>
  \<^item> \<open>Scheduling_Domain\<close> (\<^verbatim>\<open>domain/scheduling.py\<close>), \<open>Scheduler_Accounting\<close> (\<^verbatim>\<open>scheduler/accounting.py\<close>)
    and \<open>Scheduler_Policy\<close> (\<^verbatim>\<open>scheduler/policy.py\<close>): the snapshot, the weighted dominant resource-time
    scores, and the decision.  Proved: scores are monotone and idempotent under repeated accounting, a
    returning tenant gets no credit, a dispatch is admissible and to the tenant with the least effective
    score, a reservation excludes others, and a window with a job that can run is never idle.
  \<^item> \<open>Ledger\<close> (\<^verbatim>\<open>coordinator/accounting.py\<close>): charging and rebasing the segments of held resources.

  \<^bold>\<open>Transactions.\<close>
  \<^item> \<open>Request_Guards\<close> (\<^verbatim>\<open>domain/identity.py\<close>, \<^verbatim>\<open>application/preconditions.py\<close>,
    \<^verbatim>\<open>application/idempotency.py\<close>), \<open>Job_Admission\<close> (\<^verbatim>\<open>application/job_service.py\<close>), \<open>Job_Control\<close>
    (\<^verbatim>\<open>application/job_control.py\<close>) and \<open>Admin_Workers\<close> (\<^verbatim>\<open>application/admin_workers.py\<close>): requests of people.
  \<^item> \<open>Worker_Authority\<close> (\<^verbatim>\<open>application/worker_service.py\<close>), \<open>Execution_Service\<close>
    (\<^verbatim>\<open>application/execution_service.py\<close>), \<open>Checkpoint_Service\<close> (\<^verbatim>\<open>application/checkpoint_service.py\<close>),
    \<open>Execution_Cleanup\<close> (\<^verbatim>\<open>application/execution_cleanup.py\<close>) and \<open>Job_Recovery\<close>
    (\<^verbatim>\<open>application/job_recovery.py\<close>): callbacks of workers.
  \<^item> \<open>Leadership\<close>, \<open>Coordinator_Dispatch\<close> (\<^verbatim>\<open>coordinator/dispatch.py\<close>), \<open>Coordinator_Recovery\<close>
    (\<^verbatim>\<open>coordinator/reaper.py\<close>, \<^verbatim>\<open>coordinator/retry.py\<close>, \<^verbatim>\<open>coordinator/artifact_quota.py\<close>) and
    \<open>Coordinator_Service\<close> (\<^verbatim>\<open>coordinator/service.py\<close>): the coordinator.

  \<^bold>\<open>The scheduling snapshot.\<close>
  \<^item> \<open>Snapshot_Windows\<close>: the readers of \<^verbatim>\<open>coordinator/snapshot.py\<close> that take a bounded window of a tenant's
    queue, with a cursor (\<open>window_rows\<close>) or batched (\<open>batched_window\<close>), the cells of request sizes, and
    the reference reader both are proved equal to.
  \<^item> \<open>Quota_Headroom\<close> (\<^verbatim>\<open>src/migrations/versions/20260925_0017_b13_quota_headroom.py\<close>): the staircase of the
    headroom of a tenant, which stores since when each request size has fitted.
  \<^item> \<open>Eligibility_Replay\<close> (\<^verbatim>\<open>coordinator/eligibility.py\<close>): replaying an eligibility event page by page, which
    is proved to end and to change what one pass would.
  \<^item> \<open>Coordinator_Snapshot\<close>: \<^verbatim>\<open>read_snapshot\<close>, from the tables to the snapshot of the policy.
    \<open>Window_Reference\<close> proves each of its four ways to read a window equal to one plain query;
    \<open>Snapshot_Facts\<close> proves that every candidate it offers is a queued job and reads the limits of a
    decision off the tables.

  \<^bold>\<open>The life of a job.\<close>  \<open>Job_Lifecycle\<close> states the documented transition table as the relation
  \<open>transition_row\<close>, the part of the store that belongs to one job, and the invariant of the store.  The
  theories \<open>Lifecycle_Worker\<close>, \<open>Lifecycle_Callbacks\<close>, \<open>Lifecycle_Fencing\<close>, \<open>Lifecycle_Cleanup\<close>,
  \<open>Lifecycle_Control\<close> and \<open>Lifecycle_Coordinator\<close> prove for each transaction that it keeps the
  invariant and moves its job along the table.  \<open>System\<close> is the step relation of all transactions;
  \<open>System_Facts\<close> reads the invariant off the tables.  \<open>Scenario\<close> computes a run, so that the theorems
  on reachable stores speak about stores that exist.  The theorems about single requests and
  transactions are in \<open>Request_Properties\<close> and \<open>Transaction_Properties\<close>, those about the way from the
  queue tables to a running job in \<open>Snapshot_Properties\<close>, those about the whole system in this theory.

  \<^bold>\<open>Bounds.\<close>  No definition takes fuel.  Loops over tables are recursions over lists, the walk along retry
  references removes a job per step, and the loops of the policy are bounded by their windows.  A page of
  an eligibility event has sixty-four jobs as in the code, and the theorem on its replay says how many
  pages are enough.

  \<^bold>\<open>Hypotheses.\<close>  A job, an attempt and every other new row needs an identifier that no row has; the rules
  of \<open>transaction\<close> state it for the identifiers they draw.  Code that is not part of the model is an
  argument: the revalidation of a session, checking the bytes of a manifest, and the compatibility of an
  image with a worker.  The commit takes the reader of the snapshot as a parameter, so that its effect on
  a job holds for every reader; \<open>snapshot_reader_of\<close> is the one of the code.  \<open>queue_in_step\<close> is the
  contract of the triggers that keep the queue tables, \<open>queue_schema\<close> that of the constraints of the
  schema.

  \<^bold>\<open>Not modelled.\<close>  The HTTP layer, the command line, metrics and configuration, which only transport or
  print; reading and listing endpoints, which change nothing; the migrations but the staircase
  functions, because triggers fire inside statements the model reads as whole transactions; the loops
  of the coordinator and the worker agent, which call the modelled transactions over HTTP and Docker;
  and the programs that run in the container.
\<close>

section \<open>Properties of the whole system\<close>

subsection \<open>The documented state machine\<close>



text \<open>C5: A terminal state is final.  A job that succeeded, failed or was cancelled keeps that state, its
  desired state, its retry count and its fence through every sequence of transactions.\<close>

theorem terminal_is_final:
  assumes "reachable db" "transaction\<^sup>*\<^sup>* db db'" "j \<in> set (jobs db)" "j_state j \<in> terminal_states"
  shows "\<exists>j' \<in> set (jobs db'). j_job_id j' = j_job_id j \<and> j_state j' = j_state j \<and>
    j_desired_state j' = j_desired_state j \<and> j_retry_count j' = j_retry_count j \<and> j_job_fence j' = j_job_fence j"
proof -
  obtain j' where j': "j' \<in> set (jobs db')" "j_job_id j' = j_job_id j"
    "transition_row\<^sup>*\<^sup>* (machine_of j (part db (j_job_id j))) (machine_of j' (part db' (j_job_id j)))"
    by (rule job_moves [OF assms(2,1,3)])
  with rows_terminal [OF j'(3)] assms(4) show ?thesis by (auto simp: machine_of_def)
qed

theorem terminal_is_final_witness:
  "\<exists>j' \<in> set (jobs sc_cancelled). j_job_id j' = ''j'' \<and> j_state j' = J_CANCELLED"
proof -
  obtain j where j: "j \<in> set (jobs sc_cancelled)" "j_state j = J_CANCELLED" "j_job_id j = ''j''"
    using sc_cancelled_job by auto
  then show ?thesis
    using terminal_is_final [OF sc_cancel_reachable(1) rtranclp.rtrancl_refl j(1)] by (auto simp: terminal_states_def)
qed

subsection \<open>Authority and fencing\<close>

text \<open>C2: Fencing is permanent.  Once the fence of a job has passed the fence an authority was granted
  under, no callback presenting that authority for an attempt of the job is accepted again: the check
  of the authority answers an error in every later store, whichever worker asks.\<close>

theorem stale_authority_refused:
  assumes "reachable db" "transaction\<^sup>*\<^sup>* db db'" "j \<in> set (jobs db)" "au_job_fence au < j_job_fence j"
    and "a \<in> set (attempts db')" "a_attempt_id a = au_attempt_id au" "a_job_id a = j_job_id j"
  shows "\<exists>e. authority_rows db' au worker_id = Inl e"
proof (cases "authority_rows db' au worker_id")
  case (Inr t)
  obtain j' where j': "j' \<in> set (jobs db')" "j_job_id j' = j_job_id j"
    "transition_row\<^sup>*\<^sup>* (machine_of j (part db (j_job_id j))) (machine_of j' (part db' (j_job_id j)))"
    by (rule job_moves [OF assms(2,1,3)])
  have fence: "j_job_fence j \<le> j_job_fence j'" using rows_monotone [OF j'(3)] by (simp add: machine_of_def)
  note rows = authority_rows_Inr [OF Inr]
  have "at_attempt t = a" using filter_singleton_mem [OF rows(1) assms(5)] assms(6) by simp
  then have "at_job t = j'" using filter_singleton_mem [OF rows(2) j'(1)] j'(2) assms(7) by simp
  moreover have "j_job_fence (at_job t) = au_job_fence au" using rows(6) by (simp add: authority_stale_def Let_def)
  ultimately show ?thesis using fence assms(4) by simp
qed simp

theorem stale_authority_refused_witness:
  "\<exists>e. authority_rows sc_cancelling \<lparr>au_worker_id = ''w'', au_worker_incarnation_id = ''i'', au_attempt_id = ''a'',
     au_allocation_id = ''a1'', au_lease_id = ''a2'', au_job_fence = 1\<rparr> ''w'' = Inl e"
proof -
  obtain j where j: "j \<in> set (jobs sc_cancelling)" "j_job_fence j = 2" "j_job_id j = ''j''"
    using sc_cancelling_job by auto
  obtain a where a: "a \<in> set (attempts sc_cancelling)" "a_attempt_id a = ''a''" "a_job_id a = ''j''"
    using sc_cancelling_attempt by auto
  show ?thesis
    by (rule stale_authority_refused [OF sc_cancel_reachable(2) rtranclp.rtrancl_refl j(1) _ a(1)]) (simp_all add: j a)
qed

text \<open>C3: A job has one authority at most.  Of the grants of a job that have not ended there is at most one,
  it names an attempt of the job under the job's current fence, with a lease that is not revoked and
  an allocation that is held, and the job is dispatched, running, pausing or, until its cleanup,
  succeeded.\<close>

theorem single_authority:
  assumes "reachable db" "g \<in> set (attempt_authority_grants db)" "g_ended_at g = None"
  shows "(\<forall>g' \<in> set (attempt_authority_grants db). g_job_id g' = g_job_id g \<longrightarrow> g_ended_at g' = None \<longrightarrow> g' = g) \<and>
    (\<exists>j \<in> set (jobs db). \<exists>a \<in> set (attempts db). \<exists>l \<in> set (attempt_leases db). \<exists>al \<in> set (allocations db).
       g_job_id g = j_job_id j \<and> a_job_id a = j_job_id j \<and> a_attempt_id a = g_attempt_id g \<and>
       a_job_fence a = j_job_fence j \<and> g_job_fence g = j_job_fence j \<and>
       l_lease_id l = g_lease_id g \<and> l_revoked_at l = None \<and> al_allocation_id al = g_allocation_id g \<and> al_state al = S_HELD \<and>
       j_state j \<in> {J_DISPATCHING, J_RUNNING, J_PAUSING, J_SUCCEEDED})"
proof -
  let ?p = "part db (g_job_id g)"
  have g: "g \<in> set (live_grants ?p)" using assms(2,3) by (simp add: live_grants_def)
  then have "?p \<noteq> empty_part" by (metis empty_iff list.set(1) live_grants_empty)
  then obtain j where j: "j \<in> set (jobs db)" "j_job_id j = g_job_id g" by (rule job_of_part [OF assms(1)])
  have phase: "phase_ok j ?p" using reachable_job(2) [OF assms(1) j(1)] j(2) by simp
  obtain a al l where h: "held_by ?p a al l g" "a_job_fence a = j_job_fence j" using live_grant_held [OF phase g] by blast
  have "live_grants ?p = [g]" using h(1) by (simp add: held_by_def)
  moreover have "g' \<in> set (live_grants ?p)"
    if "g' \<in> set (attempt_authority_grants db)" "g_job_id g' = g_job_id g" "g_ended_at g' = None" for g'
    using that by (simp add: live_grants_def)
  ultimately have "g' = g" if "g' \<in> set (attempt_authority_grants db)" "g_job_id g' = g_job_id g" "g_ended_at g' = None" for g'
    using that by (metis list.set(1) list.simps(15) singletonD)
  moreover have "l \<in> set (live_leases ?p)" "al \<in> set (unreleased ?p)" using h(1) by (simp_all add: held_by_def)
  moreover have "j_state j \<in> {J_DISPATCHING, J_RUNNING, J_PAUSING, J_SUCCEEDED}"
    by (rule live_grant_states [OF phase]) (use g in auto)
  ultimately show ?thesis
    using h j by (intro conjI ballI impI bexI [of _ j] bexI [of _ a] bexI [of _ l] bexI [of _ al])
      (auto simp: held_by_def live_leases_def unreleased_def)
qed

theorem single_authority_witness:
  "g_ended_at sc_grant = None \<and> (\<exists>j \<in> set (jobs sc_dispatched). g_job_fence sc_grant = j_job_fence j)"
proof -
  have "sc_grant \<in> set (attempt_authority_grants sc_dispatched)" "g_ended_at sc_grant = None"
    by (simp_all add: sc_dispatched_def sc_grant_def)
  with single_authority [OF sc_dispatched_reachable this] show ?thesis by blast
qed

text \<open>C21: The attempts of a job are numbered without a gap in the order of their rows, their fences grow
  strictly and never exceed the fence of the job, and each has one allocation and one lease, in the
  same order.\<close>

theorem attempts_numbered:
  assumes "reachable db" "j \<in> set (jobs db)"
    and "as = filter (\<lambda>a. a_job_id a = j_job_id j) (attempts db)"
  shows "map a_attempt_number as = [1..int (length as)] \<and> sorted_wrt (<) (map a_job_fence as) \<and>
    (\<forall>a \<in> set as. 1 \<le> a_job_fence a \<and> a_job_fence a \<le> j_job_fence j) \<and>
    map al_attempt_id (filter (\<lambda>al. al_job_id al = j_job_id j) (allocations db)) = map a_attempt_id as \<and>
    map l_attempt_id (filter (\<lambda>l. l_job_id l = j_job_id j) (attempt_leases db)) = map a_attempt_id as"
  using reachable_job(1) [OF assms(1,2)] assms(3) by (simp add: attempts_ok_def)

theorem attempts_numbered_witness:
  "map a_attempt_number [sc_attempt] = [1..int (length [sc_attempt])] \<and> map al_attempt_id [sc_allocation] = map a_attempt_id [sc_attempt]"
proof -
  let ?j = "sc_job\<lparr>j_state := J_DISPATCHING, j_version := 2, j_job_fence := 1, j_event_sequence := 2\<rparr>"
  have "?j \<in> set (jobs sc_dispatched)" "[sc_attempt] = filter (\<lambda>a. a_job_id a = j_job_id ?j) (attempts sc_dispatched)"
    "filter (\<lambda>al. al_job_id al = j_job_id ?j) (allocations sc_dispatched) = [sc_allocation]"
    by (simp_all add: sc_dispatched_def sc_rows sc_job_def new_job_def)
  then show ?thesis using attempts_numbered [OF sc_dispatched_reachable, of ?j "[sc_attempt]"] by simp
qed

subsection \<open>Resources\<close>

text \<open>C6: The state of a job tells what it holds.  A job that waits, is paused, failed or was cancelled has no
  unreleased allocation and no live lease or grant; a dispatched, running or pausing job has exactly
  one unreleased allocation, held, with exactly one live lease; a recovering or cancelling job has
  exactly one, quarantined, and no live lease.\<close>

theorem state_tells_holdings:
  assumes "reachable db" "j \<in> set (jobs db)"
    and "als = filter (\<lambda>al. al_job_id al = j_job_id j \<and> al_state al \<noteq> S_RELEASED) (allocations db)"
    and "ls = filter (\<lambda>l. l_job_id l = j_job_id j \<and> l_revoked_at l = None) (attempt_leases db)"
  shows "(j_state j \<in> {J_QUEUED, J_RETRY_WAIT, J_PAUSED, J_FAILED, J_CANCELLED} \<longrightarrow> als = [] \<and> ls = []) \<and>
    (j_state j \<in> {J_DISPATCHING, J_RUNNING, J_PAUSING} \<longrightarrow>
       map al_state als = [S_HELD] \<and> map l_allocation_id ls = map al_allocation_id als) \<and>
    (j_state j \<in> {J_RECOVERING, J_CANCELLING} \<longrightarrow> map al_state als = [S_QUARANTINED] \<and> ls = [])"
proof -
  have "als = unreleased (part db (j_job_id j))" "ls = live_leases (part db (j_job_id j))"
    using assms(3,4) by (simp_all add: unreleased_def live_leases_def conj_commute)
  with phase_of_state [OF reachable_job(2) [OF assms(1,2)]] show ?thesis
    by (auto simp: idle_def held_by_def quarantined_by_def)
qed

theorem state_tells_holdings_witness:
  "map al_state [sc_allocation] = [S_HELD] \<and> map l_allocation_id [sc_lease] = map al_allocation_id [sc_allocation]"
proof -
  let ?j = "sc_job\<lparr>j_state := J_DISPATCHING, j_version := 2, j_job_fence := 1, j_event_sequence := 2\<rparr>"
  have "?j \<in> set (jobs sc_dispatched)"
    "[sc_allocation] = filter (\<lambda>al. al_job_id al = j_job_id ?j \<and> al_state al \<noteq> S_RELEASED) (allocations sc_dispatched)"
    "[sc_lease] = filter (\<lambda>l. l_job_id l = j_job_id ?j \<and> l_revoked_at l = None) (attempt_leases sc_dispatched)"
    by (simp_all add: sc_dispatched_def sc_rows sc_job_def new_job_def)
  from state_tells_holdings [OF sc_dispatched_reachable this] show ?thesis by simp
qed

text \<open>C4: The admission counters are exact.  In every reachable store the counter of a scope (everybody, a
  tenant, a user of a tenant) holds the number of jobs of the scope that have not ended and the number
  of their unreleased allocations.\<close>

theorem counters_exact:
  assumes "reachable db" "k \<in> set (admission_counters db)"
  shows "k_outstanding k = int (length (filter (\<lambda>j. k_scope k \<in> set (counter_scopes j) \<and> j_state j \<notin> terminal_states)
      (jobs db))) \<and>
    k_active_attempts k = int (length (filter (\<lambda>al. al_state al \<noteq> S_RELEASED \<and>
      list_ex (\<lambda>j. j_job_id j = al_job_id al \<and> k_scope k \<in> set (counter_scopes j)) (jobs db)) (allocations db)))"
  using reachable_counters [OF assms] by (simp add: outstanding_jobs_def active_allocations_def)

theorem counters_exact_witness:
  "\<exists>k \<in> set (admission_counters sc_dispatched). k_scope k = TENANT ''t'' \<and> k_outstanding k = 1 \<and>
     k_outstanding k = int (length (filter (\<lambda>j. TENANT ''t'' \<in> set (counter_scopes j) \<and> j_state j \<notin> terminal_states)
       (jobs sc_dispatched)))"
proof -
  obtain k where k: "k \<in> set (admission_counters sc_dispatched)" "k_scope k = TENANT ''t''" "k_outstanding k = 1"
    by (force simp: sc_dispatched_def sc_counters_def)
  with counters_exact [OF sc_dispatched_reachable k(1)] show ?thesis by auto
qed

text \<open>C7: The accounting errors of the code never occur.  For every job of a reachable store the three counters
  can be locked, and they can be lowered by what the job contributes, one outstanding job if it has
  not ended and one active attempt if it has an unreleased allocation; so neither \<^verbatim>\<open>Admission accounting is
  unavailable\<close> nor \<^verbatim>\<open>Admission accounting is inconsistent\<close> is ever answered for it.\<close>

theorem accounting_never_fails:
  assumes "reachable db" "j \<in> set (jobs db)"
    and "outstanding = (if j_state j \<in> terminal_states then 0 else 1)"
    and "active = (if list_ex (\<lambda>al. al_job_id al = j_job_id j \<and> al_state al \<noteq> S_RELEASED) (allocations db) then 1 else 0)"
  shows "\<exists>ks db'. lock_counters db (counter_scopes j) = Inr ks \<and> map k_scope ks = counter_scopes j \<and>
    adjust_counters db ks now outstanding active = Inr db'"
proof -
  have c: "distinct (map k_scope (admission_counters db))" "set (counter_scopes j) \<subseteq> k_scope ` set (admission_counters db)"
    using reachable_inv [OF assms(1)] assms(2) by (auto simp: inv_def counters_ok_def)
  obtain ks where ks: "lock_counters db (counter_scopes j) = Inr ks" "set ks \<subseteq> set (admission_counters db)"
    "map k_scope ks = counter_scopes j" using lock_counters_total [OF c] by blast
  have "outstanding \<le> k_outstanding k \<and> active \<le> k_active_attempts k" if k: "k \<in> set ks" for k
  proof -
    have s: "k_scope k \<in> set (counter_scopes j)" using k ks(3) by (metis image_eqI list.set_map)
    have "outstanding \<le> int (length (outstanding_jobs db (k_scope k)))"
      using scopes_of_job(1) [OF assms(1,2) s] assms(3) by (auto split: if_splits)
    moreover have "active \<le> int (length (active_allocations db (k_scope k)))"
    proof (cases "unreleased (part db (j_job_id j))")
      case Nil
      then have "active = 0" using assms(4) by (auto simp: unreleased_def filter_empty_conv list_ex_iff)
      then show ?thesis by simp
    next
      case (Cons al rest)
      then show ?thesis using scopes_of_job(2) [OF assms(1,2) s, of al] assms(4) by simp
    qed
    ultimately show ?thesis using reachable_counters [OF assms(1)] k ks(2) by auto
  qed
  then show ?thesis using adjust_counters_total [of ks outstanding active db now] ks by blast
qed

theorem accounting_never_fails_witness:
  "\<exists>ks db'. lock_counters sc_queued (counter_scopes sc_job) = Inr ks \<and> adjust_counters sc_queued ks 7 1 0 = Inr db'"
proof -
  have "sc_job \<in> set (jobs sc_queued)" "j_state sc_job \<notin> terminal_states" "allocations sc_queued = []"
    by (simp_all add: sc_queued_def sc_job_def new_job_def sc_start_def empty_db_def terminal_states_def)
  with accounting_never_fails [OF sc_queued_reachable this(1), of 1 0 7] show ?thesis by auto
qed

subsection \<open>Records of a job\<close>



text \<open>C17: A job has a result exactly if it succeeded, and never more than one.\<close>

theorem one_result:
  assumes "reachable db" "j \<in> set (jobs db)"
  shows "length (filter (\<lambda>r. re_job_id r = j_job_id j) (results db)) = (if j_state j = J_SUCCEEDED then 1 else 0)"
  using reachable_job(6) [OF assms] by (simp add: results_ok_def)

theorem one_result_witness:
  "\<exists>j \<in> set (jobs sc_dispatched). length (filter (\<lambda>r. re_job_id r = j_job_id j) (results sc_dispatched)) = 0"
  using one_result [OF sc_dispatched_reachable] by (simp add: sc_dispatched_def)

text \<open>C19: Automatic retries stay within their budget.  The retries of a job are numbered from one to its retry
  count, which never exceeds the maximum; a job that waits for a retry has exactly that last retry
  open, and no other job has an open one.\<close>

theorem retry_budget:
  assumes "reachable db" "j \<in> set (jobs db)"
    and "rs = filter (\<lambda>r. rs_job_id r = j_job_id j) (retry_schedules db)"
  shows "map rs_retry_number rs = [1..j_retry_count j] \<and> j_retry_count j \<le> j_max_retries j \<and>
    map rs_retry_number (filter (\<lambda>r. rs_closed_at r = None) rs) =
      (if j_state j = J_RETRY_WAIT then [j_retry_count j] else [])"
  using reachable_job(4) [OF assms(1,2)] assms(3) by (simp add: retries_ok_def)

theorem retry_budget_witness: "\<exists>j \<in> set (jobs sc_queued). j_retry_count j \<le> j_max_retries j"
  using retry_budget [OF sc_queued_reachable _ refl] by (simp add: sc_queued_def)

text \<open>C20: The columns that steer a job are well typed.  A waiting or dispatched job is one the scheduler may
  start; a running or succeeded job is meant to run, a pausing or paused one to pause; a job is meant
  to be cancelled exactly while it is cancelling or cancelled; a recovery intent is only kept by jobs
  meant to pause or to be cancelled; and the end time is set exactly in the terminal states.\<close>

theorem control_columns:
  assumes "reachable db" "j \<in> set (jobs db)"
  shows "(j_state j \<in> {J_QUEUED, J_RETRY_WAIT, J_DISPATCHING} \<longrightarrow> (j_desired_state j, j_recovery_intent j) \<in> dispatchable) \<and>
    (j_state j \<in> {J_RUNNING, J_SUCCEEDED} \<longrightarrow> j_desired_state j = D_RUNNING) \<and>
    (j_state j \<in> {J_PAUSING, J_PAUSED} \<longrightarrow> j_desired_state j = D_PAUSED) \<and>
    (j_desired_state j = D_CANCELLED \<longleftrightarrow> j_state j \<in> {J_CANCELLING, J_CANCELLED}) \<and>
    (j_recovery_intent j \<noteq> None \<longrightarrow> j_desired_state j \<noteq> D_RUNNING \<and> j_state j \<notin> insert J_PAUSED terminal_states) \<and>
    (j_terminal_at j \<noteq> None \<longleftrightarrow> j_state j \<in> terminal_states)"
proof -
  have "control_ok j" by (rule reachable_job(3) [OF assms])
  then show ?thesis unfolding control_ok_def by argo
qed

theorem control_columns_witness: "\<exists>j \<in> set (jobs sc_cancelled). j_desired_state j = D_CANCELLED \<and> j_terminal_at j \<noteq> None"
proof -
  obtain j where "j \<in> set (jobs sc_cancelled)" "j_state j = J_CANCELLED" using sc_cancelled_job by auto
  with control_columns [OF sc_cancel_reachable(1) this(1)] show ?thesis by (auto simp: terminal_states_def)
qed

subsection \<open>Admission\<close>

text \<open>C8: Admission respects the limits.  When a submission is accepted and creates a job, then in the new
  store the tenant has at most its limit of jobs that have not ended, the user has at most the user
  limit, and everybody together at most the global limit, whatever ran before.\<close>

theorem admission_limited:
  assumes "reachable db" "submit sv env db caller tenant_id spec key h = Inr (r, db')"
    and "ids env 0 \<notin> j_job_id ` set (jobs db)" "ids env 0 \<in> j_job_id ` set (jobs db')"
  shows "\<exists>tp \<in> set (tenant_policies db). \<exists>j \<in> set (jobs db'). tp_tenant_id tp = tenant_id \<and> j_job_id j = ids env 0 \<and>
    int (length (outstanding_jobs db' GLOBAL)) \<le> pv_global_outstanding_limit (policy db) \<and>
    int (length (outstanding_jobs db' (TENANT tenant_id))) \<le> tp_outstanding_limit tp \<and>
    int (length (outstanding_jobs db' (USER tenant_id (j_submitter_user_id j)))) \<le> tp_user_outstanding_limit tp"
  using assms(2)
proof (cases rule: submit_Inr)
  case 1
  then show ?thesis using assms(3,4) by (simp add: same_core_def)
next
  case (2 live db1 tp gc db2 db3)
  note ad = admit_limits [OF 2(5)]
  have "reachable db'" using assms(1) transaction.submit [OF assms(2,3)] by (rule reachable.step)
  then have exact: "k_outstanding k = int (length (outstanding_jobs db' (k_scope k)))" if "k \<in> set (admission_counters db3)" for k
    using reachable_counters(1) that 2(7) by (simp add: same_core_def)
  have lim: "int (length (outstanding_jobs db' s)) \<le> limit"
    if "\<exists>c. filter (\<lambda>k. k_scope k = s) (admission_counters db2) = [c] \<and> k_outstanding c < limit"
      "s \<in> {GLOBAL, TENANT tenant_id, USER tenant_id (user_of live)}" for s limit
    using that create_job_counters(1) [OF 2(6)] exact by fastforce
  obtain j where "j \<in> set (jobs db')" "j_job_id j = ids env 0" "j_submitter_user_id j = user_of live"
    using ad(3) create_job_counters(2) [OF 2(6)] 2(7) by (fastforce simp: same_core_def)
  then show ?thesis
    using ad(1,2) lim [OF ad(3)] lim [OF ad(4)] lim [OF ad(5)] 2(3,4)
    by (intro bexI [of _ tp] bexI [of _ j]) simp_all
qed

theorem admission_limited_witness:
  "\<exists>tp \<in> set (tenant_policies sc_start). int (length (outstanding_jobs sc_queued (TENANT ''t''))) \<le> tp_outstanding_limit tp"
proof -
  obtain r where r: "submit sc_services (sc_env ''j'' 0) sc_start sc_user ''t'' sc_spec sc_key sc_hash = Inr (r, sc_queued)"
    using sc_submit by blast
  have "reachable sc_start" by (rule sc_start_reachable)
  moreover have "ids (sc_env ''j'' 0) 0 \<notin> j_job_id ` set (jobs sc_start)" "ids (sc_env ''j'' 0) 0 \<in> j_job_id ` set (jobs sc_queued)"
    by (simp_all add: sc_queued_def sc_store)
  ultimately show ?thesis using admission_limited [OF _ r] by blast
qed

end
